theory Spec2Isabelle
  imports Main "HOL-Library.Word"
begin

section \<open>Resource identifiers and the Handle Table\<close>

text \<open>
  Modelled from the spec: \<^verbatim>\<open>IdTable.h\<close> is included by the renderer header but is not
  among the sources. The spec (sections 3 and 4.1) describes a resource id as an opaque
  handle combining a slot index and a generation marker, and the table as a
  fixed-capacity array of slots: \<^verbatim>\<open>create()\<close> allocates the lowest free slot and fails
  when all slots are occupied, \<^verbatim>\<open>destroy(id)\<close> marks the slot free, \<^verbatim>\<open>has(id)\<close> is the
  liveness check, and an id is never reused while a check of the old id would succeed
  (the generation of a slot changes when it is freed).
\<close>

datatype Id = Id (id_index: nat) (id_gen: nat)

record slot =
  live :: bool
  generation :: nat

type_synonym IdTable = "slot list"

text \<open>Modelled from the spec: a table of capacity \<open>C\<close> starts with \<open>C\<close> free slots.\<close>

definition IdTable_init :: "nat \<Rightarrow> IdTable" where
  "IdTable_init C = replicate C \<lparr>live = False, generation = 0\<rparr>"

text \<open>Modelled from the spec: the index of the lowest free slot, if there is one.\<close>

fun lowest_free :: "slot list \<Rightarrow> nat option" where
  "lowest_free [] = None"
| "lowest_free (s # ss) = (if live s then map_option Suc (lowest_free ss) else Some 0)"

text \<open>
  Modelled from the spec: \<^verbatim>\<open>create()\<close> marks the lowest free slot live and returns its
  id; \<open>None\<close> is the capacity error, which leaves the table as it is.
\<close>

definition IdTable_create :: "IdTable \<Rightarrow> (Id \<times> IdTable) option" where
  "IdTable_create t =
     (case lowest_free t of
        None \<Rightarrow> None
      | Some i \<Rightarrow> Some (Id i (generation (t ! i)), t[i := (t ! i)\<lparr>live := True\<rparr>]))"

text \<open>Modelled from the spec: \<^verbatim>\<open>has(id)\<close>, the liveness check.\<close>

definition IdTable_has :: "IdTable \<Rightarrow> Id \<Rightarrow> bool" where
  "IdTable_has t x =
     (id_index x < length t \<and> live (t ! id_index x) \<and> generation (t ! id_index x) = id_gen x)"

text \<open>
  Modelled from the spec: \<^verbatim>\<open>destroy(id)\<close> marks the slot of \<open>id\<close> free and moves the slot to
  its next generation. An index outside the table names no slot and changes nothing.
\<close>

definition IdTable_destroy :: "IdTable \<Rightarrow> Id \<Rightarrow> IdTable" where
  "IdTable_destroy t x =
     (if id_index x < length t
      then t[id_index x := \<lparr>live = False, generation = Suc (generation (t ! id_index x))\<rparr>]
      else t)"

text \<open>The ids that are live in a table, in slot order.\<close>

definition IdTable_live :: "IdTable \<Rightarrow> Id list" where
  "IdTable_live t =
     map (\<lambda>i. Id i (generation (t ! i))) (filter (\<lambda>i. live (t ! i)) [0..<length t])"

text \<open>A sequence of calls on one table; a failed \<^verbatim>\<open>create()\<close> leaves the table as it is.\<close>

datatype table_op = Create | Destroy Id

fun table_step :: "IdTable \<Rightarrow> table_op \<Rightarrow> IdTable" where
  "table_step t Create = (case IdTable_create t of None \<Rightarrow> t | Some (x, t') \<Rightarrow> t')"
| "table_step t (Destroy x) = IdTable_destroy t x"

definition table_run :: "nat \<Rightarrow> table_op list \<Rightarrow> IdTable" where
  "table_run C ops = foldl table_step (IdTable_init C) ops"

section \<open>Faults\<close>

text \<open>
  Modelled from the spec: the \<^verbatim>\<open>CE_ASSERT\<close> macro is used by the renderer header but is
  not among the sources. Following section 7 of the spec, a failed check is a
  distinguishable fault that halts the caller at the check: no statement after it runs.
  One constructor stands for each check of the renderer header, named after its message;
  the last four are the faults of the collaborators modelled below (a Handle Table with
  no free slot, a read at the end of a stream, a read of another type than was written,
  a uniform name that does not fit the dispatcher's local array).
\<close>

datatype fault =
    Vertex_buffer_does_not_exist
  | Index_buffer_does_not_exist
  | Texture_does_not_exist
  | Shader_does_not_exist
  | GPU_program_does_not_exist
  | Uniform_does_not_exist
  | Render_target_does_not_exist
  | Uniform_name_is_a_stock_uniform
  | Max_uniform_name_length
  | Value_is_null
  | Oops_unknown_command
  | Capacity_exhausted
  | Read_past_end
  | Type_mismatch
  | Name_array_overflow

type_synonym 'a result = "fault + 'a"

definition and_then :: "'a result \<Rightarrow> ('a \<Rightarrow> 'b result) \<Rightarrow> 'b result" where
  "and_then m f = (case m of Inl e \<Rightarrow> Inl e | Inr x \<Rightarrow> f x)"

section \<open>Enumerations and operands\<close>

text \<open>
  The opcodes are the enumerators of \<^verbatim>\<open>CommandType\<close> that the renderer header names. The
  enumeration itself is declared in a header that is not among the sources, so
  \<open>OTHER_COMMAND\<close> stands for any enumerator the dispatcher's \<^verbatim>\<open>switch\<close> has no case for.
\<close>

datatype CommandType =
    INIT_RENDERER
  | SHUTDOWN_RENDERER
  | CREATE_VERTEX_BUFFER
  | CREATE_DYNAMIC_VERTEX_BUFFER
  | UPDATE_VERTEX_BUFFER
  | DESTROY_VERTEX_BUFFER
  | CREATE_INDEX_BUFFER
  | CREATE_DYNAMIC_INDEX_BUFFER
  | UPDATE_INDEX_BUFFER
  | DESTROY_INDEX_BUFFER
  | CREATE_TEXTURE
  | UPDATE_TEXTURE
  | DESTROY_TEXTURE
  | CREATE_SHADER
  | DESTROY_SHADER
  | CREATE_GPU_PROGRAM
  | DESTROY_GPU_PROGRAM
  | CREATE_UNIFORM
  | DESTROY_UNIFORM
  | END
  | OTHER_COMMAND nat

text \<open>
  The other enumerations are declared outside the sources as well; the renderer only
  passes their values on, so a value is its enumerator number. \<open>UniformType_END\<close> is
  \<^verbatim>\<open>UniformType::END\<close> and \<open>COUNT\<close> is \<^verbatim>\<open>ShaderUniform::COUNT\<close>, the two enumerators the renderer
  compares with.
\<close>

datatype VertexFormat = VertexFormat nat
datatype PixelFormat = PixelFormat nat
datatype ShaderType = ShaderType nat
datatype UniformType = UniformType nat | UniformType_END
datatype ShaderUniform = ShaderUniform nat | COUNT

text \<open>
  A \<^verbatim>\<open>const void*\<close> is an address; the renderer never reads through it. \<^verbatim>\<open>size_t\<close> values
  are only passed on (no arithmetic is done on them), so they are natural numbers.
\<close>

type_synonym pointer = nat

text \<open>
  A C string is the bytes before the first terminator; \<^verbatim>\<open>string::strlen\<close> counts them.
\<close>

definition c_str :: "string \<Rightarrow> string" where
  "c_str s = takeWhile (\<lambda>c. c \<noteq> CHR 0x00) s"

definition strlen :: "string \<Rightarrow> nat" where
  "strlen s = length (c_str s)"

text \<open>
  The values missing from the sources that a caller of the renderer fixes: the
  capacities of the seven Handle Tables and the length bound of a uniform name
  (\<^verbatim>\<open>Config.h\<close>), and the external function \<^verbatim>\<open>name_to_stock_uniform\<close>. They are parameters of
  the model.
\<close>

record Config =
  CROWN_MAX_VERTEX_BUFFERS :: nat
  CROWN_MAX_INDEX_BUFFERS :: nat
  CROWN_MAX_TEXTURES :: nat
  CROWN_MAX_SHADERS :: nat
  CROWN_MAX_GPU_PROGRAMS :: nat
  CROWN_MAX_UNIFORMS :: nat
  CROWN_MAX_RENDER_TARGETS :: nat
  CROWN_MAX_UNIFORM_NAME_LENGTH :: nat
  name_to_stock_uniform :: "string \<Rightarrow> ShaderUniform"

section \<open>The Command Stream\<close>

text \<open>
  Modelled from the spec: \<^verbatim>\<open>CommandBuffer\<close> is declared in \<^verbatim>\<open>RenderContext.h\<close>, which is not
  among the sources. By section 4.2 of the spec it is an append-only buffer with a typed
  write and a read cursor: \<^verbatim>\<open>write(value)\<close> appends the representation of one value,
  \<^verbatim>\<open>read(value)\<close> copies out a value of the expected type and advances the cursor,
  \<^verbatim>\<open>clear()\<close> resets the stream to empty. The model keeps one item per written value,
  tagged with the type it was written at, and so abstracts from the byte layout: a read
  at another type than the one written (undefined in the spec) is the fault
  \<open>Type_mismatch\<close>, a read at the end of the buffer is \<open>Read_past_end\<close>.
\<close>

datatype item =
    Command CommandType
  | Handle Id
  | Size nat
  | U32 "32 word"
  | U8 "8 word"
  | VFormat VertexFormat
  | PFormat PixelFormat
  | SType ShaderType
  | UType UniformType
  | Pointer pointer
  | Chars string

record CommandBuffer =
  m_buffer :: "item list"
  m_read :: nat

definition CommandBuffer_init :: CommandBuffer where
  "CommandBuffer_init = \<lparr>m_buffer = [], m_read = 0\<rparr>"

definition CommandBuffer_write :: "item \<Rightarrow> CommandBuffer \<Rightarrow> CommandBuffer" where
  "CommandBuffer_write x cmds = cmds\<lparr>m_buffer := m_buffer cmds @ [x]\<rparr>"

definition CommandBuffer_clear :: "CommandBuffer \<Rightarrow> CommandBuffer" where
  "CommandBuffer_clear cmds = \<lparr>m_buffer = [], m_read = 0\<rparr>"

definition CommandBuffer_read :: "CommandBuffer \<Rightarrow> (item \<times> CommandBuffer) result" where
  "CommandBuffer_read cmds =
     (if m_read cmds < length (m_buffer cmds)
      then Inr (m_buffer cmds ! m_read cmds, cmds\<lparr>m_read := Suc (m_read cmds)\<rparr>)
      else Inl Read_past_end)"

text \<open>The typed reads: \<open>read_as p\<close> reads one item and takes it at the type \<open>p\<close> selects.\<close>

definition read_as :: "(item \<Rightarrow> 'a option) \<Rightarrow> CommandBuffer \<Rightarrow> ('a \<times> CommandBuffer) result" where
  "read_as p cmds =
     and_then (CommandBuffer_read cmds) (\<lambda>(x, cmds').
       case p x of None \<Rightarrow> Inl Type_mismatch | Some v \<Rightarrow> Inr (v, cmds'))"

fun as_command :: "item \<Rightarrow> CommandType option" where
  "as_command (Command c) = Some c"
| "as_command _ = None"

fun as_id :: "item \<Rightarrow> Id option" where
  "as_id (Handle x) = Some x"
| "as_id _ = None"

fun as_size :: "item \<Rightarrow> nat option" where
  "as_size (Size n) = Some n"
| "as_size _ = None"

fun as_u32 :: "item \<Rightarrow> 32 word option" where
  "as_u32 (U32 w) = Some w"
| "as_u32 _ = None"

fun as_u8 :: "item \<Rightarrow> 8 word option" where
  "as_u8 (U8 w) = Some w"
| "as_u8 _ = None"

fun as_vertex_format :: "item \<Rightarrow> VertexFormat option" where
  "as_vertex_format (VFormat f) = Some f"
| "as_vertex_format _ = None"

fun as_pixel_format :: "item \<Rightarrow> PixelFormat option" where
  "as_pixel_format (PFormat f) = Some f"
| "as_pixel_format _ = None"

fun as_shader_type :: "item \<Rightarrow> ShaderType option" where
  "as_shader_type (SType t) = Some t"
| "as_shader_type _ = None"

fun as_uniform_type :: "item \<Rightarrow> UniformType option" where
  "as_uniform_type (UType t) = Some t"
| "as_uniform_type _ = None"

fun as_pointer :: "item \<Rightarrow> pointer option" where
  "as_pointer (Pointer p) = Some p"
| "as_pointer _ = None"

text \<open>\<^verbatim>\<open>read(name, len)\<close>: the next \<open>len\<close> raw characters.\<close>

fun as_chars :: "nat \<Rightarrow> item \<Rightarrow> string option" where
  "as_chars len (Chars s) = (if length s = len then Some s else None)"
| "as_chars len _ = None"

section \<open>The Constant Stream\<close>

text \<open>
  Modelled from the spec: \<^verbatim>\<open>ConstantBuffer\<close> is not among the sources either. By sections 3
  and 4.3 of the spec it holds Constant Records (uniform type tag, uniform id, byte
  size, raw value bytes), and \<^verbatim>\<open>read()\<close> returns the next type tag or the END tag. The
  renderer header reads a record in four steps (tag, id, size, then \<open>size\<close> bytes), so the
  model keeps one entry for each.
\<close>

datatype constant_item =
    Tag UniformType
  | Uniform Id
  | Bytes "32 word"
  | Raw "8 word list"

record ConstantBuffer =
  m_constant_buffer :: "constant_item list"
  m_constant_read :: nat

definition ConstantBuffer_init :: ConstantBuffer where
  "ConstantBuffer_init = \<lparr>m_constant_buffer = [], m_constant_read = 0\<rparr>"

definition ConstantBuffer_write :: "constant_item \<Rightarrow> ConstantBuffer \<Rightarrow> ConstantBuffer" where
  "ConstantBuffer_write x cbuf = cbuf\<lparr>m_constant_buffer := m_constant_buffer cbuf @ [x]\<rparr>"

definition ConstantBuffer_clear :: "ConstantBuffer \<Rightarrow> ConstantBuffer" where
  "ConstantBuffer_clear cbuf = \<lparr>m_constant_buffer = [], m_constant_read = 0\<rparr>"

definition ConstantBuffer_read :: "ConstantBuffer \<Rightarrow> (constant_item \<times> ConstantBuffer) result" where
  "ConstantBuffer_read cbuf =
     (if m_constant_read cbuf < length (m_constant_buffer cbuf)
      then Inr (m_constant_buffer cbuf ! m_constant_read cbuf,
                cbuf\<lparr>m_constant_read := Suc (m_constant_read cbuf)\<rparr>)
      else Inl Read_past_end)"

definition ConstantBuffer_read_as ::
  "(constant_item \<Rightarrow> 'a option) \<Rightarrow> ConstantBuffer \<Rightarrow> ('a \<times> ConstantBuffer) result" where
  "ConstantBuffer_read_as p cbuf =
     and_then (ConstantBuffer_read cbuf) (\<lambda>(x, cbuf').
       case p x of None \<Rightarrow> Inl Type_mismatch | Some v \<Rightarrow> Inr (v, cbuf'))"

fun as_tag :: "constant_item \<Rightarrow> UniformType option" where
  "as_tag (Tag t) = Some t"
| "as_tag _ = None"

fun as_uniform :: "constant_item \<Rightarrow> Id option" where
  "as_uniform (Uniform x) = Some x"
| "as_uniform _ = None"

fun as_bytes :: "constant_item \<Rightarrow> 32 word option" where
  "as_bytes (Bytes n) = Some n"
| "as_bytes _ = None"

text \<open>\<^verbatim>\<open>read(size)\<close>: the next \<open>size\<close> raw bytes.\<close>

fun as_raw :: "32 word \<Rightarrow> constant_item \<Rightarrow> 8 word list option" where
  "as_raw sz (Raw bs) = (if length bs = unat sz then Some bs else None)"
| "as_raw sz _ = None"

section \<open>The Frame Context\<close>

text \<open>
  Modelled from the spec: \<^verbatim>\<open>RenderContext\<close> is declared in \<^verbatim>\<open>RenderContext.h\<close>, not among the
  sources. It owns one Command Stream, one Constant Stream and the accumulated draw
  state (section 3). The renderer header only forwards the draw-state calls, so the
  model keeps the draw state as the sequence of the calls forwarded to the context.
  A \<^verbatim>\<open>float\<close>, a \<^verbatim>\<open>Matrix4x4\<close> and a \<^verbatim>\<open>Color4\<close> are only passed on: a float is its 32 bits, a
  matrix and a colour are the bits of their elements.
\<close>

type_synonym float = "32 word"
type_synonym Matrix4x4 = "32 word list"
type_synonym Color4 = "32 word list"

datatype context_call =
    Context_set_state "64 word"
  | Context_set_pose Matrix4x4
  | Context_set_program Id
  | Context_set_vertex_buffer Id
  | Context_set_index_buffer Id "32 word" "32 word"
  | Context_set_uniform Id UniformType "8 word list" "8 word"
  | Context_set_texture "8 word" Id Id "32 word"
  | Context_set_layer_render_target "8 word" Id
  | Context_set_layer_clear "8 word" "8 word" Color4 float
  | Context_set_layer_view "8 word" Matrix4x4
  | Context_set_layer_projection "8 word" Matrix4x4
  | Context_set_layer_viewport "8 word" "16 word" "16 word" "16 word" "16 word"
  | Context_set_layer_scissor "8 word" "16 word" "16 word" "16 word" "16 word"
  | Context_commit "8 word"

record RenderContext =
  m_commands :: CommandBuffer
  m_constants :: ConstantBuffer
  m_state :: "context_call list"

definition RenderContext_init :: RenderContext where
  "RenderContext_init =
     \<lparr>m_commands = CommandBuffer_init, m_constants = ConstantBuffer_init, m_state = []\<rparr>"

text \<open>
  Modelled from the spec: \<^verbatim>\<open>push()\<close> appends the terminating END record (section 4.4; the
  comment at its call in \<^verbatim>\<open>swap_contexts\<close> says the same). The Constant Stream is
  terminated by an END type tag (section 3) and \<^verbatim>\<open>push()\<close> is the only operation that
  closes a context, so it closes both streams.
\<close>

definition push :: "RenderContext \<Rightarrow> RenderContext" where
  "push c = c\<lparr>m_commands := CommandBuffer_write (Command END) (m_commands c),
              m_constants := ConstantBuffer_write (Tag UniformType_END) (m_constants c)\<rparr>"

text \<open>
  Modelled from the spec: the context's draw-state setters record the call; by section
  4.4 \<^verbatim>\<open>set_uniform\<close> also appends a Constant Record, here the bytes the caller's value
  points to with their number as the size.
\<close>

definition context_set :: "context_call \<Rightarrow> RenderContext \<Rightarrow> RenderContext" where
  "context_set call c = c\<lparr>m_state := m_state c @ [call]\<rparr>"

definition context_set_uniform ::
  "Id \<Rightarrow> UniformType \<Rightarrow> 8 word list \<Rightarrow> 8 word \<Rightarrow> RenderContext \<Rightarrow> RenderContext" where
  "context_set_uniform x type val num c =
     context_set (Context_set_uniform x type val num)
       (c\<lparr>m_constants :=
            ConstantBuffer_write (Raw val)
              (ConstantBuffer_write (Bytes (of_nat (length val)))
                (ConstantBuffer_write (Uniform x)
                  (ConstantBuffer_write (Tag type) (m_constants c))))\<rparr>)"

section \<open>The renderer\<close>

text \<open>
  The calls the renderer makes to its collaborators, in the order it makes them, are the
  observable behaviour of the consumer side: the backend operations (\<^verbatim>\<open>*_impl\<close>, declared
  in the renderer header and implemented by the graphics binding) and the two
  semaphores. The model records them in the field \<open>trace\<close>; the exchange of the role
  pointers is recorded as well.
\<close>

datatype backend_call =
    init_impl
  | shutdown_impl
  | render_impl
  | create_vertex_buffer_impl Id nat VertexFormat pointer
  | create_dynamic_vertex_buffer_impl Id nat VertexFormat
  | update_vertex_buffer_impl Id nat nat pointer
  | destroy_vertex_buffer_impl Id
  | create_index_buffer_impl Id nat pointer
  | create_dynamic_index_buffer_impl Id nat
  | update_index_buffer_impl Id nat nat pointer
  | destroy_index_buffer_impl Id
  | create_texture_impl Id "32 word" "32 word" PixelFormat pointer
  | update_texture_impl Id "32 word" "32 word" "32 word" "32 word" pointer
  | destroy_texture_impl Id
  | create_shader_impl Id ShaderType pointer
  | destroy_shader_impl Id
  | create_gpu_program_impl Id Id Id
  | destroy_gpu_program_impl Id
  | create_uniform_impl Id string UniformType "8 word"
  | update_uniform_impl Id "32 word" "8 word list"
  | destroy_uniform_impl Id

datatype semaphore = Render_wait | Main_wait

datatype event =
    Wait semaphore
  | Post semaphore
  | Swap
  | Impl backend_call

text \<open>
  \<^verbatim>\<open>m_submit\<close> and \<^verbatim>\<open>m_draw\<close> point into the array \<^verbatim>\<open>m_contexts[2]\<close>; a pointer is the index of
  the element it points to. A semaphore is its count.
\<close>

datatype context_pointer = Context0 | Context1

record Renderer =
  m_contexts :: "RenderContext \<times> RenderContext"
  m_submit :: context_pointer
  m_draw :: context_pointer
  m_vertex_buffers :: IdTable
  m_index_buffers :: IdTable
  m_textures :: IdTable
  m_shaders :: IdTable
  m_gpu_programs :: IdTable
  m_uniforms :: IdTable
  m_render_targets :: IdTable
  m_is_initialized :: bool
  m_should_run :: bool
  m_render_wait :: nat
  m_main_wait :: nat
  trace :: "event list"

definition deref :: "Renderer \<Rightarrow> context_pointer \<Rightarrow> RenderContext" where
  "deref r p = (case p of Context0 \<Rightarrow> fst (m_contexts r) | Context1 \<Rightarrow> snd (m_contexts r))"

definition assign :: "context_pointer \<Rightarrow> RenderContext \<Rightarrow> Renderer \<Rightarrow> Renderer" where
  "assign p c r =
     (case p of
        Context0 \<Rightarrow> r\<lparr>m_contexts := (c, snd (m_contexts r))\<rparr>
      | Context1 \<Rightarrow> r\<lparr>m_contexts := (fst (m_contexts r), c)\<rparr>)"

text \<open>
  Modelled from the spec: the constructor \<^verbatim>\<open>Renderer(Allocator&)\<close> is only declared in the
  sources. Two fixed Frame Contexts exist from the start, one in each role (section
  4.6); the tables are empty, the renderer is neither initialized nor running, and both
  semaphores start at zero.
\<close>

definition Renderer_init :: "Config \<Rightarrow> Renderer" where
  "Renderer_init cfg =
     \<lparr>m_contexts = (RenderContext_init, RenderContext_init),
      m_submit = Context0,
      m_draw = Context1,
      m_vertex_buffers = IdTable_init (CROWN_MAX_VERTEX_BUFFERS cfg),
      m_index_buffers = IdTable_init (CROWN_MAX_INDEX_BUFFERS cfg),
      m_textures = IdTable_init (CROWN_MAX_TEXTURES cfg),
      m_shaders = IdTable_init (CROWN_MAX_SHADERS cfg),
      m_gpu_programs = IdTable_init (CROWN_MAX_GPU_PROGRAMS cfg),
      m_uniforms = IdTable_init (CROWN_MAX_UNIFORMS cfg),
      m_render_targets = IdTable_init (CROWN_MAX_RENDER_TARGETS cfg),
      m_is_initialized = False,
      m_should_run = False,
      m_render_wait = 0,
      m_main_wait = 0,
      trace = []\<rparr>"

text \<open>\<^verbatim>\<open>m_submit->m_commands.write(x)\<close>, and a run of such writes in the order given.\<close>

definition submit_write :: "item \<Rightarrow> Renderer \<Rightarrow> Renderer" where
  "submit_write x r =
     assign (m_submit r)
       ((deref r (m_submit r))\<lparr>m_commands := CommandBuffer_write x (m_commands (deref r (m_submit r)))\<rparr>) r"

definition submit_writes :: "item list \<Rightarrow> Renderer \<Rightarrow> Renderer" where
  "submit_writes xs r = fold submit_write xs r"

text \<open>\<^verbatim>\<open>m_submit->f(...)\<close> for a method \<open>f\<close> of the context.\<close>

definition submit_apply :: "(RenderContext \<Rightarrow> RenderContext) \<Rightarrow> Renderer \<Rightarrow> Renderer" where
  "submit_apply f r = assign (m_submit r) (f (deref r (m_submit r))) r"

section \<open>The producer-facing API\<close>

text \<open>
  Every function of the producer side returns its result together with the renderer as
  it stands when the function returns or is halted by a failed check.
\<close>

definition create_vertex_buffer ::
  "nat \<Rightarrow> VertexFormat \<Rightarrow> pointer \<Rightarrow> Renderer \<Rightarrow> Id result \<times> Renderer" where
  "create_vertex_buffer count format vertices r =
     (case IdTable_create (m_vertex_buffers r) of
        None \<Rightarrow> (Inl Capacity_exhausted, r)
      | Some (x, t) \<Rightarrow>
          (Inr x,
           submit_writes
             [Command CREATE_VERTEX_BUFFER, Handle x, Size count, VFormat format, Pointer vertices]
             (r\<lparr>m_vertex_buffers := t\<rparr>)))"

definition create_dynamic_vertex_buffer ::
  "nat \<Rightarrow> VertexFormat \<Rightarrow> Renderer \<Rightarrow> Id result \<times> Renderer" where
  "create_dynamic_vertex_buffer count format r =
     (case IdTable_create (m_vertex_buffers r) of
        None \<Rightarrow> (Inl Capacity_exhausted, r)
      | Some (x, t) \<Rightarrow>
          (Inr x,
           submit_writes
             [Command CREATE_DYNAMIC_VERTEX_BUFFER, Handle x, Size count, VFormat format]
             (r\<lparr>m_vertex_buffers := t\<rparr>)))"

definition update_vertex_buffer ::
  "Id \<Rightarrow> nat \<Rightarrow> nat \<Rightarrow> pointer \<Rightarrow> Renderer \<Rightarrow> unit result \<times> Renderer" where
  "update_vertex_buffer x offset count vertices r =
     (if \<not> IdTable_has (m_vertex_buffers r) x then (Inl Vertex_buffer_does_not_exist, r)
      else
        (Inr (),
         submit_writes
           [Command UPDATE_VERTEX_BUFFER, Handle x, Size offset, Size count, Pointer vertices] r))"

definition destroy_vertex_buffer :: "Id \<Rightarrow> Renderer \<Rightarrow> unit result \<times> Renderer" where
  "destroy_vertex_buffer x r =
     (if \<not> IdTable_has (m_vertex_buffers r) x then (Inl Vertex_buffer_does_not_exist, r)
      else (Inr (), submit_writes [Command DESTROY_VERTEX_BUFFER, Handle x] r))"

definition create_index_buffer :: "nat \<Rightarrow> pointer \<Rightarrow> Renderer \<Rightarrow> Id result \<times> Renderer" where
  "create_index_buffer count indices r =
     (case IdTable_create (m_index_buffers r) of
        None \<Rightarrow> (Inl Capacity_exhausted, r)
      | Some (x, t) \<Rightarrow>
          (Inr x,
           submit_writes [Command CREATE_INDEX_BUFFER, Handle x, Size count, Pointer indices]
             (r\<lparr>m_index_buffers := t\<rparr>)))"

definition create_dynamic_index_buffer :: "nat \<Rightarrow> Renderer \<Rightarrow> Id result \<times> Renderer" where
  "create_dynamic_index_buffer count r =
     (case IdTable_create (m_index_buffers r) of
        None \<Rightarrow> (Inl Capacity_exhausted, r)
      | Some (x, t) \<Rightarrow>
          (Inr x,
           submit_writes [Command CREATE_DYNAMIC_INDEX_BUFFER, Handle x, Size count]
             (r\<lparr>m_index_buffers := t\<rparr>)))"

definition update_index_buffer ::
  "Id \<Rightarrow> nat \<Rightarrow> nat \<Rightarrow> pointer \<Rightarrow> Renderer \<Rightarrow> unit result \<times> Renderer" where
  "update_index_buffer x offset count indices r =
     (if \<not> IdTable_has (m_index_buffers r) x then (Inl Index_buffer_does_not_exist, r)
      else
        (Inr (),
         submit_writes
           [Command UPDATE_INDEX_BUFFER, Handle x, Size offset, Size count, Pointer indices] r))"

definition destroy_index_buffer :: "Id \<Rightarrow> Renderer \<Rightarrow> unit result \<times> Renderer" where
  "destroy_index_buffer x r =
     (if \<not> IdTable_has (m_index_buffers r) x then (Inl Index_buffer_does_not_exist, r)
      else (Inr (), submit_writes [Command DESTROY_INDEX_BUFFER, Handle x] r))"

definition create_texture ::
  "32 word \<Rightarrow> 32 word \<Rightarrow> PixelFormat \<Rightarrow> pointer \<Rightarrow> Renderer \<Rightarrow> Id result \<times> Renderer" where
  "create_texture width height format data r =
     (case IdTable_create (m_textures r) of
        None \<Rightarrow> (Inl Capacity_exhausted, r)
      | Some (x, t) \<Rightarrow>
          (Inr x,
           submit_writes
             [Command CREATE_TEXTURE, Handle x, U32 width, U32 height, PFormat format, Pointer data]
             (r\<lparr>m_textures := t\<rparr>)))"

definition update_texture ::
  "Id \<Rightarrow> 32 word \<Rightarrow> 32 word \<Rightarrow> 32 word \<Rightarrow> 32 word \<Rightarrow> pointer \<Rightarrow> Renderer
    \<Rightarrow> unit result \<times> Renderer" where
  "update_texture x px py width height data r =
     (if \<not> IdTable_has (m_textures r) x then (Inl Texture_does_not_exist, r)
      else
        (Inr (),
         submit_writes
           [Command UPDATE_TEXTURE, Handle x, U32 px, U32 py, U32 width, U32 height, Pointer data]
           r))"

definition destroy_texture :: "Id \<Rightarrow> Renderer \<Rightarrow> unit result \<times> Renderer" where
  "destroy_texture x r =
     (if \<not> IdTable_has (m_textures r) x then (Inl Texture_does_not_exist, r)
      else (Inr (), submit_writes [Command DESTROY_TEXTURE, Handle x] r))"

definition create_shader :: "ShaderType \<Rightarrow> pointer \<Rightarrow> Renderer \<Rightarrow> Id result \<times> Renderer" where
  "create_shader type text r =
     (case IdTable_create (m_shaders r) of
        None \<Rightarrow> (Inl Capacity_exhausted, r)
      | Some (x, t) \<Rightarrow>
          (Inr x,
           submit_writes [Command CREATE_SHADER, Handle x, SType type, Pointer text]
             (r\<lparr>m_shaders := t\<rparr>)))"

definition destroy_shader :: "Id \<Rightarrow> Renderer \<Rightarrow> unit result \<times> Renderer" where
  "destroy_shader x r =
     (if \<not> IdTable_has (m_shaders r) x then (Inl Shader_does_not_exist, r)
      else (Inr (), submit_writes [Command DESTROY_SHADER, Handle x] r))"

definition create_gpu_program :: "Id \<Rightarrow> Id \<Rightarrow> Renderer \<Rightarrow> Id result \<times> Renderer" where
  "create_gpu_program vertex pixel r =
     (case IdTable_create (m_gpu_programs r) of
        None \<Rightarrow> (Inl Capacity_exhausted, r)
      | Some (x, t) \<Rightarrow>
          (Inr x,
           submit_writes [Command CREATE_GPU_PROGRAM, Handle x, Handle vertex, Handle pixel]
             (r\<lparr>m_gpu_programs := t\<rparr>)))"

definition destroy_gpu_program :: "Id \<Rightarrow> Renderer \<Rightarrow> unit result \<times> Renderer" where
  "destroy_gpu_program x r =
     (if \<not> IdTable_has (m_gpu_programs r) x then (Inl GPU_program_does_not_exist, r)
      else (Inr (), submit_writes [Command DESTROY_GPU_PROGRAM, Handle x] r))"

text \<open>
  \<^verbatim>\<open>create_uniform\<close>: the stock-name check, then \<^verbatim>\<open>m_uniforms.create()\<close>, then the length
  check (strict: \<^verbatim>\<open>len < CROWN_MAX_UNIFORM_NAME_LENGTH\<close>), then the writes.
  \<^verbatim>\<open>write(name, len)\<close> copies the \<open>len\<close> characters of the name into the stream.
\<close>

definition create_uniform ::
  "Config \<Rightarrow> string \<Rightarrow> UniformType \<Rightarrow> 8 word \<Rightarrow> Renderer \<Rightarrow> Id result \<times> Renderer" where
  "create_uniform cfg name type num r =
     (if \<not> name_to_stock_uniform cfg name = COUNT then (Inl Uniform_name_is_a_stock_uniform, r)
      else
        (case IdTable_create (m_uniforms r) of
           None \<Rightarrow> (Inl Capacity_exhausted, r)
         | Some (x, t) \<Rightarrow>
             (let r1 = r\<lparr>m_uniforms := t\<rparr>;
                  len = strlen name
              in if \<not> len < CROWN_MAX_UNIFORM_NAME_LENGTH cfg
                 then (Inl Max_uniform_name_length, r1)
                 else
                   (Inr x,
                    submit_writes
                      [Command CREATE_UNIFORM, Handle x, Size len, Chars (take len name),
                       UType type, U8 num]
                      r1))))"

definition destroy_uniform :: "Id \<Rightarrow> Renderer \<Rightarrow> unit result \<times> Renderer" where
  "destroy_uniform x r =
     (if \<not> IdTable_has (m_uniforms r) x then (Inl Uniform_does_not_exist, r)
      else (Inr (), submit_writes [Command DESTROY_UNIFORM, Handle x] r))"

text \<open>
  The draw-state calls. A \<^verbatim>\<open>const void* value\<close> is \<open>None\<close> when it is null and otherwise the
  bytes it points to.
\<close>

definition set_state :: "64 word \<Rightarrow> Renderer \<Rightarrow> unit result \<times> Renderer" where
  "set_state flags r = (Inr (), submit_apply (context_set (Context_set_state flags)) r)"

definition set_pose :: "Matrix4x4 \<Rightarrow> Renderer \<Rightarrow> unit result \<times> Renderer" where
  "set_pose pose r = (Inr (), submit_apply (context_set (Context_set_pose pose)) r)"

definition set_program :: "Id \<Rightarrow> Renderer \<Rightarrow> unit result \<times> Renderer" where
  "set_program x r =
     (if \<not> IdTable_has (m_gpu_programs r) x then (Inl GPU_program_does_not_exist, r)
      else (Inr (), submit_apply (context_set (Context_set_program x)) r))"

definition set_vertex_buffer :: "Id \<Rightarrow> Renderer \<Rightarrow> unit result \<times> Renderer" where
  "set_vertex_buffer x r =
     (if \<not> IdTable_has (m_vertex_buffers r) x then (Inl Vertex_buffer_does_not_exist, r)
      else (Inr (), submit_apply (context_set (Context_set_vertex_buffer x)) r))"

definition set_index_buffer ::
  "Id \<Rightarrow> 32 word \<Rightarrow> 32 word \<Rightarrow> Renderer \<Rightarrow> unit result \<times> Renderer" where
  "set_index_buffer x start_index num_indices r =
     (if \<not> IdTable_has (m_index_buffers r) x then (Inl Index_buffer_does_not_exist, r)
      else (Inr (), submit_apply (context_set (Context_set_index_buffer x start_index num_indices)) r))"

definition set_uniform ::
  "Id \<Rightarrow> UniformType \<Rightarrow> 8 word list option \<Rightarrow> 8 word \<Rightarrow> Renderer \<Rightarrow> unit result \<times> Renderer" where
  "set_uniform x type val num r =
     (if \<not> IdTable_has (m_uniforms r) x then (Inl Uniform_does_not_exist, r)
      else
        (case val of
           None \<Rightarrow> (Inl Value_is_null, r)
         | Some bs \<Rightarrow> (Inr (), submit_apply (context_set_uniform x type bs num) r)))"

definition set_texture ::
  "8 word \<Rightarrow> Id \<Rightarrow> Id \<Rightarrow> 32 word \<Rightarrow> Renderer \<Rightarrow> unit result \<times> Renderer" where
  "set_texture unit sampler_uniform texture flags r =
     (if \<not> IdTable_has (m_uniforms r) sampler_uniform then (Inl Uniform_does_not_exist, r)
      else if \<not> IdTable_has (m_textures r) texture then (Inl Texture_does_not_exist, r)
      else (Inr (), submit_apply (context_set (Context_set_texture unit sampler_uniform texture flags)) r))"

definition set_layer_render_target :: "8 word \<Rightarrow> Id \<Rightarrow> Renderer \<Rightarrow> unit result \<times> Renderer" where
  "set_layer_render_target layer x r =
     (if \<not> IdTable_has (m_render_targets r) x then (Inl Render_target_does_not_exist, r)
      else (Inr (), submit_apply (context_set (Context_set_layer_render_target layer x)) r))"

definition set_layer_clear ::
  "8 word \<Rightarrow> 8 word \<Rightarrow> Color4 \<Rightarrow> float \<Rightarrow> Renderer \<Rightarrow> unit result \<times> Renderer" where
  "set_layer_clear layer flags color depth r =
     (Inr (), submit_apply (context_set (Context_set_layer_clear layer flags color depth)) r)"

definition set_layer_view :: "8 word \<Rightarrow> Matrix4x4 \<Rightarrow> Renderer \<Rightarrow> unit result \<times> Renderer" where
  "set_layer_view layer view r =
     (Inr (), submit_apply (context_set (Context_set_layer_view layer view)) r)"

definition set_layer_projection ::
  "8 word \<Rightarrow> Matrix4x4 \<Rightarrow> Renderer \<Rightarrow> unit result \<times> Renderer" where
  "set_layer_projection layer projection r =
     (Inr (), submit_apply (context_set (Context_set_layer_projection layer projection)) r)"

definition set_layer_viewport ::
  "8 word \<Rightarrow> 16 word \<Rightarrow> 16 word \<Rightarrow> 16 word \<Rightarrow> 16 word \<Rightarrow> Renderer \<Rightarrow> unit result \<times> Renderer" where
  "set_layer_viewport layer x y width height r =
     (Inr (), submit_apply (context_set (Context_set_layer_viewport layer x y width height)) r)"

definition set_layer_scissor ::
  "8 word \<Rightarrow> 16 word \<Rightarrow> 16 word \<Rightarrow> 16 word \<Rightarrow> 16 word \<Rightarrow> Renderer \<Rightarrow> unit result \<times> Renderer" where
  "set_layer_scissor layer x y width height r =
     (Inr (), submit_apply (context_set (Context_set_layer_scissor layer x y width height)) r)"

definition commit :: "8 word \<Rightarrow> Renderer \<Rightarrow> unit result \<times> Renderer" where
  "commit layer r = (Inr (), submit_apply (context_set (Context_commit layer)) r)"

text \<open>
  The submissions of \<^verbatim>\<open>init()\<close> and \<^verbatim>\<open>shutdown()\<close>: what each does before it calls \<^verbatim>\<open>frame()\<close>.
  Starting and stopping the thread are steps of the scheduler below.
\<close>

definition init_submit :: "Renderer \<Rightarrow> unit result \<times> Renderer" where
  "init_submit r = (Inr (), submit_write (Command INIT_RENDERER) (r\<lparr>m_should_run := True\<rparr>))"

definition shutdown_submit :: "Renderer \<Rightarrow> unit result \<times> Renderer" where
  "shutdown_submit r =
     (if m_should_run r then (Inr (), submit_write (Command SHUTDOWN_RENDERER) r)
      else (Inr (), r))"

text \<open>
  A producer call as a value, so that a program of the producer is a list of calls;
  \<open>submit\<close> runs one call, \<open>submit_all\<close> a list of them up to the first fault, returning the
  ids the calls returned.
\<close>

datatype api_call =
    Init
  | Shutdown
  | Create_vertex_buffer nat VertexFormat pointer
  | Create_dynamic_vertex_buffer nat VertexFormat
  | Update_vertex_buffer Id nat nat pointer
  | Destroy_vertex_buffer Id
  | Create_index_buffer nat pointer
  | Create_dynamic_index_buffer nat
  | Update_index_buffer Id nat nat pointer
  | Destroy_index_buffer Id
  | Create_texture "32 word" "32 word" PixelFormat pointer
  | Update_texture Id "32 word" "32 word" "32 word" "32 word" pointer
  | Destroy_texture Id
  | Create_shader ShaderType pointer
  | Destroy_shader Id
  | Create_gpu_program Id Id
  | Destroy_gpu_program Id
  | Create_uniform string UniformType "8 word"
  | Destroy_uniform Id
  | Set_state "64 word"
  | Set_pose Matrix4x4
  | Set_program Id
  | Set_vertex_buffer Id
  | Set_index_buffer Id "32 word" "32 word"
  | Set_uniform Id UniformType "8 word list option" "8 word"
  | Set_texture "8 word" Id Id "32 word"
  | Set_layer_render_target "8 word" Id
  | Set_layer_clear "8 word" "8 word" Color4 float
  | Set_layer_view "8 word" Matrix4x4
  | Set_layer_projection "8 word" Matrix4x4
  | Set_layer_viewport "8 word" "16 word" "16 word" "16 word" "16 word"
  | Set_layer_scissor "8 word" "16 word" "16 word" "16 word" "16 word"
  | Commit "8 word"

definition returning :: "('a \<Rightarrow> 'b) \<Rightarrow> 'a result \<times> Renderer \<Rightarrow> 'b result \<times> Renderer" where
  "returning f p = (case fst p of Inl e \<Rightarrow> Inl e | Inr v \<Rightarrow> Inr (f v), snd p)"

fun submit :: "Config \<Rightarrow> api_call \<Rightarrow> Renderer \<Rightarrow> Id option result \<times> Renderer" where
  "submit cfg Init r = returning (\<lambda>u. None) (init_submit r)"
| "submit cfg Shutdown r = returning (\<lambda>u. None) (shutdown_submit r)"
| "submit cfg (Create_vertex_buffer count format vertices) r =
     returning Some (create_vertex_buffer count format vertices r)"
| "submit cfg (Create_dynamic_vertex_buffer count format) r =
     returning Some (create_dynamic_vertex_buffer count format r)"
| "submit cfg (Update_vertex_buffer x offset count vertices) r =
     returning (\<lambda>u. None) (update_vertex_buffer x offset count vertices r)"
| "submit cfg (Destroy_vertex_buffer x) r = returning (\<lambda>u. None) (destroy_vertex_buffer x r)"
| "submit cfg (Create_index_buffer count indices) r =
     returning Some (create_index_buffer count indices r)"
| "submit cfg (Create_dynamic_index_buffer count) r =
     returning Some (create_dynamic_index_buffer count r)"
| "submit cfg (Update_index_buffer x offset count indices) r =
     returning (\<lambda>u. None) (update_index_buffer x offset count indices r)"
| "submit cfg (Destroy_index_buffer x) r = returning (\<lambda>u. None) (destroy_index_buffer x r)"
| "submit cfg (Create_texture width height format data) r =
     returning Some (create_texture width height format data r)"
| "submit cfg (Update_texture x px py width height data) r =
     returning (\<lambda>u. None) (update_texture x px py width height data r)"
| "submit cfg (Destroy_texture x) r = returning (\<lambda>u. None) (destroy_texture x r)"
| "submit cfg (Create_shader type text) r = returning Some (create_shader type text r)"
| "submit cfg (Destroy_shader x) r = returning (\<lambda>u. None) (destroy_shader x r)"
| "submit cfg (Create_gpu_program vertex pixel) r =
     returning Some (create_gpu_program vertex pixel r)"
| "submit cfg (Destroy_gpu_program x) r = returning (\<lambda>u. None) (destroy_gpu_program x r)"
| "submit cfg (Create_uniform name type num) r =
     returning Some (create_uniform cfg name type num r)"
| "submit cfg (Destroy_uniform x) r = returning (\<lambda>u. None) (destroy_uniform x r)"
| "submit cfg (Set_state flags) r = returning (\<lambda>u. None) (set_state flags r)"
| "submit cfg (Set_pose pose) r = returning (\<lambda>u. None) (set_pose pose r)"
| "submit cfg (Set_program x) r = returning (\<lambda>u. None) (set_program x r)"
| "submit cfg (Set_vertex_buffer x) r = returning (\<lambda>u. None) (set_vertex_buffer x r)"
| "submit cfg (Set_index_buffer x start_index num_indices) r =
     returning (\<lambda>u. None) (set_index_buffer x start_index num_indices r)"
| "submit cfg (Set_uniform x type val num) r =
     returning (\<lambda>u. None) (set_uniform x type val num r)"
| "submit cfg (Set_texture unit sampler_uniform texture flags) r =
     returning (\<lambda>u. None) (set_texture unit sampler_uniform texture flags r)"
| "submit cfg (Set_layer_render_target layer x) r =
     returning (\<lambda>u. None) (set_layer_render_target layer x r)"
| "submit cfg (Set_layer_clear layer flags color depth) r =
     returning (\<lambda>u. None) (set_layer_clear layer flags color depth r)"
| "submit cfg (Set_layer_view layer view) r = returning (\<lambda>u. None) (set_layer_view layer view r)"
| "submit cfg (Set_layer_projection layer projection) r =
     returning (\<lambda>u. None) (set_layer_projection layer projection r)"
| "submit cfg (Set_layer_viewport layer x y width height) r =
     returning (\<lambda>u. None) (set_layer_viewport layer x y width height r)"
| "submit cfg (Set_layer_scissor layer x y width height) r =
     returning (\<lambda>u. None) (set_layer_scissor layer x y width height r)"
| "submit cfg (Commit layer) r = returning (\<lambda>u. None) (commit layer r)"

fun submit_all ::
  "Config \<Rightarrow> api_call list \<Rightarrow> Renderer \<Rightarrow> Id option list result \<times> Renderer" where
  "submit_all cfg [] r = (Inr [], r)"
| "submit_all cfg (c # cs) r =
     (case submit cfg c r of
        (Inl e, r') \<Rightarrow> (Inl e, r')
      | (Inr v, r') \<Rightarrow>
          (case submit_all cfg cs r' of
             (Inl e, r'') \<Rightarrow> (Inl e, r'')
           | (Inr vs, r'') \<Rightarrow> (Inr (v # vs), r'')))"


section \<open>The Command Dispatcher\<close>

text \<open>A call of a backend operation: the model records it.\<close>

definition impl :: "backend_call \<Rightarrow> Renderer \<Rightarrow> Renderer" where
  "impl call r = r\<lparr>trace := trace r @ [Impl call]\<rparr>"

text \<open>
  One case of the \<^verbatim>\<open>switch\<close> of \<^verbatim>\<open>execute_commands\<close>: the operands are read in the order of
  the source, then the backend operation is called. The result holds the value of the
  flag \<^verbatim>\<open>end\<close>, the stream and the renderer. In the case \<^verbatim>\<open>CREATE_UNIFORM\<close> the name is read
  into a local array of \<^verbatim>\<open>CROWN_MAX_UNIFORM_NAME_LENGTH\<close> characters and terminated at index
  \<open>len\<close>, which is inside the array only when \<open>len\<close> is below that bound.
\<close>

fun dispatch ::
  "Config \<Rightarrow> CommandType \<Rightarrow> CommandBuffer \<Rightarrow> Renderer
    \<Rightarrow> (bool \<times> CommandBuffer \<times> Renderer) result" where
  "dispatch cfg INIT_RENDERER cmds r =
     Inr (False, cmds, (impl init_impl r)\<lparr>m_is_initialized := True\<rparr>)"
| "dispatch cfg SHUTDOWN_RENDERER cmds r =
     Inr (False, cmds, (impl shutdown_impl r)\<lparr>m_is_initialized := False, m_should_run := False\<rparr>)"
| "dispatch cfg CREATE_VERTEX_BUFFER cmds r =
     and_then (read_as as_id cmds) (\<lambda>(x, cmds).
     and_then (read_as as_size cmds) (\<lambda>(count, cmds).
     and_then (read_as as_vertex_format cmds) (\<lambda>(format, cmds).
     and_then (read_as as_pointer cmds) (\<lambda>(vertices, cmds).
       Inr (False, cmds, impl (create_vertex_buffer_impl x count format vertices) r)))))"
| "dispatch cfg CREATE_DYNAMIC_VERTEX_BUFFER cmds r =
     and_then (read_as as_id cmds) (\<lambda>(x, cmds).
     and_then (read_as as_size cmds) (\<lambda>(count, cmds).
     and_then (read_as as_vertex_format cmds) (\<lambda>(format, cmds).
       Inr (False, cmds, impl (create_dynamic_vertex_buffer_impl x count format) r))))"
| "dispatch cfg UPDATE_VERTEX_BUFFER cmds r =
     and_then (read_as as_id cmds) (\<lambda>(x, cmds).
     and_then (read_as as_size cmds) (\<lambda>(offset, cmds).
     and_then (read_as as_size cmds) (\<lambda>(count, cmds).
     and_then (read_as as_pointer cmds) (\<lambda>(vertices, cmds).
       Inr (False, cmds, impl (update_vertex_buffer_impl x offset count vertices) r)))))"
| "dispatch cfg DESTROY_VERTEX_BUFFER cmds r =
     and_then (read_as as_id cmds) (\<lambda>(x, cmds).
       Inr (False, cmds, impl (destroy_vertex_buffer_impl x) r))"
| "dispatch cfg CREATE_INDEX_BUFFER cmds r =
     and_then (read_as as_id cmds) (\<lambda>(x, cmds).
     and_then (read_as as_size cmds) (\<lambda>(count, cmds).
     and_then (read_as as_pointer cmds) (\<lambda>(indices, cmds).
       Inr (False, cmds, impl (create_index_buffer_impl x count indices) r))))"
| "dispatch cfg CREATE_DYNAMIC_INDEX_BUFFER cmds r =
     and_then (read_as as_id cmds) (\<lambda>(x, cmds).
     and_then (read_as as_size cmds) (\<lambda>(count, cmds).
       Inr (False, cmds, impl (create_dynamic_index_buffer_impl x count) r)))"
| "dispatch cfg UPDATE_INDEX_BUFFER cmds r =
     and_then (read_as as_id cmds) (\<lambda>(x, cmds).
     and_then (read_as as_size cmds) (\<lambda>(offset, cmds).
     and_then (read_as as_size cmds) (\<lambda>(count, cmds).
     and_then (read_as as_pointer cmds) (\<lambda>(indices, cmds).
       Inr (False, cmds, impl (update_index_buffer_impl x offset count indices) r)))))"
| "dispatch cfg DESTROY_INDEX_BUFFER cmds r =
     and_then (read_as as_id cmds) (\<lambda>(x, cmds).
       Inr (False, cmds, impl (destroy_index_buffer_impl x) r))"
| "dispatch cfg CREATE_TEXTURE cmds r =
     and_then (read_as as_id cmds) (\<lambda>(x, cmds).
     and_then (read_as as_u32 cmds) (\<lambda>(width, cmds).
     and_then (read_as as_u32 cmds) (\<lambda>(height, cmds).
     and_then (read_as as_pixel_format cmds) (\<lambda>(format, cmds).
     and_then (read_as as_pointer cmds) (\<lambda>(data, cmds).
       Inr (False, cmds, impl (create_texture_impl x width height format data) r))))))"
| "dispatch cfg UPDATE_TEXTURE cmds r =
     and_then (read_as as_id cmds) (\<lambda>(x, cmds).
     and_then (read_as as_u32 cmds) (\<lambda>(px, cmds).
     and_then (read_as as_u32 cmds) (\<lambda>(py, cmds).
     and_then (read_as as_u32 cmds) (\<lambda>(width, cmds).
     and_then (read_as as_u32 cmds) (\<lambda>(height, cmds).
     and_then (read_as as_pointer cmds) (\<lambda>(data, cmds).
       Inr (False, cmds, impl (update_texture_impl x px py width height data) r)))))))"
| "dispatch cfg DESTROY_TEXTURE cmds r =
     and_then (read_as as_id cmds) (\<lambda>(x, cmds).
       Inr (False, cmds, impl (destroy_texture_impl x) r))"
| "dispatch cfg CREATE_SHADER cmds r =
     and_then (read_as as_id cmds) (\<lambda>(x, cmds).
     and_then (read_as as_shader_type cmds) (\<lambda>(type, cmds).
     and_then (read_as as_pointer cmds) (\<lambda>(text, cmds).
       Inr (False, cmds, impl (create_shader_impl x type text) r))))"
| "dispatch cfg DESTROY_SHADER cmds r =
     and_then (read_as as_id cmds) (\<lambda>(x, cmds).
       Inr (False, cmds, impl (destroy_shader_impl x) r))"
| "dispatch cfg CREATE_GPU_PROGRAM cmds r =
     and_then (read_as as_id cmds) (\<lambda>(x, cmds).
     and_then (read_as as_id cmds) (\<lambda>(vertex, cmds).
     and_then (read_as as_id cmds) (\<lambda>(pixel, cmds).
       Inr (False, cmds, impl (create_gpu_program_impl x vertex pixel) r))))"
| "dispatch cfg DESTROY_GPU_PROGRAM cmds r =
     and_then (read_as as_id cmds) (\<lambda>(x, cmds).
       Inr (False, cmds, impl (destroy_gpu_program_impl x) r))"
| "dispatch cfg CREATE_UNIFORM cmds r =
     and_then (read_as as_id cmds) (\<lambda>(x, cmds).
     and_then (read_as as_size cmds) (\<lambda>(len, cmds).
       if \<not> len < CROWN_MAX_UNIFORM_NAME_LENGTH cfg then Inl Name_array_overflow
       else
     and_then (read_as (as_chars len) cmds) (\<lambda>(name, cmds).
     and_then (read_as as_uniform_type cmds) (\<lambda>(type, cmds).
     and_then (read_as as_u8 cmds) (\<lambda>(num, cmds).
       Inr (False, cmds, impl (create_uniform_impl x (c_str name) type num) r))))))"
| "dispatch cfg DESTROY_UNIFORM cmds r =
     and_then (read_as as_id cmds) (\<lambda>(x, cmds).
       Inr (False, cmds, impl (destroy_uniform_impl x) r))"
| "dispatch cfg END cmds r = Inr (True, cmds, r)"
| "dispatch cfg (OTHER_COMMAND n) cmds r = Inl Oops_unknown_command"

text \<open>What is left to read of a stream: the measure of the two decoding loops.\<close>

definition unread :: "CommandBuffer \<Rightarrow> nat" where
  "unread cmds = length (m_buffer cmds) - m_read cmds"

lemma read_as_unread:
  "read_as p cmds = Inr (v, cmds') \<Longrightarrow> unread cmds' < unread cmds"
  by (auto simp: read_as_def CommandBuffer_read_def and_then_def unread_def split: if_splits option.splits)

lemma and_then_Inr:
  "and_then m f = Inr y \<Longrightarrow> \<exists>x. m = Inr x \<and> f x = Inr y"
  by (cases m) (simp_all add: and_then_def)

lemma dispatch_unread:
  "dispatch cfg command cmds r = Inr (fin, cmds', r') \<Longrightarrow> unread cmds' \<le> unread cmds"
  by (cases command)
    (auto dest!: and_then_Inr read_as_unread split: if_splits)

text \<open>
  The loop of \<^verbatim>\<open>execute_commands\<close>: read one opcode, run its case, and repeat until the
  flag \<^verbatim>\<open>end\<close> is set. Every round reads at least the opcode, so the loop terminates.
\<close>

function execute_commands_loop ::
  "Config \<Rightarrow> CommandBuffer \<Rightarrow> Renderer \<Rightarrow> (CommandBuffer \<times> Renderer) result" where
  "execute_commands_loop cfg cmds r =
     (case read_as as_command cmds of
        Inl e \<Rightarrow> Inl e
      | Inr (command, cmds1) \<Rightarrow>
          (case dispatch cfg command cmds1 r of
             Inl e \<Rightarrow> Inl e
           | Inr (fin, cmds2, r2) \<Rightarrow>
               if fin then Inr (cmds2, r2) else execute_commands_loop cfg cmds2 r2))"
  by pat_completeness auto
termination
proof (relation "measure (\<lambda>(cfg, cmds, r). unread cmds)")
  show "wf (measure (\<lambda>(cfg, cmds, r). unread cmds))"
    by simp
next
  fix cfg :: Config and cmds cmds1 cmds2 :: CommandBuffer and r r2 :: Renderer
    and x command y fin z
  assume "read_as as_command cmds = Inr x" "(command, cmds1) = x"
    "dispatch cfg command cmds1 r = Inr y" "(fin, z) = y" "(cmds2, r2) = z" "\<not> fin"
  then have "unread cmds1 < unread cmds" "unread cmds2 \<le> unread cmds1"
    using read_as_unread [of as_command cmds command cmds1]
      dispatch_unread [of cfg command cmds1 r fin cmds2 r2]
    by auto
  then show "((cfg, cmds2, r2), (cfg, cmds, r)) \<in> measure (\<lambda>(cfg, cmds, r). unread cmds)"
    by simp
qed

declare execute_commands_loop.simps [simp del]

definition execute_commands ::
  "Config \<Rightarrow> CommandBuffer \<Rightarrow> Renderer \<Rightarrow> (CommandBuffer \<times> Renderer) result" where
  "execute_commands cfg cmds r =
     (case execute_commands_loop cfg cmds r of
        Inl e \<Rightarrow> Inl e
      | Inr (cmds', r') \<Rightarrow> Inr (CommandBuffer_clear cmds', r'))"

text \<open>
  \<^verbatim>\<open>update_uniforms\<close>: the body of its loop reads the id, the size and the bytes of one
  Constant Record and applies it; the loop reads a type tag and runs the body until the
  tag is \<^verbatim>\<open>UniformType::END\<close>.
\<close>

definition update_uniform_record ::
  "ConstantBuffer \<Rightarrow> Renderer \<Rightarrow> (ConstantBuffer \<times> Renderer) result" where
  "update_uniform_record cbuf r =
     and_then (ConstantBuffer_read_as as_uniform cbuf) (\<lambda>(x, cbuf).
     and_then (ConstantBuffer_read_as as_bytes cbuf) (\<lambda>(sz, cbuf).
     and_then (ConstantBuffer_read_as (as_raw sz) cbuf) (\<lambda>(data, cbuf).
       Inr (cbuf, impl (update_uniform_impl x sz data) r))))"

definition constant_unread :: "ConstantBuffer \<Rightarrow> nat" where
  "constant_unread cbuf = length (m_constant_buffer cbuf) - m_constant_read cbuf"

lemma ConstantBuffer_read_as_unread:
  "ConstantBuffer_read_as p cbuf = Inr (v, cbuf') \<Longrightarrow> constant_unread cbuf' < constant_unread cbuf"
  by (auto simp: ConstantBuffer_read_as_def ConstantBuffer_read_def and_then_def constant_unread_def
      split: if_splits option.splits)

lemma update_uniform_record_unread:
  "update_uniform_record cbuf r = Inr (cbuf', r') \<Longrightarrow> constant_unread cbuf' < constant_unread cbuf"
  unfolding update_uniform_record_def
  by (auto dest!: and_then_Inr ConstantBuffer_read_as_unread)

function update_uniforms_loop ::
  "ConstantBuffer \<Rightarrow> Renderer \<Rightarrow> (ConstantBuffer \<times> Renderer) result" where
  "update_uniforms_loop cbuf r =
     (case ConstantBuffer_read_as as_tag cbuf of
        Inl e \<Rightarrow> Inl e
      | Inr (type, cbuf1) \<Rightarrow>
          if type = UniformType_END then Inr (cbuf1, r)
          else
            (case update_uniform_record cbuf1 r of
               Inl e \<Rightarrow> Inl e
             | Inr (cbuf2, r2) \<Rightarrow> update_uniforms_loop cbuf2 r2))"
  by pat_completeness auto
termination
proof (relation "measure (\<lambda>(cbuf, r). constant_unread cbuf)")
  show "wf (measure (\<lambda>(cbuf, r). constant_unread cbuf))"
    by simp
next
  fix cbuf cbuf1 cbuf2 :: ConstantBuffer and r r2 :: Renderer and x type y
  assume "ConstantBuffer_read_as as_tag cbuf = Inr x" "(type, cbuf1) = x"
    "update_uniform_record cbuf1 r = Inr y" "(cbuf2, r2) = y"
  then have "constant_unread cbuf1 < constant_unread cbuf"
    "constant_unread cbuf2 < constant_unread cbuf1"
    using ConstantBuffer_read_as_unread [of as_tag cbuf type cbuf1]
      update_uniform_record_unread [of cbuf1 r cbuf2 r2]
    by auto
  then show "((cbuf2, r2), (cbuf, r)) \<in> measure (\<lambda>(cbuf, r). constant_unread cbuf)"
    by simp
qed

declare update_uniforms_loop.simps [simp del]

definition update_uniforms ::
  "ConstantBuffer \<Rightarrow> Renderer \<Rightarrow> (ConstantBuffer \<times> Renderer) result" where
  "update_uniforms cbuf r =
     (case update_uniforms_loop cbuf r of
        Inl e \<Rightarrow> Inl e
      | Inr (cbuf', r') \<Rightarrow> Inr (ConstantBuffer_clear cbuf', r'))"

section \<open>The Double Buffer and the Scheduler\<close>

text \<open>
  \<^verbatim>\<open>swap_contexts\<close>: \<^verbatim>\<open>m_submit->push()\<close>, then the exchange of the two role pointers through
  \<^verbatim>\<open>temp\<close>.
\<close>

definition swap_contexts :: "Renderer \<Rightarrow> Renderer" where
  "swap_contexts r =
     (let r1 = submit_apply push r;
          temp = m_submit r1;
          r2 = r1\<lparr>m_submit := m_draw r1\<rparr>;
          r3 = r2\<lparr>m_draw := temp\<rparr>
      in r3\<lparr>trace := trace r3 @ [Swap]\<rparr>)"

text \<open>
  Modelled from the spec: \<^verbatim>\<open>Semaphore\<close> is declared outside the sources. By section 5 of
  the spec the two signals are counting signals: \<^verbatim>\<open>post()\<close> adds one to the count, \<^verbatim>\<open>wait()\<close>
  takes one from it and blocks the caller while the count is zero (\<open>None\<close>: the caller
  cannot proceed).
\<close>

definition post :: "semaphore \<Rightarrow> Renderer \<Rightarrow> Renderer" where
  "post s r =
     (case s of
        Render_wait \<Rightarrow> r\<lparr>m_render_wait := Suc (m_render_wait r), trace := trace r @ [Post s]\<rparr>
      | Main_wait \<Rightarrow> r\<lparr>m_main_wait := Suc (m_main_wait r), trace := trace r @ [Post s]\<rparr>)"

definition wait :: "semaphore \<Rightarrow> Renderer \<Rightarrow> Renderer option" where
  "wait s r =
     (case s of
        Render_wait \<Rightarrow>
          if m_render_wait r = 0 then None
          else Some (r\<lparr>m_render_wait := m_render_wait r - 1, trace := trace r @ [Wait s]\<rparr>)
      | Main_wait \<Rightarrow>
          if m_main_wait r = 0 then None
          else Some (r\<lparr>m_main_wait := m_main_wait r - 1, trace := trace r @ [Wait s]\<rparr>))"

text \<open>
  The statements of \<^verbatim>\<open>render_all\<close> after the wait: \<^verbatim>\<open>execute_commands(m_draw->m_commands)\<close>,
  \<^verbatim>\<open>update_uniforms(m_draw->m_constants)\<close> (each works on the stream of the draw context
  by reference), and the guarded call of \<^verbatim>\<open>render_impl\<close>.
\<close>

definition execute_draw_commands :: "Config \<Rightarrow> Renderer \<Rightarrow> Renderer result" where
  "execute_draw_commands cfg r =
     (case execute_commands cfg (m_commands (deref r (m_draw r))) r of
        Inl e \<Rightarrow> Inl e
      | Inr (cmds, r') \<Rightarrow> Inr (assign (m_draw r') ((deref r' (m_draw r'))\<lparr>m_commands := cmds\<rparr>) r'))"

definition update_draw_uniforms :: "Renderer \<Rightarrow> Renderer result" where
  "update_draw_uniforms r =
     (case update_uniforms (m_constants (deref r (m_draw r))) r of
        Inl e \<Rightarrow> Inl e
      | Inr (cbuf, r') \<Rightarrow> Inr (assign (m_draw r') ((deref r' (m_draw r'))\<lparr>m_constants := cbuf\<rparr>) r'))"

definition render :: "Renderer \<Rightarrow> Renderer" where
  "render r = (if m_is_initialized r then impl render_impl r else r)"

text \<open>
  A call either blocks in a wait, is halted by a fault, or returns. \<^verbatim>\<open>render_all\<close> is one
  iteration of the consumer.
\<close>

datatype 'a run = Blocks | Faults fault | Returns 'a

definition render_all :: "Config \<Rightarrow> Renderer \<Rightarrow> Renderer run" where
  "render_all cfg r =
     (case wait Render_wait r of
        None \<Rightarrow> Blocks
      | Some r1 \<Rightarrow>
          (case execute_draw_commands cfg (swap_contexts r1) of
             Inl e \<Rightarrow> Faults e
           | Inr r2 \<Rightarrow>
               (case update_draw_uniforms r2 of
                  Inl e \<Rightarrow> Faults e
                | Inr r3 \<Rightarrow> Returns (post Main_wait (render r3)))))"

text \<open>
  \<^verbatim>\<open>frame()\<close> together with the consumer iteration it releases. The consumer thread runs
  \<^verbatim>\<open>render_all\<close> for as long as \<^verbatim>\<open>m_should_run\<close> holds (\<^verbatim>\<open>render_thread\<close>), so with the flag
  down nobody answers and \<^verbatim>\<open>frame()\<close> blocks. Otherwise the producer posts
  \<^verbatim>\<open>m_render_wait\<close>, the consumer runs one \<^verbatim>\<open>render_all\<close>, and the producer's wait on
  \<^verbatim>\<open>m_main_wait\<close> returns.
\<close>

definition frame :: "Config \<Rightarrow> Renderer \<Rightarrow> Renderer run" where
  "frame cfg r =
     (if \<not> m_should_run r then Blocks
      else
        (case render_all cfg (post Render_wait r) of
           Blocks \<Rightarrow> Blocks
         | Faults e \<Rightarrow> Faults e
         | Returns r1 \<Rightarrow> (case wait Main_wait r1 of None \<Rightarrow> Blocks | Some r2 \<Rightarrow> Returns r2)))"

fun frames :: "Config \<Rightarrow> nat \<Rightarrow> Renderer \<Rightarrow> Renderer run" where
  "frames cfg 0 r = Returns r"
| "frames cfg (Suc n) r =
     (case frame cfg r of
        Blocks \<Rightarrow> Blocks
      | Faults e \<Rightarrow> Faults e
      | Returns r' \<Rightarrow> frames cfg n r')"

section \<open>A small configuration\<close>

text \<open>
  Values for the parameters, used where the model is evaluated on concrete inputs: two
  slots in every table, uniform names below four characters, and one stock uniform.
\<close>

definition small_config :: Config where
  "small_config =
     \<lparr>CROWN_MAX_VERTEX_BUFFERS = 2,
      CROWN_MAX_INDEX_BUFFERS = 2,
      CROWN_MAX_TEXTURES = 2,
      CROWN_MAX_SHADERS = 2,
      CROWN_MAX_GPU_PROGRAMS = 2,
      CROWN_MAX_UNIFORMS = 2,
      CROWN_MAX_RENDER_TARGETS = 2,
      CROWN_MAX_UNIFORM_NAME_LENGTH = 4,
      name_to_stock_uniform = (\<lambda>name. if name = ''u_view'' then ShaderUniform 0 else COUNT)\<rparr>"

text \<open>The seven Handle Tables of a renderer.\<close>

definition tables :: "Renderer \<Rightarrow> IdTable list" where
  "tables r =
     [m_vertex_buffers r, m_index_buffers r, m_textures r, m_shaders r, m_gpu_programs r,
      m_uniforms r, m_render_targets r]"

section \<open>Command Records\<close>

text \<open>
  A Command Record is an opcode with its operands. A backend operation names both, so
  a record is written as the backend call it stands for. \<open>wire\<close> is the layout of a
  record in the stream: the opcode, then the operands in the order of the source.
  \<^verbatim>\<open>render_impl\<close> and \<^verbatim>\<open>update_uniform_impl\<close> have no opcode (they are not called from the
  Command Stream).
\<close>

fun wire :: "backend_call \<Rightarrow> item list" where
  "wire init_impl = [Command INIT_RENDERER]"
| "wire shutdown_impl = [Command SHUTDOWN_RENDERER]"
| "wire render_impl = []"
| "wire (create_vertex_buffer_impl x count format vertices) =
     [Command CREATE_VERTEX_BUFFER, Handle x, Size count, VFormat format, Pointer vertices]"
| "wire (create_dynamic_vertex_buffer_impl x count format) =
     [Command CREATE_DYNAMIC_VERTEX_BUFFER, Handle x, Size count, VFormat format]"
| "wire (update_vertex_buffer_impl x offset count vertices) =
     [Command UPDATE_VERTEX_BUFFER, Handle x, Size offset, Size count, Pointer vertices]"
| "wire (destroy_vertex_buffer_impl x) = [Command DESTROY_VERTEX_BUFFER, Handle x]"
| "wire (create_index_buffer_impl x count indices) =
     [Command CREATE_INDEX_BUFFER, Handle x, Size count, Pointer indices]"
| "wire (create_dynamic_index_buffer_impl x count) =
     [Command CREATE_DYNAMIC_INDEX_BUFFER, Handle x, Size count]"
| "wire (update_index_buffer_impl x offset count indices) =
     [Command UPDATE_INDEX_BUFFER, Handle x, Size offset, Size count, Pointer indices]"
| "wire (destroy_index_buffer_impl x) = [Command DESTROY_INDEX_BUFFER, Handle x]"
| "wire (create_texture_impl x width height format data) =
     [Command CREATE_TEXTURE, Handle x, U32 width, U32 height, PFormat format, Pointer data]"
| "wire (update_texture_impl x px py width height data) =
     [Command UPDATE_TEXTURE, Handle x, U32 px, U32 py, U32 width, U32 height, Pointer data]"
| "wire (destroy_texture_impl x) = [Command DESTROY_TEXTURE, Handle x]"
| "wire (create_shader_impl x type text) =
     [Command CREATE_SHADER, Handle x, SType type, Pointer text]"
| "wire (destroy_shader_impl x) = [Command DESTROY_SHADER, Handle x]"
| "wire (create_gpu_program_impl x vertex pixel) =
     [Command CREATE_GPU_PROGRAM, Handle x, Handle vertex, Handle pixel]"
| "wire (destroy_gpu_program_impl x) = [Command DESTROY_GPU_PROGRAM, Handle x]"
| "wire (create_uniform_impl x name type num) =
     [Command CREATE_UNIFORM, Handle x, Size (length name), Chars name, UType type, U8 num]"
| "wire (update_uniform_impl x sz data) = []"
| "wire (destroy_uniform_impl x) = [Command DESTROY_UNIFORM, Handle x]"

text \<open>
  The records that have an opcode and that the dispatcher can take: the name of a
  uniform is a C string that fits the dispatcher's array.
\<close>

fun supported :: "Config \<Rightarrow> backend_call \<Rightarrow> bool" where
  "supported cfg render_impl = False"
| "supported cfg (update_uniform_impl x sz data) = False"
| "supported cfg (create_uniform_impl x name type num) =
     (length name < CROWN_MAX_UNIFORM_NAME_LENGTH cfg \<and> c_str name = name)"
| "supported cfg call = True"

text \<open>
  The Command Record a successful producer call writes, given the renderer it was called
  on and the value it returned. The draw-state calls write none, and
  \<^verbatim>\<open>shutdown()\<close> writes its record only while the renderer runs.
\<close>

fun written :: "api_call \<Rightarrow> Renderer \<Rightarrow> Id option \<Rightarrow> backend_call list" where
  "written Init r v = [init_impl]"
| "written Shutdown r v = (if m_should_run r then [shutdown_impl] else [])"
| "written (Create_vertex_buffer count format vertices) r (Some x) =
     [create_vertex_buffer_impl x count format vertices]"
| "written (Create_dynamic_vertex_buffer count format) r (Some x) =
     [create_dynamic_vertex_buffer_impl x count format]"
| "written (Update_vertex_buffer x offset count vertices) r v =
     [update_vertex_buffer_impl x offset count vertices]"
| "written (Destroy_vertex_buffer x) r v = [destroy_vertex_buffer_impl x]"
| "written (Create_index_buffer count indices) r (Some x) =
     [create_index_buffer_impl x count indices]"
| "written (Create_dynamic_index_buffer count) r (Some x) =
     [create_dynamic_index_buffer_impl x count]"
| "written (Update_index_buffer x offset count indices) r v =
     [update_index_buffer_impl x offset count indices]"
| "written (Destroy_index_buffer x) r v = [destroy_index_buffer_impl x]"
| "written (Create_texture width height format data) r (Some x) =
     [create_texture_impl x width height format data]"
| "written (Update_texture x px py width height data) r v =
     [update_texture_impl x px py width height data]"
| "written (Destroy_texture x) r v = [destroy_texture_impl x]"
| "written (Create_shader type text) r (Some x) = [create_shader_impl x type text]"
| "written (Destroy_shader x) r v = [destroy_shader_impl x]"
| "written (Create_gpu_program vertex pixel) r (Some x) =
     [create_gpu_program_impl x vertex pixel]"
| "written (Destroy_gpu_program x) r v = [destroy_gpu_program_impl x]"
| "written (Create_uniform name type num) r (Some x) =
     [create_uniform_impl x (c_str name) type num]"
| "written (Destroy_uniform x) r v = [destroy_uniform_impl x]"
| "written c r v = []"

text \<open>The records a run of producer calls writes, up to its first fault.\<close>

fun records :: "Config \<Rightarrow> api_call list \<Rightarrow> Renderer \<Rightarrow> backend_call list" where
  "records cfg [] r = []"
| "records cfg (c # cs) r =
     (case submit cfg c r of
        (Inl e, r') \<Rightarrow> []
      | (Inr v, r') \<Rightarrow> written c r v @ records cfg cs r')"

text \<open>What the dispatcher does for one record: the backend call and the two flags.\<close>

fun effect :: "backend_call \<Rightarrow> Renderer \<Rightarrow> Renderer" where
  "effect init_impl r = (impl init_impl r)\<lparr>m_is_initialized := True\<rparr>"
| "effect shutdown_impl r =
     (impl shutdown_impl r)\<lparr>m_is_initialized := False, m_should_run := False\<rparr>"
| "effect call r = impl call r"

text \<open>The unread part of a stream, and a stream with its cursor moved on.\<close>

definition peek :: "CommandBuffer \<Rightarrow> item list" where
  "peek cmds = drop (m_read cmds) (m_buffer cmds)"

definition skip :: "nat \<Rightarrow> CommandBuffer \<Rightarrow> CommandBuffer" where
  "skip n cmds = cmds\<lparr>m_read := m_read cmds + n\<rparr>"

definition constant_peek :: "ConstantBuffer \<Rightarrow> constant_item list" where
  "constant_peek cbuf = drop (m_constant_read cbuf) (m_constant_buffer cbuf)"

definition constant_skip :: "nat \<Rightarrow> ConstantBuffer \<Rightarrow> ConstantBuffer" where
  "constant_skip n cbuf = cbuf\<lparr>m_constant_read := m_constant_read cbuf + n\<rparr>"

section \<open>The two threads\<close>

text \<open>
  The producer is either between two calls of the API (\<open>P_running\<close>), inside \<^verbatim>\<open>frame()\<close>
  after its post (\<open>P_in_frame\<close>), or halted by a fault. The consumer thread is not yet
  started, at the head of the loop of \<^verbatim>\<open>render_thread\<close>, before one of the statements of
  \<^verbatim>\<open>render_all\<close> (the wait, the swap, the execution of the commands, the uniforms, the
  render pass, the post), past the end of its loop, or halted by a fault.
\<close>

datatype producer_pc = P_running | P_in_frame | P_halted

datatype consumer_pc =
    C_not_started
  | C_loop
  | C_wait
  | C_swap
  | C_execute
  | C_uniforms
  | C_render
  | C_post
  | C_exited
  | C_halted

type_synonym system = "producer_pc \<times> consumer_pc \<times> Renderer"

text \<open>
  One step of one thread; an execution of the two threads is any interleaving of such
  steps. The producer may make any call of the API or call \<^verbatim>\<open>frame()\<close>, whose two
  statements are two steps; \<^verbatim>\<open>init()\<close> sets \<^verbatim>\<open>m_should_run\<close> and starts the thread before it
  submits. The consumer's steps are the statements of \<^verbatim>\<open>render_thread\<close> and \<^verbatim>\<open>render_all\<close>. A
  wait is a step only when the count of its semaphore is positive.
\<close>

inductive step :: "Config \<Rightarrow> system \<Rightarrow> system \<Rightarrow> bool" for cfg :: Config where
  thread_start:
    "step cfg (P_running, C_not_started, r) (P_running, C_loop, r\<lparr>m_should_run := True\<rparr>)"
| producer_call:
    "submit cfg c r = (Inr v, r') \<Longrightarrow> step cfg (P_running, cp, r) (P_running, cp, r')"
| producer_fault:
    "submit cfg c r = (Inl e, r') \<Longrightarrow> step cfg (P_running, cp, r) (P_halted, cp, r')"
| frame_post:
    "step cfg (P_running, cp, r) (P_in_frame, cp, post Render_wait r)"
| frame_wait:
    "wait Main_wait r = Some r' \<Longrightarrow> step cfg (P_in_frame, cp, r) (P_running, cp, r')"
| loop_run:
    "m_should_run r \<Longrightarrow> step cfg (pp, C_loop, r) (pp, C_wait, r)"
| loop_exit:
    "\<not> m_should_run r \<Longrightarrow> step cfg (pp, C_loop, r) (pp, C_exited, r)"
| render_all_wait:
    "wait Render_wait r = Some r' \<Longrightarrow> step cfg (pp, C_wait, r) (pp, C_swap, r')"
| render_all_swap:
    "step cfg (pp, C_swap, r) (pp, C_execute, swap_contexts r)"
| render_all_execute:
    "execute_draw_commands cfg r = Inr r' \<Longrightarrow> step cfg (pp, C_execute, r) (pp, C_uniforms, r')"
| render_all_execute_fault:
    "execute_draw_commands cfg r = Inl e \<Longrightarrow> step cfg (pp, C_execute, r) (pp, C_halted, r)"
| render_all_uniforms:
    "update_draw_uniforms r = Inr r' \<Longrightarrow> step cfg (pp, C_uniforms, r) (pp, C_render, r')"
| render_all_uniforms_fault:
    "update_draw_uniforms r = Inl e \<Longrightarrow> step cfg (pp, C_uniforms, r) (pp, C_halted, r)"
| render_all_render:
    "step cfg (pp, C_render, r) (pp, C_post, render r)"
| render_all_post:
    "step cfg (pp, C_post, r) (pp, C_loop, post Main_wait r)"

inductive reachable :: "Config \<Rightarrow> system \<Rightarrow> bool" for cfg :: Config where
  reachable_start: "reachable cfg (P_running, C_not_started, Renderer_init cfg)"
| reachable_step: "reachable cfg s \<Longrightarrow> step cfg s s' \<Longrightarrow> reachable cfg s'"

text \<open>
  A side is active while it works on a Frame Context: the producer between two calls
  of \<^verbatim>\<open>frame()\<close>, the consumer from its wait to its post. The contexts a side may touch at
  its next step: the producer writes through \<^verbatim>\<open>m_submit\<close>; the consumer's swap closes the
  submit context and exchanges the pointers, and the rest of \<^verbatim>\<open>render_all\<close> works through
  \<^verbatim>\<open>m_draw\<close>.
\<close>

definition producer_active :: "producer_pc \<Rightarrow> bool" where
  "producer_active pp = (pp = P_running)"

definition consumer_active :: "consumer_pc \<Rightarrow> bool" where
  "consumer_active cp = (cp \<in> {C_swap, C_execute, C_uniforms, C_render, C_post})"

definition producer_touches :: "producer_pc \<Rightarrow> Renderer \<Rightarrow> context_pointer set" where
  "producer_touches pp r = (if pp = P_running then {m_submit r} else {})"

definition consumer_touches :: "consumer_pc \<Rightarrow> Renderer \<Rightarrow> context_pointer set" where
  "consumer_touches cp r =
     (if cp = C_swap then {m_submit r, m_draw r}
      else if cp \<in> {C_execute, C_uniforms, C_render} then {m_draw r}
      else {})"

text \<open>
  The frames the producer handed over, the frames the consumer completed, and the calls
  of \<^verbatim>\<open>frame()\<close> that returned, counted on the trace.
\<close>

definition posted :: "Renderer \<Rightarrow> nat" where
  "posted r = count_list (trace r) (Post Render_wait)"

definition completed :: "Renderer \<Rightarrow> nat" where
  "completed r = count_list (trace r) (Post Main_wait)"

definition returned :: "Renderer \<Rightarrow> nat" where
  "returned r = count_list (trace r) (Wait Main_wait)"

definition swaps :: "Renderer \<Rightarrow> nat" where
  "swaps r = count_list (trace r) Swap"

text \<open>The backend calls made for a Command Record, and those made for a Constant Record.\<close>

definition is_command_record :: "backend_call \<Rightarrow> bool" where
  "is_command_record call = (wire call \<noteq> [])"

fun is_uniform_update :: "backend_call \<Rightarrow> bool" where
  "is_uniform_update (update_uniform_impl x sz data) = True"
| "is_uniform_update call = False"

text \<open>
  A Constant Record (section 3 of the spec) is a type tag, the id of the uniform, the
  size of the value and its bytes; \<open>constant_wire\<close> is its layout in a Constant Stream and
  \<open>uniform_update\<close> the backend call \<^verbatim>\<open>update_uniforms\<close> makes for it. A record can be
  applied when its tag is not the END tag and it holds as many bytes as its size says.
\<close>

type_synonym constant_record = "UniformType \<times> Id \<times> 32 word \<times> 8 word list"

fun constant_wire :: "constant_record \<Rightarrow> constant_item list" where
  "constant_wire (type, x, sz, data) = [Tag type, Uniform x, Bytes sz, Raw data]"

fun uniform_update :: "constant_record \<Rightarrow> backend_call" where
  "uniform_update (type, x, sz, data) = update_uniform_impl x sz data"

fun constant_supported :: "constant_record \<Rightarrow> bool" where
  "constant_supported (type, x, sz, data) = (type \<noteq> UniformType_END \<and> length data = unat sz)"

text \<open>
  A context holds the Command Records \<open>commands\<close> and the Constant Records \<open>updates\<close>, none
  of them read yet, and nothing else.
\<close>

definition holds_records ::
  "Config \<Rightarrow> RenderContext \<Rightarrow> backend_call list \<Rightarrow> constant_record list \<Rightarrow> bool" where
  "holds_records cfg c commands updates =
     (m_read (m_commands c) = 0
      \<and> m_buffer (m_commands c) = concat (map wire commands)
      \<and> list_all (supported cfg) commands
      \<and> m_constant_read (m_constants c) = 0
      \<and> m_constant_buffer (m_constants c) = concat (map constant_wire updates)
      \<and> list_all constant_supported updates)"

text \<open>
  The Constant Records a producer call writes: \<^verbatim>\<open>set_uniform\<close> writes one, with the number
  of the bytes as its size. It can be applied when its tag is not the END tag and the
  number of its bytes fits the 32 bits of the size.
\<close>

fun updates_written :: "api_call \<Rightarrow> constant_record list" where
  "updates_written (Set_uniform x type (Some bs) num) = [(type, x, of_nat (length bs), bs)]"
| "updates_written c = []"

fun uniform_call_ok :: "api_call \<Rightarrow> bool" where
  "uniform_call_ok (Set_uniform x type (Some bs) num) =
     (type \<noteq> UniformType_END \<and> length bs < 2 ^ 32)"
| "uniform_call_ok c = True"


text \<open>
  A renderer at rest between two frames: the consumer thread runs, both semaphores are
  at zero, the two roles are held by the two contexts, and all four streams are fresh.
\<close>

definition idle :: "Renderer \<Rightarrow> bool" where
  "idle r =
     (m_should_run r \<and> m_submit r \<noteq> m_draw r \<and> m_render_wait r = 0 \<and> m_main_wait r = 0
      \<and> m_commands (deref r (m_submit r)) = CommandBuffer_init
      \<and> m_constants (deref r (m_submit r)) = ConstantBuffer_init
      \<and> m_commands (deref r (m_draw r)) = CommandBuffer_init
      \<and> m_constants (deref r (m_draw r)) = ConstantBuffer_init)"

text \<open>The events of one handoff in which no Command Record and no Constant Record is pending.\<close>

definition empty_handoff :: "bool \<Rightarrow> event list" where
  "empty_handoff initialized =
     [Post Render_wait, Wait Render_wait, Swap]
       @ (if initialized then [Impl render_impl] else [])
       @ [Post Main_wait, Wait Main_wait]"

section \<open>Invariants of the two threads\<close>

text \<open>
  The consumer holds the frame it took from \<^verbatim>\<open>m_render_wait\<close> until it posts \<^verbatim>\<open>m_main_wait\<close>
  (for good, when a fault halts it).
\<close>

definition holds_frame :: "consumer_pc \<Rightarrow> nat" where
  "holds_frame cp =
     (if cp \<in> {C_swap, C_execute, C_uniforms, C_render, C_post, C_halted} then 1 else 0)"

text \<open>
  The counts of the semaphores against the frames posted, completed and returned: a
  completed frame is either returned or waits in \<^verbatim>\<open>m_main_wait\<close>; a posted frame is
  completed, waits in \<^verbatim>\<open>m_render_wait\<close> or is held by the consumer; and the producer has one
  frame posted and not returned exactly while it is inside \<^verbatim>\<open>frame()\<close>.
\<close>

definition scheduling_invariant :: "system \<Rightarrow> bool" where
  "scheduling_invariant s =
     (case s of (pp, cp, r) \<Rightarrow>
        completed r = returned r + m_main_wait r
        \<and> posted r = completed r + m_render_wait r + holds_frame cp
        \<and> posted r = returned r + (if pp = P_in_frame then 1 else 0))"

text \<open>
  The Command Streams: the two roles are held by the two contexts; the submit stream is
  unread and holds the layouts of supported records; the draw stream is fresh, except
  between the swap and the execution of the commands, when it is unread and holds such
  layouts closed by one END record (and except after a fault of the consumer).
\<close>

definition stream_invariant :: "Config \<Rightarrow> system \<Rightarrow> bool" where
  "stream_invariant cfg s =
     (case s of (pp, cp, r) \<Rightarrow>
        m_submit r \<noteq> m_draw r
        \<and> m_read (m_commands (deref r (m_submit r))) = 0
        \<and> (\<exists>recs. (\<forall>call \<in> set recs. supported cfg call)
              \<and> m_buffer (m_commands (deref r (m_submit r))) = concat (map wire recs))
        \<and> (if cp = C_execute
           then m_read (m_commands (deref r (m_draw r))) = 0
             \<and> (\<exists>recs. (\<forall>call \<in> set recs. supported cfg call)
                  \<and> m_buffer (m_commands (deref r (m_draw r)))
                      = concat (map wire recs) @ [Command END])
           else if cp = C_halted then True
           else m_commands (deref r (m_draw r)) = CommandBuffer_init))"

text \<open>
  The renderer of the small configuration when \<^verbatim>\<open>init()\<close> has started the thread, written
  its record and posted its frame, and the consumer has taken the frame.
\<close>

definition first_frame_taken :: Renderer where
  "first_frame_taken =
     (let r = post Render_wait (snd (init_submit ((Renderer_init small_config)\<lparr>m_should_run := True\<rparr>)))
      in r\<lparr>m_render_wait := m_render_wait r - 1, trace := trace r @ [Wait Render_wait]\<rparr>)"

section \<open>Properties of the Handle Table\<close>

lemma lowest_free_None: "lowest_free t = None \<longleftrightarrow> (\<forall>s \<in> set t. live s)"
  by (induction t) auto

lemma lowest_free_Some:
  "lowest_free t = Some i \<Longrightarrow> i < length t \<and> \<not> live (t ! i)"
proof (induction t arbitrary: i)
  case Nil
  then show ?case by simp
next
  case (Cons s ss)
  show ?case
  proof (cases "live s")
    case True
    with Cons.prems obtain j where j: "lowest_free ss = Some j" "i = Suc j"
      by auto
    with Cons.IH [of j] show ?thesis by simp
  next
    case False
    with Cons.prems show ?thesis by simp
  qed
qed

lemma length_IdTable_create:
  "IdTable_create t = Some (x, t') \<Longrightarrow> length t' = length t"
  by (auto simp: IdTable_create_def split: option.splits)

lemma length_IdTable_destroy: "length (IdTable_destroy t x) = length t"
  by (simp add: IdTable_destroy_def)

lemma length_table_step: "length (table_step t c) = length t"
  by (cases c) (auto simp: length_IdTable_destroy split: option.splits
      dest: length_IdTable_create)

lemma length_foldl_table_step: "length (foldl table_step t ops) = length t"
  by (induction ops arbitrary: t) (simp_all add: length_table_step)

lemma length_table_run: "length (table_run C ops) = C"
  by (simp add: table_run_def length_foldl_table_step IdTable_init_def)

lemma set_IdTable_live: "x \<in> set (IdTable_live t) \<longleftrightarrow> IdTable_has t x"
  by (cases x) (auto simp: IdTable_live_def IdTable_has_def)

lemma distinct_IdTable_live: "distinct (IdTable_live t)"
  by (auto simp: IdTable_live_def distinct_map intro!: inj_onI)

lemma length_IdTable_live_le: "length (IdTable_live t) \<le> length t"
proof -
  have "length (filter (\<lambda>i. live (t ! i)) [0..<length t]) \<le> length [0..<length t]"
    by (rule length_filter_le)
  then show ?thesis by (simp add: IdTable_live_def)
qed

lemma IdTable_live_full:
  assumes "length (IdTable_live t) = length t"
  shows "\<forall>s \<in> set t. live s"
proof (rule ccontr)
  assume "\<not> (\<forall>s \<in> set t. live s)"
  then obtain i where i: "i < length t" "\<not> live (t ! i)"
    by (auto simp: in_set_conv_nth)
  then have "length (filter (\<lambda>i. live (t ! i)) [0..<length t]) < length [0..<length t]"
    by (intro length_filter_less [of i]) auto
  with assms show False by (simp add: IdTable_live_def)
qed

lemma IdTable_live_room:
  assumes "length (IdTable_live t) < length t"
  shows "\<exists>s \<in> set t. \<not> live s"
proof (rule ccontr)
  assume "\<not> (\<exists>s \<in> set t. \<not> live s)"
  then have "filter (\<lambda>i. live (t ! i)) [0..<length t] = [0..<length t]"
    by (auto simp: filter_id_conv)
  with assms show False by (simp add: IdTable_live_def)
qed

lemma IdTable_has_create:
  "IdTable_create t = Some (x, t') \<Longrightarrow> IdTable_has t' x \<and> \<not> IdTable_has t x"
  by (auto simp: IdTable_create_def IdTable_has_def split: option.splits
      dest: lowest_free_Some)

lemma IdTable_has_create_other:
  assumes "IdTable_create t = Some (x, t')" and "IdTable_has t y"
  shows "IdTable_has t' y"
proof -
  from assms(1) obtain i where i: "lowest_free t = Some i"
    and t': "t' = t[i := (t ! i)\<lparr>live := True\<rparr>]"
    by (auto simp: IdTable_create_def split: option.splits)
  from assms(2) have y: "id_index y < length t" "live (t ! id_index y)"
    "generation (t ! id_index y) = id_gen y"
    by (simp_all add: IdTable_has_def)
  show ?thesis
  proof (cases "i = id_index y")
    case True
    with y t' show ?thesis by (simp add: IdTable_has_def)
  next
    case False
    with y t' show ?thesis by (simp add: IdTable_has_def)
  qed
qed

lemma IdTable_has_destroy: "\<not> IdTable_has (IdTable_destroy t x) x"
  by (simp add: IdTable_destroy_def IdTable_has_def)

lemma IdTable_create_full:
  assumes "length (IdTable_live t) = length t"
  shows "IdTable_create t = None"
proof -
  have "lowest_free t = None"
    using IdTable_live_full [OF assms] by (simp add: lowest_free_None)
  then show ?thesis by (simp add: IdTable_create_def)
qed

lemma IdTable_create_room:
  "length (IdTable_live t) < length t \<Longrightarrow> IdTable_create t \<noteq> None"
  using IdTable_live_room [of t]
  by (auto simp: IdTable_create_def lowest_free_None split: option.splits)

text \<open>
  Claim C6. For every sequence of create and destroy calls on a Handle Table of
  capacity \<open>C\<close>: the live ids are exactly the (distinct) entries of \<open>IdTable_live\<close>, at
  most \<open>C\<close> of them; \<open>has(id)\<close> is true right after a successful \<open>create()\<close> returned
  \<open>id\<close> and false right after \<open>destroy(id)\<close>; \<open>create()\<close> succeeds while fewer than \<open>C\<close>
  ids are live; and with \<open>C\<close> ids live it fails, the table (and so every one of the
  \<open>C\<close> live entries) being left exactly as it was.
\<close>

theorem IdTable_capacity_and_liveness:
  fixes C :: nat and ops :: "table_op list"
  defines "t \<equiv> table_run C ops"
  shows "length (IdTable_live t) \<le> C
    \<and> distinct (IdTable_live t)
    \<and> (\<forall>x. IdTable_has t x \<longleftrightarrow> x \<in> set (IdTable_live t))
    \<and> (\<forall>x t'. IdTable_create t = Some (x, t') \<longrightarrow>
          IdTable_has t' x \<and> (\<forall>y. IdTable_has t y \<longrightarrow> IdTable_has t' y))
    \<and> (\<forall>x. \<not> IdTable_has (IdTable_destroy t x) x)
    \<and> (length (IdTable_live t) < C \<longrightarrow> IdTable_create t \<noteq> None)
    \<and> (length (IdTable_live t) = C \<longrightarrow>
          IdTable_create t = None \<and> table_step t Create = t
          \<and> IdTable_live (table_step t Create) = IdTable_live t)"
proof -
  have len: "length t = C"
    by (simp add: t_def length_table_run)
  have 1: "length (IdTable_live t) \<le> C"
    using length_IdTable_live_le [of t] len by simp
  have 2: "distinct (IdTable_live t)"
    by (rule distinct_IdTable_live)
  have 3: "\<forall>x. IdTable_has t x \<longleftrightarrow> x \<in> set (IdTable_live t)"
    by (simp add: set_IdTable_live)
  have 4: "\<forall>x t'. IdTable_create t = Some (x, t') \<longrightarrow>
      IdTable_has t' x \<and> (\<forall>y. IdTable_has t y \<longrightarrow> IdTable_has t' y)"
    using IdTable_has_create IdTable_has_create_other by blast
  have 5: "\<forall>x. \<not> IdTable_has (IdTable_destroy t x) x"
    by (simp add: IdTable_has_destroy)
  have 6: "length (IdTable_live t) < C \<longrightarrow> IdTable_create t \<noteq> None"
    using IdTable_create_room [of t] len by simp
  have 7: "length (IdTable_live t) = C \<longrightarrow>
      IdTable_create t = None \<and> table_step t Create = t
      \<and> IdTable_live (table_step t Create) = IdTable_live t"
    using IdTable_create_full [of t] len by simp
  from 1 2 3 4 5 6 7 show ?thesis by blast
qed

theorem IdTable_capacity_and_liveness_witness:
  "length (IdTable_live (table_run 2 [Create, Create])) = 2
   \<and> IdTable_create (table_run 2 [Create, Create]) = None
   \<and> table_step (table_run 2 [Create, Create]) Create = table_run 2 [Create, Create]
   \<and> length (IdTable_live (table_run 2 [Create])) < 2
   \<and> IdTable_create (table_run 2 [Create]) = Some (Id 1 0, table_run 2 [Create, Create])
   \<and> IdTable_has (table_run 2 [Create, Create]) (Id 1 0)
   \<and> IdTable_has (table_run 2 [Create, Create]) (Id 0 0)
   \<and> \<not> IdTable_has (IdTable_destroy (table_run 2 [Create, Create]) (Id 0 0)) (Id 0 0)"
proof -
  have full: "length (IdTable_live (table_run 2 [Create, Create])) = 2"
    by code_simp
  have room: "length (IdTable_live (table_run 2 [Create])) < 2"
    by code_simp
  have cr: "IdTable_create (table_run 2 [Create]) = Some (Id 1 0, table_run 2 [Create, Create])"
    by code_simp
  have old: "IdTable_has (table_run 2 [Create]) (Id 0 0)"
    by code_simp
  note A = IdTable_capacity_and_liveness [of 2 "[Create, Create]"]
  note B = IdTable_capacity_and_liveness [of 2 "[Create]"]
  from A full have 1: "IdTable_create (table_run 2 [Create, Create]) = None"
    and 2: "table_step (table_run 2 [Create, Create]) Create = table_run 2 [Create, Create]"
    by blast+
  from B cr old have 3: "IdTable_has (table_run 2 [Create, Create]) (Id 1 0)"
    and 4: "IdTable_has (table_run 2 [Create, Create]) (Id 0 0)"
    by blast+
  from A have 5: "\<not> IdTable_has (IdTable_destroy (table_run 2 [Create, Create]) (Id 0 0)) (Id 0 0)"
    by blast
  from full 1 2 room cr 3 4 5 show ?thesis by blast
qed

section \<open>Basic facts about the model\<close>

lemma and_then_simps [simp]:
  "and_then (Inl e) f = Inl e" "and_then (Inr x) f = f x"
  by (simp_all add: and_then_def)

lemma deref_assign [simp]:
  "deref (assign p c r) q = (if q = p then c else deref r q)"
  by (cases p; cases q) (simp_all add: deref_def assign_def)

lemma assign_fields [simp]:
  "m_submit (assign p c r) = m_submit r"
  "m_draw (assign p c r) = m_draw r"
  "m_vertex_buffers (assign p c r) = m_vertex_buffers r"
  "m_index_buffers (assign p c r) = m_index_buffers r"
  "m_textures (assign p c r) = m_textures r"
  "m_shaders (assign p c r) = m_shaders r"
  "m_gpu_programs (assign p c r) = m_gpu_programs r"
  "m_uniforms (assign p c r) = m_uniforms r"
  "m_render_targets (assign p c r) = m_render_targets r"
  "m_is_initialized (assign p c r) = m_is_initialized r"
  "m_should_run (assign p c r) = m_should_run r"
  "m_render_wait (assign p c r) = m_render_wait r"
  "m_main_wait (assign p c r) = m_main_wait r"
  "trace (assign p c r) = trace r"
  by (cases p; simp add: assign_def)+

lemma submit_apply_fields [simp]:
  "m_submit (submit_apply f r) = m_submit r"
  "m_draw (submit_apply f r) = m_draw r"
  "m_vertex_buffers (submit_apply f r) = m_vertex_buffers r"
  "m_index_buffers (submit_apply f r) = m_index_buffers r"
  "m_textures (submit_apply f r) = m_textures r"
  "m_shaders (submit_apply f r) = m_shaders r"
  "m_gpu_programs (submit_apply f r) = m_gpu_programs r"
  "m_uniforms (submit_apply f r) = m_uniforms r"
  "m_render_targets (submit_apply f r) = m_render_targets r"
  "m_is_initialized (submit_apply f r) = m_is_initialized r"
  "m_should_run (submit_apply f r) = m_should_run r"
  "m_render_wait (submit_apply f r) = m_render_wait r"
  "m_main_wait (submit_apply f r) = m_main_wait r"
  "trace (submit_apply f r) = trace r"
  by (simp_all add: submit_apply_def)

lemma deref_submit_apply [simp]:
  "deref (submit_apply f r) q = (if q = m_submit r then f (deref r q) else deref r q)"
  by (simp add: submit_apply_def)

lemma submit_write_apply:
  "submit_write x r =
     submit_apply (\<lambda>c. c\<lparr>m_commands := CommandBuffer_write x (m_commands c)\<rparr>) r"
  by (simp add: submit_write_def submit_apply_def)

lemma submit_write_fields [simp]:
  "m_submit (submit_write x r) = m_submit r"
  "m_draw (submit_write x r) = m_draw r"
  "m_vertex_buffers (submit_write x r) = m_vertex_buffers r"
  "m_index_buffers (submit_write x r) = m_index_buffers r"
  "m_textures (submit_write x r) = m_textures r"
  "m_shaders (submit_write x r) = m_shaders r"
  "m_gpu_programs (submit_write x r) = m_gpu_programs r"
  "m_uniforms (submit_write x r) = m_uniforms r"
  "m_render_targets (submit_write x r) = m_render_targets r"
  "m_is_initialized (submit_write x r) = m_is_initialized r"
  "m_should_run (submit_write x r) = m_should_run r"
  "m_render_wait (submit_write x r) = m_render_wait r"
  "m_main_wait (submit_write x r) = m_main_wait r"
  "trace (submit_write x r) = trace r"
  by (simp_all add: submit_write_apply)

lemma submit_writes_fields [simp]:
  "m_submit (submit_writes xs r) = m_submit r"
  "m_draw (submit_writes xs r) = m_draw r"
  "m_vertex_buffers (submit_writes xs r) = m_vertex_buffers r"
  "m_index_buffers (submit_writes xs r) = m_index_buffers r"
  "m_textures (submit_writes xs r) = m_textures r"
  "m_shaders (submit_writes xs r) = m_shaders r"
  "m_gpu_programs (submit_writes xs r) = m_gpu_programs r"
  "m_uniforms (submit_writes xs r) = m_uniforms r"
  "m_render_targets (submit_writes xs r) = m_render_targets r"
  "m_is_initialized (submit_writes xs r) = m_is_initialized r"
  "m_should_run (submit_writes xs r) = m_should_run r"
  "m_render_wait (submit_writes xs r) = m_render_wait r"
  "m_main_wait (submit_writes xs r) = m_main_wait r"
  "trace (submit_writes xs r) = trace r"
  unfolding submit_writes_def
  by (induction xs arbitrary: r; simp)+

lemma returning_simps [simp]:
  "returning f (Inl e, r) = (Inl e, r)"
  "returning f (Inr v, r) = (Inr (f v), r)"
  by (simp_all add: returning_def)

lemma snd_returning [simp]: "snd (returning f p) = snd p"
  by (simp add: returning_def)

lemma fst_returning_Inr:
  "fst (returning f p) = Inr w \<longleftrightarrow> (\<exists>v. fst p = Inr v \<and> w = f v)"
  by (cases "fst p") (auto simp: returning_def)

section \<open>The checks of the producer side\<close>

lemma IdTable_has_create_cases:
  assumes "IdTable_create t = Some (y, t')" and "IdTable_has t' x"
  shows "IdTable_has t x \<or> x = y"
proof -
  from assms(1) obtain i where i: "lowest_free t = Some i"
    and y: "y = Id i (generation (t ! i))"
    and t': "t' = t[i := (t ! i)\<lparr>live := True\<rparr>]"
    by (auto simp: IdTable_create_def split: option.splits)
  from lowest_free_Some [OF i] have il: "i < length t" by simp
  show ?thesis
  proof (cases "id_index x = i")
    case True
    with assms(2) t' il have "generation (t ! i) = id_gen x"
      by (simp add: IdTable_has_def)
    with True y have "x = y" by (cases x) simp
    then show ?thesis by simp
  next
    case False
    with assms(2) t' show ?thesis by (simp add: IdTable_has_def)
  qed
qed

lemmas producer_defs =
  create_vertex_buffer_def create_dynamic_vertex_buffer_def update_vertex_buffer_def
  destroy_vertex_buffer_def create_index_buffer_def create_dynamic_index_buffer_def
  update_index_buffer_def destroy_index_buffer_def create_texture_def update_texture_def
  destroy_texture_def create_shader_def destroy_shader_def create_gpu_program_def
  destroy_gpu_program_def create_uniform_def destroy_uniform_def set_state_def
  set_pose_def set_layer_clear_def set_layer_view_def set_layer_projection_def
  set_layer_viewport_def set_layer_scissor_def
  set_program_def set_vertex_buffer_def set_index_buffer_def set_uniform_def
  set_texture_def set_layer_render_target_def commit_def init_submit_def
  shutdown_submit_def

text \<open>A producer call makes an id of the vertex buffer table live only by returning it.\<close>

lemma submit_vertex_buffer_live:
  assumes "submit cfg c r = (Inr v, r')" and "IdTable_has (m_vertex_buffers r') x"
  shows "IdTable_has (m_vertex_buffers r) x \<or> v = Some x"
  using assms
  by (cases c)
    (auto simp: producer_defs Let_def split: if_splits option.splits,
      (blast dest: IdTable_has_create_cases)+)

lemma submit_all_vertex_buffer_live:
  "submit_all cfg cs r = (Inr vs, r') \<Longrightarrow> IdTable_has (m_vertex_buffers r') x
    \<Longrightarrow> IdTable_has (m_vertex_buffers r) x \<or> Some x \<in> set vs"
proof (induction cs arbitrary: r vs)
  case Nil
  then show ?case by simp
next
  case (Cons c cs)
  from Cons.prems(1) obtain v r1 ws where c: "submit cfg c r = (Inr v, r1)"
    and cs: "submit_all cfg cs r1 = (Inr ws, r')" and vs: "vs = v # ws"
    by (auto split: prod.splits sum.splits)
  from Cons.IH [OF cs Cons.prems(2)] submit_vertex_buffer_live [OF c] vs
  show ?case by auto
qed

text \<open>
  Claim C2. Each of the listed producer calls checks \<open>has(id)\<close> first: on an id that is
  not live it is halted with the fault of its check and the renderer is exactly as it
  was, so nothing has been written to the Command Stream (nor to the Constant Stream or
  the draw state). In particular an id that was not live at the start of a run of
  producer calls and that none of the calls returned is not a vertex buffer at its
  end, and \<open>destroy_vertex_buffer\<close> on it faults and writes nothing.
\<close>

theorem producer_checks_existence_first:
  "(\<not> IdTable_has (m_vertex_buffers r) x \<longrightarrow>
      destroy_vertex_buffer x r = (Inl Vertex_buffer_does_not_exist, r))
   \<and> (submit_all cfg calls r0 = (Inr vs, r) \<and> \<not> IdTable_has (m_vertex_buffers r0) x
          \<and> Some x \<notin> set vs \<longrightarrow>
        destroy_vertex_buffer x r = (Inl Vertex_buffer_does_not_exist, r))
   \<and> (\<not> IdTable_has (m_vertex_buffers r) x \<longrightarrow>
      set_vertex_buffer x r = (Inl Vertex_buffer_does_not_exist, r))
   \<and> (\<not> IdTable_has (m_vertex_buffers r) x \<longrightarrow>
      update_vertex_buffer x offset count vertices r = (Inl Vertex_buffer_does_not_exist, r))
   \<and> (\<not> IdTable_has (m_index_buffers r) x \<longrightarrow>
      update_index_buffer x offset count indices r = (Inl Index_buffer_does_not_exist, r))
   \<and> (\<not> IdTable_has (m_index_buffers r) x \<longrightarrow>
      destroy_index_buffer x r = (Inl Index_buffer_does_not_exist, r))
   \<and> (\<not> IdTable_has (m_textures r) x \<longrightarrow>
      update_texture x px py width height data r = (Inl Texture_does_not_exist, r))
   \<and> (\<not> IdTable_has (m_textures r) x \<longrightarrow>
      destroy_texture x r = (Inl Texture_does_not_exist, r))
   \<and> (\<not> IdTable_has (m_shaders r) x \<longrightarrow>
      destroy_shader x r = (Inl Shader_does_not_exist, r))
   \<and> (\<not> IdTable_has (m_gpu_programs r) x \<longrightarrow>
      destroy_gpu_program x r = (Inl GPU_program_does_not_exist, r))
   \<and> (\<not> IdTable_has (m_uniforms r) x \<longrightarrow>
      destroy_uniform x r = (Inl Uniform_does_not_exist, r))
   \<and> (\<not> IdTable_has (m_gpu_programs r) x \<longrightarrow>
      set_program x r = (Inl GPU_program_does_not_exist, r))
   \<and> (\<not> IdTable_has (m_index_buffers r) x \<longrightarrow>
      set_index_buffer x start_index num_indices r = (Inl Index_buffer_does_not_exist, r))
   \<and> (\<not> IdTable_has (m_uniforms r) x \<longrightarrow>
      set_uniform x type val num r = (Inl Uniform_does_not_exist, r))
   \<and> (\<not> IdTable_has (m_uniforms r) x \<longrightarrow>
      set_texture unit x texture flags r = (Inl Uniform_does_not_exist, r))
   \<and> (IdTable_has (m_uniforms r) sampler_uniform \<and> \<not> IdTable_has (m_textures r) x \<longrightarrow>
      set_texture unit sampler_uniform x flags r = (Inl Texture_does_not_exist, r))
   \<and> (\<not> IdTable_has (m_render_targets r) x \<longrightarrow>
      set_layer_render_target layer x r = (Inl Render_target_does_not_exist, r))"
proof -
  have run: "submit_all cfg calls r0 = (Inr vs, r) \<and> \<not> IdTable_has (m_vertex_buffers r0) x
        \<and> Some x \<notin> set vs \<longrightarrow>
      destroy_vertex_buffer x r = (Inl Vertex_buffer_does_not_exist, r)"
  proof (intro impI)
    assume a: "submit_all cfg calls r0 = (Inr vs, r) \<and> \<not> IdTable_has (m_vertex_buffers r0) x
        \<and> Some x \<notin> set vs"
    then have "\<not> IdTable_has (m_vertex_buffers r) x"
      using submit_all_vertex_buffer_live [of cfg calls r0 vs r x] by blast
    then show "destroy_vertex_buffer x r = (Inl Vertex_buffer_does_not_exist, r)"
      by (simp add: destroy_vertex_buffer_def)
  qed
  show ?thesis
    apply (intro conjI)
    apply (simp add: destroy_vertex_buffer_def)
    apply (rule run)
    apply (simp add: set_vertex_buffer_def)
    apply (simp add: update_vertex_buffer_def)
    apply (simp add: update_index_buffer_def)
    apply (simp add: destroy_index_buffer_def)
    apply (simp add: update_texture_def)
    apply (simp add: destroy_texture_def)
    apply (simp add: destroy_shader_def)
    apply (simp add: destroy_gpu_program_def)
    apply (simp add: destroy_uniform_def)
    apply (simp add: set_program_def)
    apply (simp add: set_index_buffer_def)
    apply (simp add: set_uniform_def)
    apply (simp add: set_texture_def)
    apply (simp add: set_texture_def)
    apply (simp add: set_layer_render_target_def)
    done
qed

theorem producer_checks_existence_first_witness:
  "\<not> IdTable_has (m_vertex_buffers (Renderer_init small_config)) (Id 0 0)
   \<and> destroy_vertex_buffer (Id 0 0) (Renderer_init small_config)
       = (Inl Vertex_buffer_does_not_exist, Renderer_init small_config)
   \<and> set_vertex_buffer (Id 0 0) (Renderer_init small_config)
       = (Inl Vertex_buffer_does_not_exist, Renderer_init small_config)
   \<and> fst (submit_all small_config [Create_vertex_buffer 3 (VertexFormat 0) 0]
         (Renderer_init small_config)) = Inr [Some (Id 0 0)]
   \<and> destroy_vertex_buffer (Id 1 0)
         (snd (submit_all small_config [Create_vertex_buffer 3 (VertexFormat 0) 0]
           (Renderer_init small_config)))
       = (Inl Vertex_buffer_does_not_exist,
          snd (submit_all small_config [Create_vertex_buffer 3 (VertexFormat 0) 0]
            (Renderer_init small_config)))"
proof -
  let ?r0 = "Renderer_init small_config"
  let ?calls = "[Create_vertex_buffer 3 (VertexFormat 0) 0]"
  let ?r1 = "snd (submit_all small_config ?calls ?r0)"
  have fresh: "\<not> IdTable_has (m_vertex_buffers ?r0) (Id 0 0)"
    by (simp add: Renderer_init_def small_config_def IdTable_init_def IdTable_has_def)
  have fresh1: "\<not> IdTable_has (m_vertex_buffers ?r0) (Id 1 0)"
    by (simp add: Renderer_init_def small_config_def IdTable_init_def IdTable_has_def)
  have create: "IdTable_create (m_vertex_buffers ?r0) = Some (Id 0 0,
      [\<lparr>live = True, generation = 0\<rparr>, \<lparr>live = False, generation = 0\<rparr>])"
    by (simp add: Renderer_init_def small_config_def IdTable_init_def IdTable_create_def
        numeral_2_eq_2)
  have run: "fst (submit_all small_config ?calls ?r0) = Inr [Some (Id 0 0)]"
    by (simp add: create_vertex_buffer_def create)
  then have run': "submit_all small_config ?calls ?r0 = (Inr [Some (Id 0 0)], ?r1)"
    by (simp add: prod_eq_iff)
  note T0 = producer_checks_existence_first [where r = ?r0 and x = "Id 0 0"]
  note T1 = producer_checks_existence_first [where r = ?r1 and x = "Id 1 0" and cfg = small_config
      and calls = ?calls and ?r0.0 = ?r0 and vs = "[Some (Id 0 0)]"]
  from T0 [THEN conjunct1] fresh
  have 1: "destroy_vertex_buffer (Id 0 0) ?r0 = (Inl Vertex_buffer_does_not_exist, ?r0)"
    by simp
  from T0 [THEN conjunct2, THEN conjunct2, THEN conjunct1] fresh
  have 2: "set_vertex_buffer (Id 0 0) ?r0 = (Inl Vertex_buffer_does_not_exist, ?r0)"
    by simp
  from T1 [THEN conjunct2, THEN conjunct1] run' fresh1
  have 3: "destroy_vertex_buffer (Id 1 0) ?r1 = (Inl Vertex_buffer_does_not_exist, ?r1)"
    by simp
  from fresh 1 2 run 3 show ?thesis by (intro conjI)
qed

section \<open>The producer side never frees a slot\<close>



lemma submit_keeps_live:
  "IdTable_has (m_vertex_buffers r) x \<Longrightarrow> IdTable_has (m_vertex_buffers (snd (submit cfg c r))) x"
  "IdTable_has (m_index_buffers r) x \<Longrightarrow> IdTable_has (m_index_buffers (snd (submit cfg c r))) x"
  "IdTable_has (m_textures r) x \<Longrightarrow> IdTable_has (m_textures (snd (submit cfg c r))) x"
  "IdTable_has (m_shaders r) x \<Longrightarrow> IdTable_has (m_shaders (snd (submit cfg c r))) x"
  "IdTable_has (m_gpu_programs r) x \<Longrightarrow> IdTable_has (m_gpu_programs (snd (submit cfg c r))) x"
  "IdTable_has (m_uniforms r) x \<Longrightarrow> IdTable_has (m_uniforms (snd (submit cfg c r))) x"
  by (cases c; auto simp: producer_defs Let_def split: if_splits option.splits
      intro: IdTable_has_create_other)+

lemma submit_all_Cons:
  "snd (submit_all cfg (c # cs) r) =
     (case fst (submit cfg c r) of
        Inl e \<Rightarrow> snd (submit cfg c r)
      | Inr v \<Rightarrow> snd (submit_all cfg cs (snd (submit cfg c r))))"
  by (auto split: prod.splits sum.splits)

lemma submit_all_keeps_live:
  "(IdTable_has (m_vertex_buffers r) x \<longrightarrow>
      IdTable_has (m_vertex_buffers (snd (submit_all cfg cs r))) x)
   \<and> (IdTable_has (m_index_buffers r) x \<longrightarrow>
      IdTable_has (m_index_buffers (snd (submit_all cfg cs r))) x)
   \<and> (IdTable_has (m_textures r) x \<longrightarrow>
      IdTable_has (m_textures (snd (submit_all cfg cs r))) x)
   \<and> (IdTable_has (m_shaders r) x \<longrightarrow>
      IdTable_has (m_shaders (snd (submit_all cfg cs r))) x)
   \<and> (IdTable_has (m_gpu_programs r) x \<longrightarrow>
      IdTable_has (m_gpu_programs (snd (submit_all cfg cs r))) x)
   \<and> (IdTable_has (m_uniforms r) x \<longrightarrow>
      IdTable_has (m_uniforms (snd (submit_all cfg cs r))) x)"
proof (induction cs arbitrary: r)
  case Nil
  then show ?case by simp
next
  case (Cons c cs)
  show ?case
  proof (cases "fst (submit cfg c r)")
    case (Inl e)
    then show ?thesis
      by (simp only: submit_all_Cons) (simp add: submit_keeps_live)
  next
    case (Inr v)
    then show ?thesis
      using Cons.IH [of "snd (submit cfg c r)"]
      by (simp only: submit_all_Cons) (simp add: submit_keeps_live)
  qed
qed

text \<open>
  Claim C9. None of the six destroy operations of the producer side changes a Handle
  Table: the tables after the call are the tables before it, so whenever the call
  returns normally the id it was given is still live. No producer call at all frees a
  slot: an id that is live stays live through every run of producer calls, whatever
  they are, and so its slot is never handed out again by a later create.
\<close>

theorem producer_destroy_keeps_tables:
  "tables (snd (destroy_vertex_buffer x r)) = tables r
   \<and> tables (snd (destroy_index_buffer x r)) = tables r
   \<and> tables (snd (destroy_texture x r)) = tables r
   \<and> tables (snd (destroy_shader x r)) = tables r
   \<and> tables (snd (destroy_gpu_program x r)) = tables r
   \<and> tables (snd (destroy_uniform x r)) = tables r
   \<and> (fst (destroy_vertex_buffer x r) = Inr () \<longrightarrow>
        IdTable_has (m_vertex_buffers (snd (destroy_vertex_buffer x r))) x)
   \<and> (fst (destroy_index_buffer x r) = Inr () \<longrightarrow>
        IdTable_has (m_index_buffers (snd (destroy_index_buffer x r))) x)
   \<and> (fst (destroy_texture x r) = Inr () \<longrightarrow>
        IdTable_has (m_textures (snd (destroy_texture x r))) x)
   \<and> (fst (destroy_shader x r) = Inr () \<longrightarrow>
        IdTable_has (m_shaders (snd (destroy_shader x r))) x)
   \<and> (fst (destroy_gpu_program x r) = Inr () \<longrightarrow>
        IdTable_has (m_gpu_programs (snd (destroy_gpu_program x r))) x)
   \<and> (fst (destroy_uniform x r) = Inr () \<longrightarrow>
        IdTable_has (m_uniforms (snd (destroy_uniform x r))) x)
   \<and> (IdTable_has (m_vertex_buffers r) x \<longrightarrow>
        IdTable_has (m_vertex_buffers (snd (submit_all cfg calls r))) x)
   \<and> (IdTable_has (m_index_buffers r) x \<longrightarrow>
        IdTable_has (m_index_buffers (snd (submit_all cfg calls r))) x)
   \<and> (IdTable_has (m_textures r) x \<longrightarrow>
        IdTable_has (m_textures (snd (submit_all cfg calls r))) x)
   \<and> (IdTable_has (m_shaders r) x \<longrightarrow>
        IdTable_has (m_shaders (snd (submit_all cfg calls r))) x)
   \<and> (IdTable_has (m_gpu_programs r) x \<longrightarrow>
        IdTable_has (m_gpu_programs (snd (submit_all cfg calls r))) x)
   \<and> (IdTable_has (m_uniforms r) x \<longrightarrow>
        IdTable_has (m_uniforms (snd (submit_all cfg calls r))) x)"
proof -
  have same: "tables (snd (destroy_vertex_buffer x r)) = tables r"
    "tables (snd (destroy_index_buffer x r)) = tables r"
    "tables (snd (destroy_texture x r)) = tables r"
    "tables (snd (destroy_shader x r)) = tables r"
    "tables (snd (destroy_gpu_program x r)) = tables r"
    "tables (snd (destroy_uniform x r)) = tables r"
    by (simp_all add: tables_def destroy_vertex_buffer_def destroy_index_buffer_def
        destroy_texture_def destroy_shader_def destroy_gpu_program_def destroy_uniform_def)
  have still: "fst (destroy_vertex_buffer x r) = Inr () \<longrightarrow>
        IdTable_has (m_vertex_buffers (snd (destroy_vertex_buffer x r))) x"
    "fst (destroy_index_buffer x r) = Inr () \<longrightarrow>
        IdTable_has (m_index_buffers (snd (destroy_index_buffer x r))) x"
    "fst (destroy_texture x r) = Inr () \<longrightarrow>
        IdTable_has (m_textures (snd (destroy_texture x r))) x"
    "fst (destroy_shader x r) = Inr () \<longrightarrow>
        IdTable_has (m_shaders (snd (destroy_shader x r))) x"
    "fst (destroy_gpu_program x r) = Inr () \<longrightarrow>
        IdTable_has (m_gpu_programs (snd (destroy_gpu_program x r))) x"
    "fst (destroy_uniform x r) = Inr () \<longrightarrow>
        IdTable_has (m_uniforms (snd (destroy_uniform x r))) x"
    by (simp_all add: destroy_vertex_buffer_def destroy_index_buffer_def
        destroy_texture_def destroy_shader_def destroy_gpu_program_def destroy_uniform_def)
  from same still submit_all_keeps_live [of r x cfg calls] show ?thesis
    by (intro conjI) blast+
qed

theorem producer_destroy_keeps_tables_witness:
  "fst (submit_all small_config
         [Create_vertex_buffer 3 (VertexFormat 0) 0, Destroy_vertex_buffer (Id 0 0),
          Create_vertex_buffer 3 (VertexFormat 0) 0]
         (Renderer_init small_config))
     = Inr [Some (Id 0 0), None, Some (Id 1 0)]
   \<and> IdTable_has
       (m_vertex_buffers (snd (submit_all small_config [Create_vertex_buffer 3 (VertexFormat 0) 0]
          (Renderer_init small_config)))) (Id 0 0)
   \<and> fst (destroy_vertex_buffer (Id 0 0)
         (snd (submit_all small_config [Create_vertex_buffer 3 (VertexFormat 0) 0]
           (Renderer_init small_config)))) = Inr ()
   \<and> IdTable_has
       (m_vertex_buffers (snd (destroy_vertex_buffer (Id 0 0)
          (snd (submit_all small_config [Create_vertex_buffer 3 (VertexFormat 0) 0]
            (Renderer_init small_config)))))) (Id 0 0)
   \<and> IdTable_has
       (m_vertex_buffers (snd (submit_all small_config
          [Destroy_vertex_buffer (Id 0 0), Create_vertex_buffer 3 (VertexFormat 0) 0]
          (snd (submit_all small_config [Create_vertex_buffer 3 (VertexFormat 0) 0]
            (Renderer_init small_config)))))) (Id 0 0)"
proof -
  let ?r0 = "Renderer_init small_config"
  let ?r1 = "snd (submit_all small_config [Create_vertex_buffer 3 (VertexFormat 0) 0] ?r0)"
  have t0: "m_vertex_buffers ?r0 = [\<lparr>live = False, generation = 0\<rparr>, \<lparr>live = False, generation = 0\<rparr>]"
    by (simp add: Renderer_init_def small_config_def IdTable_init_def numeral_2_eq_2)
  have c0: "IdTable_create [\<lparr>live = False, generation = 0\<rparr>, \<lparr>live = False, generation = 0\<rparr>]
      = Some (Id 0 0, [\<lparr>live = True, generation = 0\<rparr>, \<lparr>live = False, generation = 0\<rparr>])"
    by (simp add: IdTable_create_def)
  have c1: "IdTable_create [\<lparr>live = True, generation = 0\<rparr>, \<lparr>live = False, generation = 0\<rparr>]
      = Some (Id 1 0, [\<lparr>live = True, generation = 0\<rparr>, \<lparr>live = True, generation = 0\<rparr>])"
    by (simp add: IdTable_create_def)
  have h: "IdTable_has [\<lparr>live = True, generation = 0\<rparr>, \<lparr>live = False, generation = 0\<rparr>] (Id 0 0)"
    by (simp add: IdTable_has_def)
  have run: "fst (submit_all small_config
         [Create_vertex_buffer 3 (VertexFormat 0) 0, Destroy_vertex_buffer (Id 0 0),
          Create_vertex_buffer 3 (VertexFormat 0) 0] ?r0)
     = Inr [Some (Id 0 0), None, Some (Id 1 0)]"
    by (simp add: create_vertex_buffer_def destroy_vertex_buffer_def t0 c0 c1 h)
  have live: "IdTable_has (m_vertex_buffers ?r1) (Id 0 0)"
    by (simp add: create_vertex_buffer_def t0 c0 h)
  then have ok: "fst (destroy_vertex_buffer (Id 0 0) ?r1) = Inr ()"
    by (simp add: destroy_vertex_buffer_def)
  note T = producer_destroy_keeps_tables [where r = ?r1 and x = "Id 0 0" and cfg = small_config
      and calls = "[Destroy_vertex_buffer (Id 0 0), Create_vertex_buffer 3 (VertexFormat 0) 0]"]
  from T ok have 1: "IdTable_has (m_vertex_buffers (snd (destroy_vertex_buffer (Id 0 0) ?r1))) (Id 0 0)"
    by - (elim conjE, simp)
  from T live have 2: "IdTable_has
       (m_vertex_buffers (snd (submit_all small_config
          [Destroy_vertex_buffer (Id 0 0), Create_vertex_buffer 3 (VertexFormat 0) 0] ?r1))) (Id 0 0)"
    by - (elim conjE, simp)
  from run live ok 1 2 show ?thesis by (intro conjI)
qed

section \<open>Creating a uniform\<close>

lemma IdTable_live_create:
  assumes "IdTable_create t = Some (x, t')"
  shows "length (IdTable_live t') = Suc (length (IdTable_live t))"
proof -
  have "set (IdTable_live t') = insert x (set (IdTable_live t))"
  proof (rule set_eqI)
    fix y
    show "y \<in> set (IdTable_live t') \<longleftrightarrow> y \<in> insert x (set (IdTable_live t))"
      using IdTable_has_create [OF assms] IdTable_has_create_other [OF assms, of y]
        IdTable_has_create_cases [OF assms, of y]
      by (simp add: set_IdTable_live) blast
  qed
  moreover have "x \<notin> set (IdTable_live t)"
    using IdTable_has_create [OF assms] by (simp add: set_IdTable_live)
  ultimately have "card (set (IdTable_live t')) = Suc (card (set (IdTable_live t)))"
    by simp
  then show ?thesis
    by (simp add: distinct_card distinct_IdTable_live)
qed

text \<open>
  Claim C10. \<open>create_uniform\<close> checks the stock name before it allocates: on a stock name
  it faults with the renderer unchanged. The length of the name is checked only after
  \<open>m_uniforms.create()\<close>: when that check faults, the renderer that is left holds the table
  returned by \<open>create()\<close>, in which the new id is live, where it was not before, and one
  more slot is taken; nothing else of the renderer has changed.
\<close>

theorem create_uniform_not_atomic:
  "(name_to_stock_uniform cfg name \<noteq> COUNT \<longrightarrow>
      create_uniform cfg name type num r = (Inl Uniform_name_is_a_stock_uniform, r))
   \<and> (name_to_stock_uniform cfg name = COUNT
        \<and> IdTable_create (m_uniforms r) = Some (x, t)
        \<and> \<not> strlen name < CROWN_MAX_UNIFORM_NAME_LENGTH cfg \<longrightarrow>
      create_uniform cfg name type num r = (Inl Max_uniform_name_length, r\<lparr>m_uniforms := t\<rparr>)
      \<and> IdTable_has t x \<and> \<not> IdTable_has (m_uniforms r) x
      \<and> length (IdTable_live t) = Suc (length (IdTable_live (m_uniforms r))))"
proof (rule conjI; rule impI)
  assume "name_to_stock_uniform cfg name \<noteq> COUNT"
  then show "create_uniform cfg name type num r = (Inl Uniform_name_is_a_stock_uniform, r)"
    by (simp add: create_uniform_def)
next
  assume a: "name_to_stock_uniform cfg name = COUNT
        \<and> IdTable_create (m_uniforms r) = Some (x, t)
        \<and> \<not> strlen name < CROWN_MAX_UNIFORM_NAME_LENGTH cfg"
  then have c: "IdTable_create (m_uniforms r) = Some (x, t)" by simp
  from a have "create_uniform cfg name type num r
      = (Inl Max_uniform_name_length, r\<lparr>m_uniforms := t\<rparr>)"
    by (simp add: create_uniform_def Let_def)
  with IdTable_has_create [OF c] IdTable_live_create [OF c]
  show "create_uniform cfg name type num r = (Inl Max_uniform_name_length, r\<lparr>m_uniforms := t\<rparr>)
      \<and> IdTable_has t x \<and> \<not> IdTable_has (m_uniforms r) x
      \<and> length (IdTable_live t) = Suc (length (IdTable_live (m_uniforms r)))"
    by simp
qed

lemma small_uniforms:
  "m_uniforms (Renderer_init small_config)
     = [\<lparr>live = False, generation = 0\<rparr>, \<lparr>live = False, generation = 0\<rparr>]"
  by (simp add: Renderer_init_def small_config_def IdTable_init_def numeral_2_eq_2)

lemma small_uniforms_create:
  "IdTable_create (m_uniforms (Renderer_init small_config))
     = Some (Id 0 0, [\<lparr>live = True, generation = 0\<rparr>, \<lparr>live = False, generation = 0\<rparr>])"
  by (simp add: small_uniforms IdTable_create_def)

lemma small_config_simps:
  "CROWN_MAX_UNIFORM_NAME_LENGTH small_config = 4"
  "name_to_stock_uniform small_config ''u_view'' = ShaderUniform 0"
  "name_to_stock_uniform small_config ''abc'' = COUNT"
  "name_to_stock_uniform small_config ''abcd'' = COUNT"
  by (simp_all add: small_config_def)

lemma strlen_examples: "strlen ''abc'' = 3" "strlen ''abcd'' = 4"
  by (simp_all add: strlen_def c_str_def)

theorem create_uniform_not_atomic_witness:
  "create_uniform small_config ''u_view'' (UniformType 0) 1 (Renderer_init small_config)
     = (Inl Uniform_name_is_a_stock_uniform, Renderer_init small_config)
   \<and> create_uniform small_config ''abcd'' (UniformType 0) 1 (Renderer_init small_config)
     = (Inl Max_uniform_name_length,
        (Renderer_init small_config)
          \<lparr>m_uniforms := [\<lparr>live = True, generation = 0\<rparr>, \<lparr>live = False, generation = 0\<rparr>]\<rparr>)
   \<and> IdTable_has [\<lparr>live = True, generation = 0\<rparr>, \<lparr>live = False, generation = 0\<rparr>] (Id 0 0)
   \<and> \<not> IdTable_has (m_uniforms (Renderer_init small_config)) (Id 0 0)
   \<and> length (IdTable_live [\<lparr>live = True, generation = 0\<rparr>, \<lparr>live = False, generation = 0\<rparr>])
     = Suc (length (IdTable_live (m_uniforms (Renderer_init small_config))))"
proof -
  let ?r0 = "Renderer_init small_config"
  let ?t = "[\<lparr>live = True, generation = 0\<rparr>, \<lparr>live = False, generation = 0\<rparr>]"
  note S = create_uniform_not_atomic [where cfg = small_config and name = "''u_view''"
      and type = "UniformType 0" and num = 1 and r = ?r0, THEN conjunct1]
  note L = create_uniform_not_atomic [where cfg = small_config and name = "''abcd''"
      and type = "UniformType 0" and num = 1 and r = ?r0 and x = "Id 0 0" and t = ?t,
      THEN conjunct2]
  have 1: "create_uniform small_config ''u_view'' (UniformType 0) 1 ?r0
     = (Inl Uniform_name_is_a_stock_uniform, ?r0)"
    using S by (simp add: small_config_simps)
  have 2: "create_uniform small_config ''abcd'' (UniformType 0) 1 ?r0
      = (Inl Max_uniform_name_length, ?r0\<lparr>m_uniforms := ?t\<rparr>)
      \<and> IdTable_has ?t (Id 0 0) \<and> \<not> IdTable_has (m_uniforms ?r0) (Id 0 0)
      \<and> length (IdTable_live ?t) = Suc (length (IdTable_live (m_uniforms ?r0)))"
    using L small_uniforms_create by (simp add: small_config_simps strlen_examples)
  from 1 2 show ?thesis by simp
qed

text \<open>
  Claim C7, as the code has it. The length check of \<open>create_uniform\<close> is strict: with a
  name that is no stock uniform and a free slot in the uniform table, the call succeeds
  exactly when the name has fewer than \<open>CROWN_MAX_UNIFORM_NAME_LENGTH\<close> characters. The
  longest name that succeeds has \<open>CROWN_MAX_UNIFORM_NAME_LENGTH - 1\<close> characters, and a name
  one character longer, of exactly \<open>CROWN_MAX_UNIFORM_NAME_LENGTH\<close> characters, faults the
  length check.
\<close>

theorem create_uniform_name_length_bound:
  assumes "name_to_stock_uniform cfg name = COUNT"
    and "IdTable_create (m_uniforms r) = Some (x, t)"
  shows "(strlen name < CROWN_MAX_UNIFORM_NAME_LENGTH cfg \<longrightarrow>
            fst (create_uniform cfg name type num r) = Inr x)
    \<and> (CROWN_MAX_UNIFORM_NAME_LENGTH cfg \<le> strlen name \<longrightarrow>
            fst (create_uniform cfg name type num r) = Inl Max_uniform_name_length)
    \<and> (0 < CROWN_MAX_UNIFORM_NAME_LENGTH cfg
          \<and> strlen name = CROWN_MAX_UNIFORM_NAME_LENGTH cfg - 1 \<longrightarrow>
            fst (create_uniform cfg name type num r) = Inr x)
    \<and> (strlen name = CROWN_MAX_UNIFORM_NAME_LENGTH cfg \<longrightarrow>
            fst (create_uniform cfg name type num r) = Inl Max_uniform_name_length)"
  using assms by (auto simp: create_uniform_def Let_def)

theorem create_uniform_name_length_bound_witness:
  "strlen ''abc'' = CROWN_MAX_UNIFORM_NAME_LENGTH small_config - 1
   \<and> fst (create_uniform small_config ''abc'' (UniformType 0) 1 (Renderer_init small_config))
     = Inr (Id 0 0)
   \<and> strlen ''abcd'' = CROWN_MAX_UNIFORM_NAME_LENGTH small_config
   \<and> fst (create_uniform small_config ''abcd'' (UniformType 0) 1 (Renderer_init small_config))
     = Inl Max_uniform_name_length"
proof -
  let ?r0 = "Renderer_init small_config"
  note A = create_uniform_name_length_bound [where cfg = small_config and name = "''abc''"
      and type = "UniformType 0" and num = 1 and r = ?r0, OF _ small_uniforms_create]
  note B = create_uniform_name_length_bound [where cfg = small_config and name = "''abcd''"
      and type = "UniformType 0" and num = 1 and r = ?r0, OF _ small_uniforms_create]
  have 1: "fst (create_uniform small_config ''abc'' (UniformType 0) 1 ?r0) = Inr (Id 0 0)"
    using A by (simp add: small_config_simps strlen_examples)
  have 2: "fst (create_uniform small_config ''abcd'' (UniformType 0) 1 ?r0)
      = Inl Max_uniform_name_length"
    using B by (simp add: small_config_simps strlen_examples)
  from 1 2 show ?thesis by (simp add: small_config_simps strlen_examples)
qed

text \<open>
  A name of exactly \<open>CROWN_MAX_UNIFORM_NAME_LENGTH\<close> characters, the length the message of
  the check calls the maximum, does not succeed.
\<close>

theorem create_uniform_max_length_faults:
  "strlen ''abcd'' = CROWN_MAX_UNIFORM_NAME_LENGTH small_config
   \<and> name_to_stock_uniform small_config ''abcd'' = COUNT
   \<and> IdTable_create (m_uniforms (Renderer_init small_config)) \<noteq> None
   \<and> fst (create_uniform small_config ''abcd'' (UniformType 0) 1 (Renderer_init small_config))
     = Inl Max_uniform_name_length"
  by (simp add: create_uniform_def Let_def small_config_simps strlen_examples
      small_uniforms_create)

section \<open>Reading a stream\<close>

lemma read_as_peek:
  "read_as p cmds =
     (case peek cmds of
        [] \<Rightarrow> Inl Read_past_end
      | x # xs \<Rightarrow> (case p x of None \<Rightarrow> Inl Type_mismatch | Some v \<Rightarrow> Inr (v, skip 1 cmds)))"
proof (cases "m_read cmds < length (m_buffer cmds)")
  case True
  then have "peek cmds = m_buffer cmds ! m_read cmds # drop (Suc (m_read cmds)) (m_buffer cmds)"
    by (simp add: peek_def Cons_nth_drop_Suc)
  with True show ?thesis
    by (simp add: read_as_def CommandBuffer_read_def skip_def split: option.split)
next
  case False
  then show ?thesis
    by (simp add: read_as_def CommandBuffer_read_def peek_def)
qed

lemma peek_skip [simp]: "peek (skip n cmds) = drop n (peek cmds)"
  by (simp add: peek_def skip_def add.commute)

lemma m_buffer_skip [simp]: "m_buffer (skip n cmds) = m_buffer cmds"
  by (simp add: skip_def)

lemma peek_Nil_iff: "peek cmds = [] \<longleftrightarrow> length (m_buffer cmds) \<le> m_read cmds"
  by (simp add: peek_def)

lemma trace_effect [simp]: "trace (effect call r) = trace r @ [Impl call]"
  by (cases call) (simp_all add: impl_def)

lemma trace_fold_effect: "trace (fold effect recs r) = trace r @ map Impl recs"
  by (induction recs arbitrary: r) simp_all

section \<open>Decoding what was encoded\<close>

text \<open>One round of the loop of \<open>execute_commands\<close> on the layout of a supported record.\<close>

lemma dispatch_wire:
  assumes "supported cfg call" and "peek cmds = wire call @ rest"
  shows "\<exists>opcode cmds'.
      read_as as_command cmds = Inr (opcode, skip 1 cmds)
      \<and> dispatch cfg opcode (skip 1 cmds) r = Inr (False, cmds', effect call r)
      \<and> peek cmds' = rest \<and> m_buffer cmds' = m_buffer cmds"
  using assms by (cases call) (simp_all add: read_as_peek)

lemma execute_commands_loop_wire:
  assumes "supported cfg call" and "peek cmds = wire call @ rest"
  shows "\<exists>cmds'.
      execute_commands_loop cfg cmds r = execute_commands_loop cfg cmds' (effect call r)
      \<and> peek cmds' = rest \<and> m_buffer cmds' = m_buffer cmds"
proof -
  from dispatch_wire [OF assms, of r] obtain opcode cmds' where
    "read_as as_command cmds = Inr (opcode, skip 1 cmds)"
    "dispatch cfg opcode (skip 1 cmds) r = Inr (False, cmds', effect call r)"
    "peek cmds' = rest" "m_buffer cmds' = m_buffer cmds"
    by blast
  then show ?thesis
    by (subst execute_commands_loop.simps) auto
qed

lemma execute_commands_loop_END:
  assumes "peek cmds = Command END # rest"
  shows "execute_commands_loop cfg cmds r = Inr (skip 1 cmds, r)"
  using assms by (subst execute_commands_loop.simps) (simp add: read_as_peek)

lemma execute_commands_loop_records:
  assumes "\<forall>call \<in> set recs. supported cfg call"
    and "peek cmds = concat (map wire recs) @ Command END # rest"
  shows "\<exists>cmds'.
      execute_commands_loop cfg cmds r = Inr (cmds', fold effect recs r)
      \<and> peek cmds' = rest \<and> m_buffer cmds' = m_buffer cmds"
  using assms
proof (induction recs arbitrary: cmds r)
  case Nil
  then show ?case
    using execute_commands_loop_END [of cmds rest cfg r] by simp
next
  case (Cons call recs)
  from Cons.prems have s: "supported cfg call"
    and p: "peek cmds = wire call @ (concat (map wire recs) @ Command END # rest)"
    by simp_all
  from execute_commands_loop_wire [OF s p, of r] obtain cmds1 where
    1: "execute_commands_loop cfg cmds r = execute_commands_loop cfg cmds1 (effect call r)"
    and 2: "peek cmds1 = concat (map wire recs) @ Command END # rest"
    and 3: "m_buffer cmds1 = m_buffer cmds"
    by blast
  from Cons.prems have "\<forall>call \<in> set recs. supported cfg call"
    by simp
  from Cons.IH [OF this 2, of "effect call r"] 1 3 show ?case
    by auto
qed

section \<open>What the producer writes\<close>

lemma deref_update [simp]:
  "deref (r\<lparr>m_submit := p\<rparr>) q = deref r q"
  "deref (r\<lparr>m_draw := p\<rparr>) q = deref r q"
  "deref (r\<lparr>m_vertex_buffers := t\<rparr>) q = deref r q"
  "deref (r\<lparr>m_index_buffers := t\<rparr>) q = deref r q"
  "deref (r\<lparr>m_textures := t\<rparr>) q = deref r q"
  "deref (r\<lparr>m_shaders := t\<rparr>) q = deref r q"
  "deref (r\<lparr>m_gpu_programs := t\<rparr>) q = deref r q"
  "deref (r\<lparr>m_uniforms := t\<rparr>) q = deref r q"
  "deref (r\<lparr>m_render_targets := t\<rparr>) q = deref r q"
  "deref (r\<lparr>m_is_initialized := b\<rparr>) q = deref r q"
  "deref (r\<lparr>m_should_run := b\<rparr>) q = deref r q"
  "deref (r\<lparr>m_render_wait := n\<rparr>) q = deref r q"
  "deref (r\<lparr>m_main_wait := n\<rparr>) q = deref r q"
  "deref (r\<lparr>trace := es\<rparr>) q = deref r q"
  by (cases q; simp add: deref_def)+

lemma submit_write_commands:
  "m_submit r = p \<Longrightarrow>
   m_commands (deref (submit_write x r) p) = CommandBuffer_write x (m_commands (deref r p))"
  by (simp add: submit_write_apply)

lemma submit_writes_commands:
  "m_submit r = p \<Longrightarrow>
   m_commands (deref (submit_writes xs r) p)
     = (m_commands (deref r p))\<lparr>m_buffer := m_buffer (m_commands (deref r p)) @ xs\<rparr>"
  unfolding submit_writes_def
proof (induction xs arbitrary: r)
  case Nil
  then show ?case by simp
next
  case (Cons x xs)
  from Cons.prems Cons.IH [of "submit_write x r"] show ?case
    by (simp add: CommandBuffer_write_def submit_write_commands)
qed

lemma m_commands_context_set [simp]:
  "m_commands (context_set call c) = m_commands c"
  "m_commands (context_set_uniform x type val num c) = m_commands c"
  by (simp_all add: context_set_def context_set_uniform_def)

lemma c_str_idem [simp]: "c_str (c_str s) = c_str s"
  by (simp add: c_str_def)

lemma take_strlen: "take (length (c_str s)) s = c_str s"
  unfolding c_str_def by (rule takeWhile_eq_take [symmetric])

text \<open>
  A successful producer call appends the layout of the records it writes, and nothing
  else, to the Command Stream of the submit context; the records are supported.
\<close>

lemma submit_writes_records:
  assumes "submit cfg c r = (Inr v, r')"
  shows "m_submit r' = m_submit r
    \<and> m_buffer (m_commands (deref r' (m_submit r)))
        = m_buffer (m_commands (deref r (m_submit r))) @ concat (map wire (written c r v))
    \<and> m_read (m_commands (deref r' (m_submit r))) = m_read (m_commands (deref r (m_submit r)))
    \<and> (\<forall>call \<in> set (written c r v). supported cfg call)"
  using assms
  by (cases c)
    (auto simp: producer_defs Let_def submit_writes_commands submit_write_commands
      CommandBuffer_write_def take_strlen strlen_def
      split: if_splits option.splits)

lemma submit_all_writes_records:
  assumes "submit_all cfg cs r = (Inr vs, r')"
  shows "m_submit r' = m_submit r
    \<and> m_buffer (m_commands (deref r' (m_submit r)))
        = m_buffer (m_commands (deref r (m_submit r))) @ concat (map wire (records cfg cs r))
    \<and> m_read (m_commands (deref r' (m_submit r))) = m_read (m_commands (deref r (m_submit r)))
    \<and> (\<forall>call \<in> set (records cfg cs r). supported cfg call)"
  using assms
proof (induction cs arbitrary: r vs)
  case Nil
  then show ?case by simp
next
  case (Cons c cs)
  from Cons.prems obtain v r1 ws where c: "submit cfg c r = (Inr v, r1)"
    and cs: "submit_all cfg cs r1 = (Inr ws, r')"
    by (auto split: prod.splits sum.splits)
  from submit_writes_records [OF c] Cons.IH [OF cs] c show ?case
    by auto
qed

lemma count_list_END_wire: "count_list (wire call) (Command END) = 0"
  by (cases call) simp_all

lemma count_list_END_records:
  "count_list (concat (map wire recs)) (Command END) = 0"
  by (induction recs) (simp_all add: count_list_END_wire)

lemma m_commands_push [simp]:
  "m_commands (push c) = CommandBuffer_write (Command END) (m_commands c)"
  by (simp add: push_def)

text \<open>
  Claim C5. Take any run of producer calls, none of which faults, on a renderer whose
  submit Command Stream is fresh. The stream then holds exactly the layouts of the records
  the calls wrote, in order. Closed by \<open>push\<close> and given to \<open>execute_commands\<close>, it is decoded
  without a fault: the loop stops having read the whole stream, whose only END record is
  the last one it read; the backend calls it made, in order, are exactly the records
  written, with their operands; and the stream it leaves, after \<open>clear()\<close>, is the
  freshly constructed one.
\<close>

theorem command_stream_round_trip:
  assumes run: "submit_all cfg calls r0 = (Inr vs, r)"
    and fresh: "m_commands (deref r0 (m_submit r0)) = CommandBuffer_init"
  shows "m_buffer (m_commands (deref r (m_submit r))) = concat (map wire (records cfg calls r0))
    \<and> (\<exists>cmds' r'.
        execute_commands_loop cfg (m_commands (push (deref r (m_submit r)))) r = Inr (cmds', r')
        \<and> m_buffer cmds' = concat (map wire (records cfg calls r0)) @ [Command END]
        \<and> count_list (m_buffer cmds') (Command END) = 1
        \<and> unread cmds' = 0
        \<and> trace r' = trace r @ map Impl (records cfg calls r0)
        \<and> execute_commands cfg (m_commands (push (deref r (m_submit r)))) r
            = Inr (CommandBuffer_clear cmds', r')
        \<and> CommandBuffer_clear cmds' = CommandBuffer_init)"
proof -
  let ?recs = "records cfg calls r0"
  let ?cmds = "m_commands (push (deref r (m_submit r)))"
  from submit_all_writes_records [OF run] fresh
  have s: "m_submit r = m_submit r0"
    and b: "m_buffer (m_commands (deref r (m_submit r))) = concat (map wire ?recs)"
    and c: "m_read (m_commands (deref r (m_submit r))) = 0"
    and ok: "\<forall>call \<in> set ?recs. supported cfg call"
    by (simp_all add: CommandBuffer_init_def)
  from b c have p: "peek ?cmds = concat (map wire ?recs) @ Command END # []"
    and m: "m_buffer ?cmds = concat (map wire ?recs) @ [Command END]"
    by (simp_all add: peek_def CommandBuffer_write_def)
  from execute_commands_loop_records [OF ok p, of r] obtain cmds' where
    l: "execute_commands_loop cfg ?cmds r = Inr (cmds', fold effect ?recs r)"
    and e: "peek cmds' = []" and m': "m_buffer cmds' = m_buffer ?cmds"
    by blast
  from e have u: "unread cmds' = 0"
    by (simp add: peek_Nil_iff unread_def)
  from m m' have n: "count_list (m_buffer cmds') (Command END) = 1"
    by (simp add: count_list_END_records)
  from l have x: "execute_commands cfg ?cmds r = Inr (CommandBuffer_clear cmds', fold effect ?recs r)"
    by (simp add: execute_commands_def)
  have i: "CommandBuffer_clear cmds' = CommandBuffer_init"
    by (simp add: CommandBuffer_clear_def CommandBuffer_init_def)
  from b l m m' n u x i trace_fold_effect [of ?recs r] show ?thesis
    by auto
qed

theorem command_stream_round_trip_witness:
  "fst (submit_all small_config
         [Init, Create_vertex_buffer 3 (VertexFormat 0) 7,
          Create_uniform ''abc'' (UniformType 1) 1, Destroy_vertex_buffer (Id 0 0)]
         (Renderer_init small_config))
     = Inr [None, Some (Id 0 0), Some (Id 0 0), None]
   \<and> m_commands (deref (Renderer_init small_config) (m_submit (Renderer_init small_config)))
     = CommandBuffer_init
   \<and> (\<exists>r'. execute_commands small_config
         (m_commands (push (deref
           (snd (submit_all small_config
             [Init, Create_vertex_buffer 3 (VertexFormat 0) 7,
              Create_uniform ''abc'' (UniformType 1) 1, Destroy_vertex_buffer (Id 0 0)]
             (Renderer_init small_config)))
           (m_submit (snd (submit_all small_config
             [Init, Create_vertex_buffer 3 (VertexFormat 0) 7,
              Create_uniform ''abc'' (UniformType 1) 1, Destroy_vertex_buffer (Id 0 0)]
             (Renderer_init small_config)))))))
         (snd (submit_all small_config
           [Init, Create_vertex_buffer 3 (VertexFormat 0) 7,
            Create_uniform ''abc'' (UniformType 1) 1, Destroy_vertex_buffer (Id 0 0)]
           (Renderer_init small_config)))
       = Inr (CommandBuffer_init, r')
       \<and> trace r'
         = [Impl init_impl,
            Impl (create_vertex_buffer_impl (Id 0 0) 3 (VertexFormat 0) 7),
            Impl (create_uniform_impl (Id 0 0) ''abc'' (UniformType 1) 1),
            Impl (destroy_vertex_buffer_impl (Id 0 0))])"
proof -
  let ?start = "Renderer_init small_config"
  let ?calls = "[Init, Create_vertex_buffer 3 (VertexFormat 0) 7,
      Create_uniform ''abc'' (UniformType 1) 1, Destroy_vertex_buffer (Id 0 0)]"
  let ?final = "snd (submit_all small_config ?calls ?start)"
  have vs: "fst (submit_all small_config ?calls ?start) = Inr [None, Some (Id 0 0), Some (Id 0 0), None]"
    by code_simp
  then have run: "submit_all small_config ?calls ?start
      = (Inr [None, Some (Id 0 0), Some (Id 0 0), None], ?final)"
    by (simp add: prod_eq_iff)
  have fresh: "m_commands (deref ?start (m_submit ?start)) = CommandBuffer_init"
    by (simp add: Renderer_init_def deref_def RenderContext_init_def)
  have recs: "records small_config ?calls ?start
      = [init_impl, create_vertex_buffer_impl (Id 0 0) 3 (VertexFormat 0) 7,
         create_uniform_impl (Id 0 0) ''abc'' (UniformType 1) 1,
         destroy_vertex_buffer_impl (Id 0 0)]"
    by code_simp
  have tr: "trace ?final = []"
    by code_simp
  from command_stream_round_trip [OF run fresh] recs tr vs fresh show ?thesis
    by auto
qed

section \<open>What the consumer side changes\<close>

lemma effect_fields [simp]:
  "m_contexts (effect call r) = m_contexts r"
  "m_submit (effect call r) = m_submit r"
  "m_draw (effect call r) = m_draw r"
  "tables (effect call r) = tables r"
  "m_render_wait (effect call r) = m_render_wait r"
  "m_main_wait (effect call r) = m_main_wait r"
  by (cases call; simp add: impl_def tables_def)+

lemma deref_effect [simp]: "deref (effect call r) q = deref r q"
  by (cases q; simp add: deref_def)

lemma fold_effect_fields [simp]:
  "m_contexts (fold effect calls r) = m_contexts r"
  "m_submit (fold effect calls r) = m_submit r"
  "m_draw (fold effect calls r) = m_draw r"
  "tables (fold effect calls r) = tables r"
  "m_render_wait (fold effect calls r) = m_render_wait r"
  "m_main_wait (fold effect calls r) = m_main_wait r"
  by (induction calls arbitrary: r; simp)+

lemma deref_fold_effect [simp]: "deref (fold effect calls r) q = deref r q"
  by (cases q; simp add: deref_def)

lemma effect_flags_unchanged:
  "is_uniform_update call \<Longrightarrow> m_is_initialized (effect call r) = m_is_initialized r"
  "is_uniform_update call \<Longrightarrow> m_should_run (effect call r) = m_should_run r"
  by (cases call; simp add: impl_def)+

lemma fold_effect_flags_unchanged:
  "\<forall>call \<in> set calls. is_uniform_update call \<Longrightarrow>
     m_is_initialized (fold effect calls r) = m_is_initialized r
     \<and> m_should_run (fold effect calls r) = m_should_run r"
  by (induction calls arbitrary: r) (simp_all add: effect_flags_unchanged)

text \<open>
  A case of the dispatcher either sets the flag \<open>end\<close> and changes nothing, or makes the
  backend call of one Command Record.
\<close>

lemma dispatch_effect:
  assumes "dispatch cfg command cmds r = Inr (fin, cmds', r')"
  shows "(fin \<and> r' = r) \<or> (\<not> fin \<and> (\<exists>call. is_command_record call \<and> r' = effect call r))"
proof (cases command)
  case END
  with assms show ?thesis by simp
next
  case (OTHER_COMMAND n)
  with assms show ?thesis by simp
next
  case INIT_RENDERER
  with assms have "\<not> fin" "r' = effect init_impl r" by auto
  then show ?thesis
    by (intro disjI2 conjI exI [of _ init_impl]) (simp_all add: is_command_record_def)
next
  case SHUTDOWN_RENDERER
  with assms have "\<not> fin" "r' = effect shutdown_impl r" by auto
  then show ?thesis
    by (intro disjI2 conjI exI [of _ shutdown_impl]) (simp_all add: is_command_record_def)
next
  case CREATE_VERTEX_BUFFER
  with assms obtain a b c d where "\<not> fin" "r' = effect (create_vertex_buffer_impl a b c d) r"
    by (auto dest!: and_then_Inr)
  then show ?thesis
    by (intro disjI2 conjI exI [of _ "create_vertex_buffer_impl a b c d"])
      (simp_all add: is_command_record_def)
next
  case CREATE_DYNAMIC_VERTEX_BUFFER
  with assms obtain a b c where "\<not> fin" "r' = effect (create_dynamic_vertex_buffer_impl a b c) r"
    by (auto dest!: and_then_Inr)
  then show ?thesis
    by (intro disjI2 conjI exI [of _ "create_dynamic_vertex_buffer_impl a b c"])
      (simp_all add: is_command_record_def)
next
  case UPDATE_VERTEX_BUFFER
  with assms obtain a b c d where "\<not> fin" "r' = effect (update_vertex_buffer_impl a b c d) r"
    by (auto dest!: and_then_Inr)
  then show ?thesis
    by (intro disjI2 conjI exI [of _ "update_vertex_buffer_impl a b c d"])
      (simp_all add: is_command_record_def)
next
  case DESTROY_VERTEX_BUFFER
  with assms obtain a where "\<not> fin" "r' = effect (destroy_vertex_buffer_impl a) r"
    by (auto dest!: and_then_Inr)
  then show ?thesis
    by (intro disjI2 conjI exI [of _ "destroy_vertex_buffer_impl a"])
      (simp_all add: is_command_record_def)
next
  case CREATE_INDEX_BUFFER
  with assms obtain a b c where "\<not> fin" "r' = effect (create_index_buffer_impl a b c) r"
    by (auto dest!: and_then_Inr)
  then show ?thesis
    by (intro disjI2 conjI exI [of _ "create_index_buffer_impl a b c"])
      (simp_all add: is_command_record_def)
next
  case CREATE_DYNAMIC_INDEX_BUFFER
  with assms obtain a b where "\<not> fin" "r' = effect (create_dynamic_index_buffer_impl a b) r"
    by (auto dest!: and_then_Inr)
  then show ?thesis
    by (intro disjI2 conjI exI [of _ "create_dynamic_index_buffer_impl a b"])
      (simp_all add: is_command_record_def)
next
  case UPDATE_INDEX_BUFFER
  with assms obtain a b c d where "\<not> fin" "r' = effect (update_index_buffer_impl a b c d) r"
    by (auto dest!: and_then_Inr)
  then show ?thesis
    by (intro disjI2 conjI exI [of _ "update_index_buffer_impl a b c d"])
      (simp_all add: is_command_record_def)
next
  case DESTROY_INDEX_BUFFER
  with assms obtain a where "\<not> fin" "r' = effect (destroy_index_buffer_impl a) r"
    by (auto dest!: and_then_Inr)
  then show ?thesis
    by (intro disjI2 conjI exI [of _ "destroy_index_buffer_impl a"])
      (simp_all add: is_command_record_def)
next
  case CREATE_TEXTURE
  with assms obtain a b c d e where "\<not> fin" "r' = effect (create_texture_impl a b c d e) r"
    by (auto dest!: and_then_Inr)
  then show ?thesis
    by (intro disjI2 conjI exI [of _ "create_texture_impl a b c d e"])
      (simp_all add: is_command_record_def)
next
  case UPDATE_TEXTURE
  with assms obtain a b c d e f where "\<not> fin" "r' = effect (update_texture_impl a b c d e f) r"
    by (auto dest!: and_then_Inr)
  then show ?thesis
    by (intro disjI2 conjI exI [of _ "update_texture_impl a b c d e f"])
      (simp_all add: is_command_record_def)
next
  case DESTROY_TEXTURE
  with assms obtain a where "\<not> fin" "r' = effect (destroy_texture_impl a) r"
    by (auto dest!: and_then_Inr)
  then show ?thesis
    by (intro disjI2 conjI exI [of _ "destroy_texture_impl a"])
      (simp_all add: is_command_record_def)
next
  case CREATE_SHADER
  with assms obtain a b c where "\<not> fin" "r' = effect (create_shader_impl a b c) r"
    by (auto dest!: and_then_Inr)
  then show ?thesis
    by (intro disjI2 conjI exI [of _ "create_shader_impl a b c"])
      (simp_all add: is_command_record_def)
next
  case DESTROY_SHADER
  with assms obtain a where "\<not> fin" "r' = effect (destroy_shader_impl a) r"
    by (auto dest!: and_then_Inr)
  then show ?thesis
    by (intro disjI2 conjI exI [of _ "destroy_shader_impl a"])
      (simp_all add: is_command_record_def)
next
  case CREATE_GPU_PROGRAM
  with assms obtain a b c where "\<not> fin" "r' = effect (create_gpu_program_impl a b c) r"
    by (auto dest!: and_then_Inr)
  then show ?thesis
    by (intro disjI2 conjI exI [of _ "create_gpu_program_impl a b c"])
      (simp_all add: is_command_record_def)
next
  case DESTROY_GPU_PROGRAM
  with assms obtain a where "\<not> fin" "r' = effect (destroy_gpu_program_impl a) r"
    by (auto dest!: and_then_Inr)
  then show ?thesis
    by (intro disjI2 conjI exI [of _ "destroy_gpu_program_impl a"])
      (simp_all add: is_command_record_def)
next
  case CREATE_UNIFORM
  with assms obtain a b c d where "\<not> fin" "r' = effect (create_uniform_impl a b c d) r"
    by (auto dest!: and_then_Inr split: if_splits)
  then show ?thesis
    by (intro disjI2 conjI exI [of _ "create_uniform_impl a b c d"])
      (simp_all add: is_command_record_def)
next
  case DESTROY_UNIFORM
  with assms obtain a where "\<not> fin" "r' = effect (destroy_uniform_impl a) r"
    by (auto dest!: and_then_Inr)
  then show ?thesis
    by (intro disjI2 conjI exI [of _ "destroy_uniform_impl a"])
      (simp_all add: is_command_record_def)
qed

lemma execute_commands_loop_effect:
  "execute_commands_loop cfg cmds r = Inr (cmds', r') \<Longrightarrow>
     \<exists>calls. (\<forall>call \<in> set calls. is_command_record call) \<and> r' = fold effect calls r"
proof (induction cfg cmds r rule: execute_commands_loop.induct)
  case (1 cfg cmds r)
  from "1.prems" obtain command cmds1 fin cmds2 r2 where
    rd: "read_as as_command cmds = Inr (command, cmds1)"
    and d: "dispatch cfg command cmds1 r = Inr (fin, cmds2, r2)"
    and rest: "if fin then r' = r2 else execute_commands_loop cfg cmds2 r2 = Inr (cmds', r')"
    by (subst (asm) execute_commands_loop.simps) (auto split: sum.splits if_splits)
  show ?case
  proof (cases fin)
    case True
    with dispatch_effect [OF d] rest have "r' = fold effect [] r" by simp
    then show ?thesis by (intro exI [of _ "[]"]) simp
  next
    case False
    with dispatch_effect [OF d] obtain call where
      c: "is_command_record call" "r2 = effect call r"
      by auto
    from False rest have "execute_commands_loop cfg cmds2 r2 = Inr (cmds', r')" by simp
    from "1.IH" [OF rd refl d refl refl False this] obtain calls where
      "\<forall>call \<in> set calls. is_command_record call" "r' = fold effect calls r2"
      by auto
    with c show ?thesis
      by (intro exI [of _ "call # calls"]) simp
  qed
qed

lemma execute_commands_effect:
  assumes "execute_commands cfg cmds r = Inr (cmds', r')"
  shows "cmds' = CommandBuffer_init
    \<and> (\<exists>calls. (\<forall>call \<in> set calls. is_command_record call) \<and> r' = fold effect calls r)"
proof -
  from assms obtain cmds1 where "execute_commands_loop cfg cmds r = Inr (cmds1, r')"
    and "cmds' = CommandBuffer_clear cmds1"
    by (auto simp: execute_commands_def split: sum.splits)
  with execute_commands_loop_effect [of cfg cmds r cmds1 r'] show ?thesis
    by (simp add: CommandBuffer_clear_def CommandBuffer_init_def)
qed

lemma update_uniform_record_effect:
  assumes "update_uniform_record cbuf r = Inr (cbuf', r')"
  shows "\<exists>call. is_uniform_update call \<and> r' = effect call r"
proof -
  from assms obtain x sz data where "r' = effect (update_uniform_impl x sz data) r"
    unfolding update_uniform_record_def by (auto dest!: and_then_Inr)
  then show ?thesis
    by (intro exI [of _ "update_uniform_impl x sz data"]) simp
qed

lemma update_uniforms_loop_effect:
  "update_uniforms_loop cbuf r = Inr (cbuf', r') \<Longrightarrow>
     \<exists>calls. (\<forall>call \<in> set calls. is_uniform_update call) \<and> r' = fold effect calls r"
proof (induction cbuf r rule: update_uniforms_loop.induct)
  case (1 cbuf r)
  from "1.prems" obtain type cbuf1 where
    rd: "ConstantBuffer_read_as as_tag cbuf = Inr (type, cbuf1)"
    and rest: "if type = UniformType_END then r' = r
       else (\<exists>cbuf2 r2. update_uniform_record cbuf1 r = Inr (cbuf2, r2)
              \<and> update_uniforms_loop cbuf2 r2 = Inr (cbuf', r'))"
    by (subst (asm) update_uniforms_loop.simps) (auto split: sum.splits if_splits)
  show ?case
  proof (cases "type = UniformType_END")
    case True
    with rest have "r' = fold effect [] r" by simp
    then show ?thesis by (intro exI [of _ "[]"]) simp
  next
    case False
    with rest obtain cbuf2 r2 where u: "update_uniform_record cbuf1 r = Inr (cbuf2, r2)"
      and l: "update_uniforms_loop cbuf2 r2 = Inr (cbuf', r')"
      by auto
    from update_uniform_record_effect [OF u] obtain call where
      c: "is_uniform_update call" "r2 = effect call r"
      by auto
    from "1.IH" [OF rd refl False u refl l] obtain calls where
      "\<forall>call \<in> set calls. is_uniform_update call" "r' = fold effect calls r2"
      by auto
    with c show ?thesis
      by (intro exI [of _ "call # calls"]) simp
  qed
qed

lemma update_uniforms_effect:
  assumes "update_uniforms cbuf r = Inr (cbuf', r')"
  shows "cbuf' = ConstantBuffer_init
    \<and> (\<exists>calls. (\<forall>call \<in> set calls. is_uniform_update call) \<and> r' = fold effect calls r)"
proof -
  from assms obtain cbuf1 where "update_uniforms_loop cbuf r = Inr (cbuf1, r')"
    and "cbuf' = ConstantBuffer_clear cbuf1"
    by (auto simp: update_uniforms_def split: sum.splits)
  with update_uniforms_loop_effect [of cbuf r cbuf1 r'] show ?thesis
    by (simp add: ConstantBuffer_clear_def ConstantBuffer_init_def)
qed

section \<open>The statements of the scheduler\<close>

lemma swap_contexts_fields [simp]:
  "m_submit (swap_contexts r) = m_draw r"
  "m_draw (swap_contexts r) = m_submit r"
  "tables (swap_contexts r) = tables r"
  "m_is_initialized (swap_contexts r) = m_is_initialized r"
  "m_should_run (swap_contexts r) = m_should_run r"
  "m_render_wait (swap_contexts r) = m_render_wait r"
  "m_main_wait (swap_contexts r) = m_main_wait r"
  "trace (swap_contexts r) = trace r @ [Swap]"
  by (simp_all add: swap_contexts_def Let_def tables_def)

lemma deref_swap_contexts [simp]:
  "deref (swap_contexts r) q = (if q = m_submit r then push (deref r q) else deref r q)"
  by (simp add: swap_contexts_def Let_def)

lemma post_fields [simp]:
  "m_contexts (post s r) = m_contexts r"
  "m_submit (post s r) = m_submit r"
  "m_draw (post s r) = m_draw r"
  "tables (post s r) = tables r"
  "m_is_initialized (post s r) = m_is_initialized r"
  "m_should_run (post s r) = m_should_run r"
  "trace (post s r) = trace r @ [Post s]"
  "m_render_wait (post s r) = (if s = Render_wait then Suc (m_render_wait r) else m_render_wait r)"
  "m_main_wait (post s r) = (if s = Main_wait then Suc (m_main_wait r) else m_main_wait r)"
  by (cases s; simp add: post_def tables_def)+

lemma deref_post [simp]: "deref (post s r) q = deref r q"
  by (cases q; simp add: deref_def)

lemma wait_Some:
  assumes "wait s r = Some r'"
  shows "m_contexts r' = m_contexts r" "m_submit r' = m_submit r" "m_draw r' = m_draw r"
    "tables r' = tables r" "m_is_initialized r' = m_is_initialized r"
    "m_should_run r' = m_should_run r" "trace r' = trace r @ [Wait s]"
    "m_render_wait r = (if s = Render_wait then Suc (m_render_wait r') else m_render_wait r')"
    "m_main_wait r = (if s = Main_wait then Suc (m_main_wait r') else m_main_wait r')"
    "deref r' q = deref r q"
  using assms
  by (cases s; cases q; auto simp: wait_def tables_def deref_def split: if_splits)+

lemma wait_None: "wait s r = None \<longleftrightarrow> (case s of Render_wait \<Rightarrow> m_render_wait r = 0 | Main_wait \<Rightarrow> m_main_wait r = 0)"
  by (cases s) (simp_all add: wait_def)

lemma render_fields [simp]:
  "m_contexts (render r) = m_contexts r"
  "m_submit (render r) = m_submit r"
  "m_draw (render r) = m_draw r"
  "tables (render r) = tables r"
  "m_is_initialized (render r) = m_is_initialized r"
  "m_should_run (render r) = m_should_run r"
  "m_render_wait (render r) = m_render_wait r"
  "m_main_wait (render r) = m_main_wait r"
  "trace (render r) = trace r @ (if m_is_initialized r then [Impl render_impl] else [])"
  by (simp_all add: render_def impl_def tables_def)

lemma deref_render [simp]: "deref (render r) q = deref r q"
  by (cases q; simp add: deref_def)

lemma tables_assign [simp]: "tables (assign p c r) = tables r"
  by (simp add: tables_def)

text \<open>
  Executing the commands of the draw context makes the backend calls of Command Records
  and leaves the Command Stream of the draw context fresh; applying its constants makes
  calls of \<^verbatim>\<open>update_uniform_impl\<close> and leaves its Constant Stream fresh.
\<close>

lemma execute_draw_commands_effect:
  assumes "execute_draw_commands cfg r = Inr r'"
  shows "\<exists>calls. (\<forall>call \<in> set calls. is_command_record call)
    \<and> r' = assign (m_draw r) ((deref r (m_draw r))\<lparr>m_commands := CommandBuffer_init\<rparr>)
              (fold effect calls r)"
proof -
  from assms obtain cmds r1 where
    e: "execute_commands cfg (m_commands (deref r (m_draw r))) r = Inr (cmds, r1)"
    and r': "r' = assign (m_draw r1) ((deref r1 (m_draw r1))\<lparr>m_commands := cmds\<rparr>) r1"
    by (auto simp: execute_draw_commands_def split: sum.splits)
  from execute_commands_effect [OF e] obtain calls where
    "cmds = CommandBuffer_init" "\<forall>call \<in> set calls. is_command_record call"
    "r1 = fold effect calls r"
    by auto
  with r' show ?thesis
    by (intro exI [of _ calls]) simp
qed

lemma update_draw_uniforms_effect:
  assumes "update_draw_uniforms r = Inr r'"
  shows "\<exists>calls. (\<forall>call \<in> set calls. is_uniform_update call)
    \<and> r' = assign (m_draw r) ((deref r (m_draw r))\<lparr>m_constants := ConstantBuffer_init\<rparr>)
              (fold effect calls r)"
proof -
  from assms obtain cbuf r1 where
    e: "update_uniforms (m_constants (deref r (m_draw r))) r = Inr (cbuf, r1)"
    and r': "r' = assign (m_draw r1) ((deref r1 (m_draw r1))\<lparr>m_constants := cbuf\<rparr>) r1"
    by (auto simp: update_draw_uniforms_def split: sum.splits)
  from update_uniforms_effect [OF e] obtain calls where
    "cbuf = ConstantBuffer_init" "\<forall>call \<in> set calls. is_uniform_update call"
    "r1 = fold effect calls r"
    by auto
  with r' show ?thesis
    by (intro exI [of _ calls]) simp
qed

section \<open>Decoding the streams of the draw context\<close>

lemma ConstantBuffer_read_as_peek:
  "ConstantBuffer_read_as p cbuf =
     (case constant_peek cbuf of
        [] \<Rightarrow> Inl Read_past_end
      | x # xs \<Rightarrow> (case p x of None \<Rightarrow> Inl Type_mismatch | Some v \<Rightarrow> Inr (v, constant_skip 1 cbuf)))"
proof (cases "m_constant_read cbuf < length (m_constant_buffer cbuf)")
  case True
  then have "constant_peek cbuf = m_constant_buffer cbuf ! m_constant_read cbuf
      # drop (Suc (m_constant_read cbuf)) (m_constant_buffer cbuf)"
    by (simp add: constant_peek_def Cons_nth_drop_Suc)
  with True show ?thesis
    by (simp add: ConstantBuffer_read_as_def ConstantBuffer_read_def constant_skip_def and_then_def
        split: option.split)
next
  case False
  then show ?thesis
    by (simp add: ConstantBuffer_read_as_def ConstantBuffer_read_def constant_peek_def and_then_def)
qed

lemma constant_peek_skip [simp]: "constant_peek (constant_skip n cbuf) = drop n (constant_peek cbuf)"
  by (simp add: constant_peek_def constant_skip_def add.commute)

lemma update_uniforms_loop_END:
  assumes "constant_peek cbuf = Tag UniformType_END # rest"
  shows "update_uniforms_loop cbuf r = Inr (constant_skip 1 cbuf, r)"
  using assms by (subst update_uniforms_loop.simps) (simp add: ConstantBuffer_read_as_peek)

lemma update_uniforms_loop_wire:
  assumes "constant_supported u" and "constant_peek cbuf = constant_wire u @ rest"
  shows "\<exists>cbuf'.
      update_uniforms_loop cbuf r = update_uniforms_loop cbuf' (effect (uniform_update u) r)
      \<and> constant_peek cbuf' = rest"
proof -
  obtain type x sz data where u: "u = (type, x, sz, data)"
    by (cases u) auto
  from assms u have t: "type \<noteq> UniformType_END" and l: "length data = unat sz"
    and p: "constant_peek cbuf = Tag type # Uniform x # Bytes sz # Raw data # rest"
    by simp_all
  from p l have rec: "update_uniform_record (constant_skip 1 cbuf) r
      = Inr (constant_skip 1 (constant_skip 1 (constant_skip 1 (constant_skip 1 cbuf))),
             impl (update_uniform_impl x sz data) r)"
    by (simp add: update_uniform_record_def ConstantBuffer_read_as_peek and_then_def)
  from p t rec have "update_uniforms_loop cbuf r =
      update_uniforms_loop (constant_skip 1 (constant_skip 1 (constant_skip 1 (constant_skip 1 cbuf))))
        (impl (update_uniform_impl x sz data) r)"
    by (subst update_uniforms_loop.simps) (simp add: ConstantBuffer_read_as_peek)
  with p u show ?thesis
    by (intro exI [of _ "constant_skip 1 (constant_skip 1 (constant_skip 1 (constant_skip 1 cbuf)))"])
      simp
qed

lemma update_uniforms_loop_records:
  assumes "list_all constant_supported us"
    and "constant_peek cbuf = concat (map constant_wire us) @ Tag UniformType_END # rest"
  shows "\<exists>cbuf'.
      update_uniforms_loop cbuf r = Inr (cbuf', fold effect (map uniform_update us) r)
      \<and> constant_peek cbuf' = rest"
  using assms
proof (induction us arbitrary: cbuf r)
  case Nil
  then show ?case
    using update_uniforms_loop_END [of cbuf rest r] by simp
next
  case (Cons u us)
  from Cons.prems have s: "constant_supported u"
    and p: "constant_peek cbuf
      = constant_wire u @ (concat (map constant_wire us) @ Tag UniformType_END # rest)"
    by simp_all
  from update_uniforms_loop_wire [OF s p, of r] obtain cbuf1 where
    1: "update_uniforms_loop cbuf r = update_uniforms_loop cbuf1 (effect (uniform_update u) r)"
    and 2: "constant_peek cbuf1 = concat (map constant_wire us) @ Tag UniformType_END # rest"
    by blast
  from Cons.prems have "list_all constant_supported us"
    by simp
  from Cons.IH [OF this 2, of "effect (uniform_update u) r"] 1 show ?case
    by auto
qed

text \<open>
  The two decoding statements of \<^verbatim>\<open>render_all\<close> on a draw context that holds records closed
  by \<^verbatim>\<open>push()\<close>.
\<close>

lemma execute_draw_commands_records:
  assumes "list_all (supported cfg) commands"
    and "m_read (m_commands (deref r (m_draw r))) = 0"
    and "m_buffer (m_commands (deref r (m_draw r))) = concat (map wire commands) @ [Command END]"
  shows "execute_draw_commands cfg r =
      Inr (assign (m_draw r) ((deref r (m_draw r))\<lparr>m_commands := CommandBuffer_init\<rparr>)
             (fold effect commands r))"
proof -
  from assms(1) have s: "\<forall>call \<in> set commands. supported cfg call"
    by (simp add: list_all_iff)
  from assms(2,3) have "peek (m_commands (deref r (m_draw r)))
      = concat (map wire commands) @ Command END # []"
    by (simp add: peek_def)
  from execute_commands_loop_records [OF s this, of r] obtain cmds' where
    "execute_commands_loop cfg (m_commands (deref r (m_draw r))) r
       = Inr (cmds', fold effect commands r)"
    by blast
  then show ?thesis
    by (simp add: execute_draw_commands_def execute_commands_def CommandBuffer_clear_def
        CommandBuffer_init_def)
qed

lemma update_draw_uniforms_records:
  assumes "list_all constant_supported updates"
    and "m_constant_read (m_constants (deref r (m_draw r))) = 0"
    and "m_constant_buffer (m_constants (deref r (m_draw r)))
      = concat (map constant_wire updates) @ [Tag UniformType_END]"
  shows "update_draw_uniforms r =
      Inr (assign (m_draw r) ((deref r (m_draw r))\<lparr>m_constants := ConstantBuffer_init\<rparr>)
             (fold effect (map uniform_update updates) r))"
proof -
  from assms(2,3) have "constant_peek (m_constants (deref r (m_draw r)))
      = concat (map constant_wire updates) @ Tag UniformType_END # []"
    by (simp add: constant_peek_def)
  from update_uniforms_loop_records [OF assms(1) this, of r] obtain cbuf' where
    "update_uniforms_loop (m_constants (deref r (m_draw r))) r
       = Inr (cbuf', fold effect (map uniform_update updates) r)"
    by blast
  then show ?thesis
    by (simp add: update_draw_uniforms_def update_uniforms_def ConstantBuffer_clear_def
        ConstantBuffer_init_def)
qed

lemma fold_effect_flags_cong:
  "m_is_initialized a = m_is_initialized b \<Longrightarrow> m_should_run a = m_should_run b \<Longrightarrow>
     m_is_initialized (fold effect calls a) = m_is_initialized (fold effect calls b)
     \<and> m_should_run (fold effect calls a) = m_should_run (fold effect calls b)"
proof (induction calls arbitrary: a b)
  case Nil
  then show ?case by simp
next
  case (Cons call calls)
  have "m_is_initialized (effect call a) = m_is_initialized (effect call b)"
    "m_should_run (effect call a) = m_should_run (effect call b)"
    using Cons.prems by (cases call; simp add: impl_def)+
  from Cons.IH [OF this] show ?case by simp
qed

lemma render_all_records:
  assumes "0 < m_render_wait r"
    and "holds_records cfg (deref r (m_submit r)) commands updates"
  shows "\<exists>r'. render_all cfg r = Returns r'
    \<and> trace r' =
        trace r @ [Wait Render_wait, Swap] @ map Impl commands
          @ map Impl (map uniform_update updates)
          @ (if m_is_initialized (fold effect commands r) then [Impl render_impl] else [])
          @ [Post Main_wait]
    \<and> m_is_initialized r' = m_is_initialized (fold effect commands r)
    \<and> m_should_run r' = m_should_run (fold effect commands r)"
proof -
  let ?r1 = "r\<lparr>m_render_wait := m_render_wait r - 1, trace := trace r @ [Wait Render_wait]\<rparr>"
  let ?r2 = "swap_contexts ?r1"
  from assms(1) have w: "wait Render_wait r = Some ?r1"
    by (simp add: wait_def)
  from assms(2) have h: "m_read (m_commands (deref r (m_submit r))) = 0"
    "m_buffer (m_commands (deref r (m_submit r))) = concat (map wire commands)"
    "list_all (supported cfg) commands"
    "m_constant_read (m_constants (deref r (m_submit r))) = 0"
    "m_constant_buffer (m_constants (deref r (m_submit r))) = concat (map constant_wire updates)"
    "list_all constant_supported updates"
    by (simp_all add: holds_records_def)
  have d1: "deref ?r1 q = deref r q" for q
    by (cases q; simp add: deref_def)
  have d2: "deref ?r2 (m_draw ?r2) = push (deref r (m_submit r))"
    by (simp add: d1)
  have x: "execute_draw_commands cfg ?r2 =
      Inr (assign (m_draw ?r2) ((deref ?r2 (m_draw ?r2))\<lparr>m_commands := CommandBuffer_init\<rparr>)
             (fold effect commands ?r2))"
    by (rule execute_draw_commands_records [OF h(3)])
      (simp_all only: d2, simp_all add: push_def CommandBuffer_write_def h)
  let ?r3 = "assign (m_draw ?r2) ((deref ?r2 (m_draw ?r2))\<lparr>m_commands := CommandBuffer_init\<rparr>)
             (fold effect commands ?r2)"
  have m3: "m_draw ?r3 = m_submit r"
    by simp
  have d3: "deref ?r3 (m_draw ?r3) = (push (deref r (m_submit r)))\<lparr>m_commands := CommandBuffer_init\<rparr>"
    by (simp add: d1)
  have u: "update_draw_uniforms ?r3 =
      Inr (assign (m_draw ?r3) ((deref ?r3 (m_draw ?r3))\<lparr>m_constants := ConstantBuffer_init\<rparr>)
             (fold effect (map uniform_update updates) ?r3))"
    by (rule update_draw_uniforms_records [OF h(6)])
      (simp_all only: d3, simp_all add: push_def ConstantBuffer_write_def h)
  let ?r4 = "assign (m_draw ?r3) ((deref ?r3 (m_draw ?r3))\<lparr>m_constants := ConstantBuffer_init\<rparr>)
             (fold effect (map uniform_update updates) ?r3)"
  have ret: "render_all cfg r = Returns (post Main_wait (render ?r4))"
    by (simp only: render_all_def w x u option.case sum.case)
  have un: "\<forall>call \<in> set (map uniform_update updates). is_uniform_update call"
    by auto
  have f2: "m_is_initialized (fold effect commands ?r2) = m_is_initialized (fold effect commands r)"
    "m_should_run (fold effect commands ?r2) = m_should_run (fold effect commands r)"
    using fold_effect_flags_cong [of ?r2 r commands] by simp_all
  have f4: "m_is_initialized ?r4 = m_is_initialized (fold effect commands r)"
    "m_should_run ?r4 = m_should_run (fold effect commands r)"
    using fold_effect_flags_unchanged [OF un, of ?r3] f2 by simp_all
  have t4: "trace ?r4 = trace r @ [Wait Render_wait, Swap] @ map Impl commands
      @ map Impl (map uniform_update updates)"
    by (simp add: trace_fold_effect)
  show ?thesis
    unfolding ret using f4 t4 by (intro exI [of _ "post Main_wait (render ?r4)"]) simp
qed

section \<open>What the producer leaves in the submit context\<close>

lemma m_constants_submit_write [simp]:
  "m_constants (deref (submit_write x r) q) = m_constants (deref r q)"
  by (simp add: submit_write_apply)

lemma m_constants_submit_writes [simp]:
  "m_constants (deref (submit_writes xs r) q) = m_constants (deref r q)"
  unfolding submit_writes_def by (induction xs arbitrary: r) simp_all

lemma submit_writes_constants:
  assumes "submit cfg c r = (Inr v, r')"
  shows "m_constant_buffer (m_constants (deref r' (m_submit r)))
        = m_constant_buffer (m_constants (deref r (m_submit r)))
            @ concat (map constant_wire (updates_written c))
    \<and> m_constant_read (m_constants (deref r' (m_submit r)))
        = m_constant_read (m_constants (deref r (m_submit r)))"
  using assms
  by (cases c)
    (auto simp: producer_defs Let_def context_set_def context_set_uniform_def
      ConstantBuffer_write_def split: if_splits option.splits)

lemma submit_all_writes_constants:
  assumes "submit_all cfg cs r = (Inr vs, r')"
  shows "m_constant_buffer (m_constants (deref r' (m_submit r)))
        = m_constant_buffer (m_constants (deref r (m_submit r)))
            @ concat (map constant_wire (concat (map updates_written cs)))
    \<and> m_constant_read (m_constants (deref r' (m_submit r)))
        = m_constant_read (m_constants (deref r (m_submit r)))"
  using assms
proof (induction cs arbitrary: r vs)
  case Nil
  then show ?case by simp
next
  case (Cons c cs)
  from Cons.prems obtain v r1 ws where c: "submit cfg c r = (Inr v, r1)"
    and cs: "submit_all cfg cs r1 = (Inr ws, r')"
    by (auto split: prod.splits sum.splits)
  from submit_writes_records [OF c] have "m_submit r1 = m_submit r"
    by simp
  with submit_writes_constants [OF c] Cons.IH [OF cs] show ?case
    by simp
qed

lemma uniform_call_ok_supported:
  "uniform_call_ok c \<Longrightarrow> list_all constant_supported (updates_written c)"
  by (cases c rule: updates_written.cases) (simp_all add: unat_of_nat)

lemma uniform_calls_ok_supported:
  "list_all uniform_call_ok cs \<Longrightarrow> list_all constant_supported (concat (map updates_written cs))"
  by (induction cs) (simp_all add: uniform_call_ok_supported)

text \<open>
  A run of producer calls on a fresh submit context leaves it holding the Command Records
  and the Constant Records the calls wrote, in order.
\<close>

lemma submit_all_holds_records:
  assumes "submit_all cfg cs r0 = (Inr vs, r)"
    and "m_commands (deref r0 (m_submit r0)) = CommandBuffer_init"
    and "m_constants (deref r0 (m_submit r0)) = ConstantBuffer_init"
    and "list_all uniform_call_ok cs"
  shows "holds_records cfg (deref r (m_submit r)) (records cfg cs r0)
      (concat (map updates_written cs))"
  using submit_all_writes_records [OF assms(1)] submit_all_writes_constants [OF assms(1)]
    uniform_calls_ok_supported [OF assms(4)] assms(2,3)
  by (simp add: holds_records_def CommandBuffer_init_def ConstantBuffer_init_def list_all_iff)

lemma render_all_shape:
  assumes "render_all cfg r = Returns r'"
  shows "(\<exists>commands uniforms.
           (\<forall>call \<in> set commands. is_command_record call)
           \<and> (\<forall>call \<in> set uniforms. is_uniform_update call)
           \<and> m_is_initialized r' = m_is_initialized (fold effect commands r)
           \<and> trace r' =
               trace r @ [Wait Render_wait, Swap] @ map Impl commands @ map Impl uniforms
                 @ (if m_is_initialized r' then [Impl render_impl] else [])
                 @ [Post Main_wait])
        \<and> m_draw r' = m_submit r \<and> m_submit r' = m_draw r
        \<and> Suc (m_render_wait r') = m_render_wait r \<and> m_main_wait r' = Suc (m_main_wait r)
        \<and> m_commands (deref r' (m_draw r')) = CommandBuffer_init
        \<and> m_constants (deref r' (m_draw r')) = ConstantBuffer_init"
proof -
  from assms obtain r1 r2 r3 where w: "wait Render_wait r = Some r1"
    and x: "execute_draw_commands cfg (swap_contexts r1) = Inr r2"
    and u: "update_draw_uniforms r2 = Inr r3"
    and r': "r' = post Main_wait (render r3)"
    by (auto simp: render_all_def split: option.splits sum.splits)
  note w = wait_Some [OF w]
  from execute_draw_commands_effect [OF x] obtain commands where
    c: "\<forall>call \<in> set commands. is_command_record call"
    and r2: "r2 = assign (m_draw (swap_contexts r1))
        ((deref (swap_contexts r1) (m_draw (swap_contexts r1)))\<lparr>m_commands := CommandBuffer_init\<rparr>)
        (fold effect commands (swap_contexts r1))"
    by blast
  from update_draw_uniforms_effect [OF u] obtain uniforms where
    v: "\<forall>call \<in> set uniforms. is_uniform_update call"
    and r3: "r3 = assign (m_draw r2) ((deref r2 (m_draw r2))\<lparr>m_constants := ConstantBuffer_init\<rparr>)
        (fold effect uniforms r2)"
    by blast
  have t2: "trace r2 = trace r @ [Wait Render_wait, Swap] @ map Impl commands"
    by (simp add: r2 trace_fold_effect w)
  have t3: "trace r3 = trace r2 @ map Impl uniforms"
    by (simp add: r3 trace_fold_effect)
  have i2: "m_is_initialized r2 = m_is_initialized (fold effect commands (swap_contexts r1))"
    by (simp add: r2)
  have fold_init: "\<And>a b. m_is_initialized a = m_is_initialized b \<Longrightarrow>
      m_is_initialized (fold effect commands a) = m_is_initialized (fold effect commands b)"
  proof (induction commands)
    case Nil
    then show ?case by simp
  next
    case (Cons call calls)
    have "m_is_initialized (effect call a) = m_is_initialized (effect call b)"
      using Cons.prems by (cases call) (simp_all add: impl_def)
    from Cons.IH [OF this] show ?case by simp
  qed
  have "m_is_initialized (swap_contexts r1) = m_is_initialized r"
    by (simp add: w)
  from fold_init [OF this] i2 have i2': "m_is_initialized r2 = m_is_initialized (fold effect commands r)"
    by simp
  have i3: "m_is_initialized r3 = m_is_initialized r2"
    using fold_effect_flags_unchanged [OF v, of r2] by (simp add: r3)
  have i': "m_is_initialized r' = m_is_initialized r3"
    by (simp add: r')
  have t': "trace r' = trace r3 @ (if m_is_initialized r3 then [Impl render_impl] else [])
      @ [Post Main_wait]"
    by (simp add: r')
  have p2: "m_draw r2 = m_submit r" "m_submit r2 = m_draw r"
    "m_render_wait r2 = m_render_wait r1" "m_main_wait r2 = m_main_wait r"
    by (simp_all add: r2 w)
  have p3: "m_draw r3 = m_submit r" "m_submit r3 = m_draw r"
    "m_render_wait r3 = m_render_wait r1" "m_main_wait r3 = m_main_wait r"
    by (simp_all add: r3 p2)
  have d2: "m_commands (deref r2 (m_submit r)) = CommandBuffer_init"
    by (simp add: r2 w)
  have d3: "m_commands (deref r3 (m_submit r)) = CommandBuffer_init"
    "m_constants (deref r3 (m_submit r)) = ConstantBuffer_init"
    by (simp_all add: r3 p2 d2)
  have tr: "trace r' =
      trace r @ [Wait Render_wait, Swap] @ map Impl commands @ map Impl uniforms
        @ (if m_is_initialized r' then [Impl render_impl] else [])
        @ [Post Main_wait]"
    by (simp add: t' t3 t2 i')
  have "\<exists>commands uniforms.
      (\<forall>call \<in> set commands. is_command_record call)
      \<and> (\<forall>call \<in> set uniforms. is_uniform_update call)
      \<and> m_is_initialized r' = m_is_initialized (fold effect commands r)
      \<and> trace r' =
          trace r @ [Wait Render_wait, Swap] @ map Impl commands @ map Impl uniforms
            @ (if m_is_initialized r' then [Impl render_impl] else [])
            @ [Post Main_wait]"
    using c v tr i' i3 i2' by (intro exI [of _ commands] exI [of _ uniforms]) simp
  moreover have "m_draw r' = m_submit r" "m_submit r' = m_draw r"
    "Suc (m_render_wait r') = m_render_wait r" "m_main_wait r' = Suc (m_main_wait r)"
    "m_commands (deref r' (m_draw r')) = CommandBuffer_init"
    "m_constants (deref r' (m_draw r')) = ConstantBuffer_init"
    using w(8) by (simp_all add: r' p3 d3)
  ultimately show ?thesis
    by blast
qed

text \<open>
  The iteration that follows a run of producer calls and the post of \<^verbatim>\<open>frame()\<close>.
\<close>

lemma render_all_after_submit:
  assumes "submit_all cfg calls r0 = (Inr vs, r1)"
    and "m_commands (deref r0 (m_submit r0)) = CommandBuffer_init"
    and "m_constants (deref r0 (m_submit r0)) = ConstantBuffer_init"
    and "list_all uniform_call_ok calls"
  shows "\<exists>r'. render_all cfg (post Render_wait r1) = Returns r'
    \<and> trace r' =
        trace r1 @ [Post Render_wait, Wait Render_wait, Swap]
          @ map Impl (records cfg calls r0)
          @ map Impl (map uniform_update (concat (map updates_written calls)))
          @ (if m_is_initialized (fold effect (records cfg calls r0) r1)
             then [Impl render_impl] else [])
          @ [Post Main_wait]"
proof -
  let ?p = "post Render_wait r1"
  from submit_all_holds_records [OF assms] have
    h: "holds_records cfg (deref ?p (m_submit ?p)) (records cfg calls r0)
          (concat (map updates_written calls))"
    by simp
  have w: "0 < m_render_wait ?p"
    by simp
  have f: "m_is_initialized (fold effect (records cfg calls r0) ?p)
      = m_is_initialized (fold effect (records cfg calls r0) r1)"
    using fold_effect_flags_cong [of ?p r1 "records cfg calls r0"] by simp
  from render_all_records [OF w h] obtain r' where
    "render_all cfg ?p = Returns r'"
    "trace r' =
        trace ?p @ [Wait Render_wait, Swap] @ map Impl (records cfg calls r0)
          @ map Impl (map uniform_update (concat (map updates_written calls)))
          @ (if m_is_initialized (fold effect (records cfg calls r0) ?p)
             then [Impl render_impl] else [])
          @ [Post Main_wait]"
    by blast
  then show ?thesis
    by (intro exI [of _ r']) (simp add: f)
qed

text \<open>
  Claim C4. \<open>render_all\<close> blocks while the count of \<open>m_render_wait\<close> is zero. When it returns,
  what it did, in this order, is: the wait on \<open>m_render_wait\<close>; the swap of the contexts;
  the backend calls of the Command Records; the calls of \<open>update_uniform_impl\<close>; the call
  of \<open>render_impl\<close>, made exactly when the renderer is initialized once the commands have
  been executed; and the post of \<open>m_main_wait\<close>. So every uniform update of the iteration
  precedes its render pass. The context it worked on is the one that was the submit
  context before, and both streams of that context are left fresh.

  The backend calls are those of the streams of that context. When the submit context
  holds the Command Records \<open>commands\<close> and the Constant Records \<open>updates\<close> and the count of
  \<open>m_render_wait\<close> is positive, \<open>render_all\<close> returns, and between the swap and the render
  pass it made exactly the backend calls of \<open>commands\<close>, in their order, and then exactly
  the uniform updates of \<open>updates\<close>, in their order. In particular, after a run of producer
  calls on a fresh submit context and the post of \<^verbatim>\<open>frame()\<close>, the iteration executes the
  records the calls wrote and then applies the uniform values the calls set, before the
  render pass.
\<close>

theorem render_all_order:
  "(m_render_wait r = 0 \<longrightarrow> render_all cfg r = Blocks)
   \<and> (render_all cfg r = Returns r' \<longrightarrow>
        (\<exists>commands uniforms.
           (\<forall>call \<in> set commands. is_command_record call)
           \<and> (\<forall>call \<in> set uniforms. is_uniform_update call)
           \<and> m_is_initialized r' = m_is_initialized (fold effect commands r)
           \<and> trace r' =
               trace r @ [Wait Render_wait, Swap] @ map Impl commands @ map Impl uniforms
                 @ (if m_is_initialized r' then [Impl render_impl] else [])
                 @ [Post Main_wait])
        \<and> m_draw r' = m_submit r \<and> m_submit r' = m_draw r
        \<and> Suc (m_render_wait r') = m_render_wait r \<and> m_main_wait r' = Suc (m_main_wait r)
        \<and> m_commands (deref r' (m_draw r')) = CommandBuffer_init
        \<and> m_constants (deref r' (m_draw r')) = ConstantBuffer_init)
   \<and> (0 < m_render_wait r \<and> holds_records cfg (deref r (m_submit r)) commands updates \<longrightarrow>
        (\<exists>r''. render_all cfg r = Returns r''
           \<and> trace r'' =
               trace r @ [Wait Render_wait, Swap] @ map Impl commands
                 @ map Impl (map uniform_update updates)
                 @ (if m_is_initialized (fold effect commands r) then [Impl render_impl] else [])
                 @ [Post Main_wait]
           \<and> m_is_initialized r'' = m_is_initialized (fold effect commands r)
           \<and> m_should_run r'' = m_should_run (fold effect commands r)))
   \<and> (submit_all cfg calls r0 = (Inr vs, r1)
        \<and> m_commands (deref r0 (m_submit r0)) = CommandBuffer_init
        \<and> m_constants (deref r0 (m_submit r0)) = ConstantBuffer_init
        \<and> list_all uniform_call_ok calls \<longrightarrow>
        (\<exists>r''. render_all cfg (post Render_wait r1) = Returns r''
           \<and> trace r'' =
               trace r1 @ [Post Render_wait, Wait Render_wait, Swap]
                 @ map Impl (records cfg calls r0)
                 @ map Impl (map uniform_update (concat (map updates_written calls)))
                 @ (if m_is_initialized (fold effect (records cfg calls r0) r1)
                    then [Impl render_impl] else [])
                 @ [Post Main_wait]))"
proof -
  have 1: "m_render_wait r = 0 \<longrightarrow> render_all cfg r = Blocks"
    by (simp add: render_all_def wait_def)
  have 3: "0 < m_render_wait r \<and> holds_records cfg (deref r (m_submit r)) commands updates \<longrightarrow>
        (\<exists>r''. render_all cfg r = Returns r''
           \<and> trace r'' =
               trace r @ [Wait Render_wait, Swap] @ map Impl commands
                 @ map Impl (map uniform_update updates)
                 @ (if m_is_initialized (fold effect commands r) then [Impl render_impl] else [])
                 @ [Post Main_wait]
           \<and> m_is_initialized r'' = m_is_initialized (fold effect commands r)
           \<and> m_should_run r'' = m_should_run (fold effect commands r))"
    using render_all_records [of r cfg commands updates] by (intro impI, elim conjE) simp
  have 4: "submit_all cfg calls r0 = (Inr vs, r1)
        \<and> m_commands (deref r0 (m_submit r0)) = CommandBuffer_init
        \<and> m_constants (deref r0 (m_submit r0)) = ConstantBuffer_init
        \<and> list_all uniform_call_ok calls \<longrightarrow>
        (\<exists>r''. render_all cfg (post Render_wait r1) = Returns r''
           \<and> trace r'' =
               trace r1 @ [Post Render_wait, Wait Render_wait, Swap]
                 @ map Impl (records cfg calls r0)
                 @ map Impl (map uniform_update (concat (map updates_written calls)))
                 @ (if m_is_initialized (fold effect (records cfg calls r0) r1)
                    then [Impl render_impl] else [])
                 @ [Post Main_wait])"
    using render_all_after_submit [of cfg calls r0 vs r1] by (intro impI, elim conjE) simp
  have 2: "render_all cfg r = Returns r' \<longrightarrow>
        (\<exists>commands uniforms.
           (\<forall>call \<in> set commands. is_command_record call)
           \<and> (\<forall>call \<in> set uniforms. is_uniform_update call)
           \<and> m_is_initialized r' = m_is_initialized (fold effect commands r)
           \<and> trace r' =
               trace r @ [Wait Render_wait, Swap] @ map Impl commands @ map Impl uniforms
                 @ (if m_is_initialized r' then [Impl render_impl] else [])
                 @ [Post Main_wait])
        \<and> m_draw r' = m_submit r \<and> m_submit r' = m_draw r
        \<and> Suc (m_render_wait r') = m_render_wait r \<and> m_main_wait r' = Suc (m_main_wait r)
        \<and> m_commands (deref r' (m_draw r')) = CommandBuffer_init
        \<and> m_constants (deref r' (m_draw r')) = ConstantBuffer_init"
    by (rule impI) (rule render_all_shape)
  show ?thesis
    by (rule conjI [OF 1 conjI [OF 2 conjI [OF 3 4]]])
qed

theorem render_all_order_witness:
  "render_all small_config (Renderer_init small_config) = Blocks
   \<and> fst (submit_all small_config
         [Init, Create_uniform ''abc'' (UniformType 1) 1,
          Set_uniform (Id 0 0) (UniformType 1) (Some [1, 2, 3, 4]) 1, Commit 0]
         (Renderer_init small_config)) = Inr [None, Some (Id 0 0), None, None]
   \<and> (\<exists>r'.
        render_all small_config
          (post Render_wait (snd (submit_all small_config
             [Init, Create_uniform ''abc'' (UniformType 1) 1,
              Set_uniform (Id 0 0) (UniformType 1) (Some [1, 2, 3, 4]) 1, Commit 0]
             (Renderer_init small_config)))) = Returns r'
        \<and> trace r' =
            [Post Render_wait, Wait Render_wait, Swap, Impl init_impl,
             Impl (create_uniform_impl (Id 0 0) ''abc'' (UniformType 1) 1),
             Impl (update_uniform_impl (Id 0 0) 4 [1, 2, 3, 4]),
             Impl render_impl, Post Main_wait]
        \<and> m_is_initialized r'
        \<and> m_draw r' = Context0
        \<and> m_commands (deref r' (m_draw r')) = CommandBuffer_init
        \<and> m_constants (deref r' (m_draw r')) = ConstantBuffer_init)"
proof -
  let ?start = "Renderer_init small_config"
  let ?calls = "[Init, Create_uniform ''abc'' (UniformType 1) 1,
              Set_uniform (Id 0 0) (UniformType 1) (Some [1, 2, 3, 4]) 1, Commit 0]"
  let ?sent = "snd (submit_all small_config ?calls ?start)"
  let ?posted = "post Render_wait ?sent"
  let ?commands = "[init_impl, create_uniform_impl (Id 0 0) ''abc'' (UniformType 1) 1]"
  let ?updates = "[(UniformType 1, Id 0 0, 4, [1, 2, 3, 4])] :: constant_record list"
  have zero: "m_render_wait ?start = 0"
    by (simp add: Renderer_init_def)
  have ids: "fst (submit_all small_config ?calls ?start) = Inr [None, Some (Id 0 0), None, None]"
    by code_simp
  have run: "submit_all small_config ?calls ?start = (Inr [None, Some (Id 0 0), None, None], ?sent)"
    by (simp only: ids [symmetric] prod.collapse)
  have fresh: "m_commands (deref ?start (m_submit ?start)) = CommandBuffer_init"
    "m_constants (deref ?start (m_submit ?start)) = ConstantBuffer_init"
    by (simp_all add: Renderer_init_def deref_def RenderContext_init_def)
  have ok: "list_all uniform_call_ok ?calls"
    by simp
  have recs: "records small_config ?calls ?start = ?commands"
    by code_simp
  have ups: "concat (map updates_written ?calls) = ?updates"
    by simp
  have quiet: "trace ?sent = []"
    by code_simp
  have submit: "m_submit ?posted = Context0"
    by code_simp
  have count: "0 < m_render_wait ?posted"
    by simp
  have holds: "holds_records small_config (deref ?posted (m_submit ?posted)) ?commands ?updates"
    by code_simp
  have init: "m_is_initialized (fold effect ?commands r)" for r
    by (simp add: impl_def)
  note A = render_all_order [where r = ?start and cfg = small_config, THEN conjunct1]
  note C = render_all_order [where r = ?posted and cfg = small_config
      and commands = ?commands and updates = ?updates, THEN conjunct2, THEN conjunct2, THEN conjunct1]
  note D = render_all_order [where cfg = small_config and calls = ?calls and ?r0.0 = ?start
      and vs = "[None, Some (Id 0 0), None, None]" and ?r1.0 = ?sent,
      THEN conjunct2, THEN conjunct2, THEN conjunct2]
  from A zero have 1: "render_all small_config ?start = Blocks"
    by simp
  from D [THEN mp, OF conjI [OF run conjI [OF fresh(1) conjI [OF fresh(2) ok]]]]
  obtain r' where ret: "render_all small_config ?posted = Returns r'"
    and tr: "trace r' =
        trace ?sent @ [Post Render_wait, Wait Render_wait, Swap]
          @ map Impl (records small_config ?calls ?start)
          @ map Impl (map uniform_update (concat (map updates_written ?calls)))
          @ (if m_is_initialized (fold effect (records small_config ?calls ?start) ?sent)
             then [Impl render_impl] else [])
          @ [Post Main_wait]"
    by blast
  from tr have 2: "trace r' =
            [Post Render_wait, Wait Render_wait, Swap, Impl init_impl,
             Impl (create_uniform_impl (Id 0 0) ''abc'' (UniformType 1) 1),
             Impl (update_uniform_impl (Id 0 0) 4 [1, 2, 3, 4]),
             Impl render_impl, Post Main_wait]"
    by (simp only: recs ups quiet init) simp
  from C [THEN mp, OF conjI [OF count holds]] ret have 3: "m_is_initialized r'"
    by (auto simp only: init run.inject)
  note B' = render_all_order [where r = ?posted and cfg = small_config and r' = r',
      THEN conjunct2, THEN conjunct1, THEN mp, OF ret]
  from B' have "m_draw r' = m_submit ?posted"
    by - (elim conjE, assumption)
  with submit have 4: "m_draw r' = Context0"
    by (simp only:)
  from B' have 5: "m_commands (deref r' (m_draw r')) = CommandBuffer_init"
    by - (elim conjE, assumption)
  from B' have 6: "m_constants (deref r' (m_draw r')) = ConstantBuffer_init"
    by - (elim conjE, assumption)
  from ret 2 3 4 5 6 have "\<exists>r'.
        render_all small_config ?posted = Returns r'
        \<and> trace r' =
            [Post Render_wait, Wait Render_wait, Swap, Impl init_impl,
             Impl (create_uniform_impl (Id 0 0) ''abc'' (UniformType 1) 1),
             Impl (update_uniform_impl (Id 0 0) 4 [1, 2, 3, 4]),
             Impl render_impl, Post Main_wait]
        \<and> m_is_initialized r'
        \<and> m_draw r' = Context0
        \<and> m_commands (deref r' (m_draw r')) = CommandBuffer_init
        \<and> m_constants (deref r' (m_draw r')) = ConstantBuffer_init"
    by (intro exI [of _ r'] conjI)
  with 1 ids show ?thesis
    by (intro conjI)
qed

section \<open>Frames without submissions\<close>

lemma execute_commands_END_only:
  "execute_commands cfg (CommandBuffer_write (Command END) CommandBuffer_init) r
     = Inr (CommandBuffer_init, r)"
proof -
  have "peek (CommandBuffer_write (Command END) CommandBuffer_init) = Command END # []"
    by (simp add: peek_def CommandBuffer_write_def CommandBuffer_init_def)
  from execute_commands_loop_END [OF this] show ?thesis
    by (simp add: execute_commands_def CommandBuffer_clear_def CommandBuffer_init_def)
qed

lemma update_uniforms_END_only:
  "update_uniforms (ConstantBuffer_write (Tag UniformType_END) ConstantBuffer_init) r
     = Inr (ConstantBuffer_init, r)"
  by (simp add: update_uniforms_def update_uniforms_loop.simps ConstantBuffer_read_as_def
      ConstantBuffer_read_def ConstantBuffer_write_def ConstantBuffer_init_def
      ConstantBuffer_clear_def)

lemma frame_idle:
  assumes "idle r"
  shows "frame cfg r =
     Returns (r\<lparr>m_submit := m_draw r, m_draw := m_submit r,
                trace := trace r @ empty_handoff (m_is_initialized r)\<rparr>)"
proof -
  from assms have run: "m_should_run r" and ne: "m_submit r \<noteq> m_draw r"
    and sem: "m_render_wait r = 0" "m_main_wait r = 0"
    and s: "m_commands (deref r (m_submit r)) = CommandBuffer_init"
      "m_constants (deref r (m_submit r)) = ConstantBuffer_init"
    and d: "m_commands (deref r (m_draw r)) = CommandBuffer_init"
      "m_constants (deref r (m_draw r)) = ConstantBuffer_init"
    by (simp_all add: idle_def)
  show ?thesis
  proof (cases "m_submit r")
    case Context0
    with ne have dr: "m_draw r = Context1" by (cases "m_draw r") simp_all
    from s Context0 have s': "m_commands (fst (m_contexts r)) = CommandBuffer_init"
      "m_constants (fst (m_contexts r)) = ConstantBuffer_init"
      by (simp_all add: deref_def)
    show ?thesis
      unfolding frame_def render_all_def
      apply (simp add: run sem post_def wait_def swap_contexts_def submit_apply_def Let_def
          Context0 dr assign_def deref_def push_def s' execute_draw_commands_def
          update_draw_uniforms_def execute_commands_END_only update_uniforms_END_only
          render_def impl_def empty_handoff_def)
      apply (intro conjI impI; rule Renderer.equality; simp add: sem Context0 dr prod_eq_iff;
          rule RenderContext.equality; simp add: s')
      done
  next
    case Context1
    with ne have dr: "m_draw r = Context0" by (cases "m_draw r") simp_all
    from s Context1 have s': "m_commands (snd (m_contexts r)) = CommandBuffer_init"
      "m_constants (snd (m_contexts r)) = ConstantBuffer_init"
      by (simp_all add: deref_def)
    show ?thesis
      unfolding frame_def render_all_def
      apply (simp add: run sem post_def wait_def swap_contexts_def submit_apply_def Let_def
          Context1 dr assign_def deref_def push_def s' execute_draw_commands_def
          update_draw_uniforms_def execute_commands_END_only update_uniforms_END_only
          render_def impl_def empty_handoff_def)
      apply (intro conjI impI; rule Renderer.equality; simp add: sem Context1 dr prod_eq_iff;
          rule RenderContext.equality; simp add: s')
      done
  qed
qed

lemma idle_after_frame:
  assumes "idle r"
  shows "idle (r\<lparr>m_submit := m_draw r, m_draw := m_submit r, trace := es\<rparr>)"
  using assms by (auto simp: idle_def)

lemma count_list_concat_replicate:
  "count_list (concat (replicate n xs)) x = n * count_list xs x"
  by (induction n) simp_all

lemma count_list_empty_handoff [simp]:
  "count_list (empty_handoff b) Swap = 1"
  "count_list (empty_handoff b) (Post Render_wait) = 1"
  "count_list (empty_handoff b) (Post Main_wait) = 1"
  "count_list (empty_handoff b) (Wait Main_wait) = 1"
  by (simp_all add: empty_handoff_def)

text \<open>
  A call of \<^verbatim>\<open>frame()\<close> that returns is an execution of the two threads: the producer's post,
  one iteration of the consumer, and the producer's wait.
\<close>

lemma frame_is_an_execution:
  assumes "frame cfg r = Returns r'"
  shows "(step cfg)\<^sup>*\<^sup>* (P_running, C_loop, r) (P_running, C_loop, r')"
proof -
  from assms have run: "m_should_run r"
    by (auto simp: frame_def split: if_splits)
  from assms run obtain r1 r2 r3 where
    w: "wait Render_wait (post Render_wait r) = Some r1"
    and e: "execute_draw_commands cfg (swap_contexts r1) = Inr r2"
    and u: "update_draw_uniforms r2 = Inr r3"
    and m: "wait Main_wait (post Main_wait (render r3)) = Some r'"
    by (auto simp: frame_def render_all_def split: option.splits sum.splits run.splits)
  have "(step cfg)\<^sup>*\<^sup>* (P_running, C_loop, r) (P_running, C_loop, r)"
    by simp
  also have "step cfg (P_running, C_loop, r) (P_in_frame, C_loop, post Render_wait r)"
    by (rule frame_post)
  also have "step cfg (P_in_frame, C_loop, post Render_wait r) (P_in_frame, C_wait, post Render_wait r)"
    using run by (intro loop_run) (simp add: post_fields)
  also have "step cfg (P_in_frame, C_wait, post Render_wait r) (P_in_frame, C_swap, r1)"
    using w by (rule render_all_wait)
  also have "step cfg (P_in_frame, C_swap, r1) (P_in_frame, C_execute, swap_contexts r1)"
    by (rule render_all_swap)
  also have "step cfg (P_in_frame, C_execute, swap_contexts r1) (P_in_frame, C_uniforms, r2)"
    using e by (rule render_all_execute)
  also have "step cfg (P_in_frame, C_uniforms, r2) (P_in_frame, C_render, r3)"
    using u by (rule render_all_uniforms)
  also have "step cfg (P_in_frame, C_render, r3) (P_in_frame, C_post, render r3)"
    by (rule render_all_render)
  also have "step cfg (P_in_frame, C_post, render r3) (P_in_frame, C_loop, post Main_wait (render r3))"
    by (rule render_all_post)
  also have "step cfg (P_in_frame, C_loop, post Main_wait (render r3)) (P_running, C_loop, r')"
    using m by (rule frame_wait)
  finally show ?thesis .
qed

lemma frames_is_an_execution:
  "frames cfg n r = Returns r' \<Longrightarrow> (step cfg)\<^sup>*\<^sup>* (P_running, C_loop, r) (P_running, C_loop, r')"
proof (induction n arbitrary: r)
  case 0
  then show ?case by simp
next
  case (Suc n)
  from Suc.prems obtain r1 where f: "frame cfg r = Returns r1" and fs: "frames cfg n r1 = Returns r'"
    by (auto split: run.splits)
  from frame_is_an_execution [OF f] Suc.IH [OF fs] show ?case
    by (rule rtranclp_trans)
qed

text \<open>
  Claim C8. On a renderer at rest, \<open>n\<close> calls of \<open>frame()\<close> with no submission between them
  all return, and what happened is exactly \<open>n\<close> handoffs, each of them the producer's
  post, the consumer's wait, the swap, the render pass if the renderer is initialized,
  the consumer's post and the producer's wait: no Command Record and no Constant Record
  is executed. After each of them the renderer is at rest again, its two contexts the
  same as before, so both Command Streams (and both Constant Streams) are empty. The
  calls are an execution of the two threads, from the consumer at the head of its loop
  back to it.
\<close>

theorem frames_without_submissions:
  assumes "idle r"
  shows "\<exists>r'. frames cfg n r = Returns r'
    \<and> trace r' = trace r @ concat (replicate n (empty_handoff (m_is_initialized r)))
    \<and> swaps r' = swaps r + n \<and> posted r' = posted r + n
    \<and> completed r' = completed r + n \<and> returned r' = returned r + n
    \<and> idle r' \<and> m_contexts r' = m_contexts r \<and> tables r' = tables r
    \<and> m_is_initialized r' = m_is_initialized r
    \<and> (step cfg)\<^sup>*\<^sup>* (P_running, C_loop, r) (P_running, C_loop, r')"
proof -
  have "\<exists>r'. frames cfg n r = Returns r'
    \<and> trace r' = trace r @ concat (replicate n (empty_handoff (m_is_initialized r)))
    \<and> idle r' \<and> m_contexts r' = m_contexts r \<and> tables r' = tables r
    \<and> m_is_initialized r' = m_is_initialized r"
    using assms
  proof (induction n arbitrary: r)
    case 0
    then show ?case by simp
  next
    case (Suc n)
    let ?r1 = "r\<lparr>m_submit := m_draw r, m_draw := m_submit r,
                trace := trace r @ empty_handoff (m_is_initialized r)\<rparr>"
    from frame_idle [OF Suc.prems] have f: "frame cfg r = Returns ?r1" .
    from Suc.IH [OF idle_after_frame [OF Suc.prems]] obtain r' where
      "frames cfg n ?r1 = Returns r'"
      "trace r' = trace ?r1 @ concat (replicate n (empty_handoff (m_is_initialized ?r1)))"
      "idle r'" "m_contexts r' = m_contexts ?r1" "tables r' = tables ?r1"
      "m_is_initialized r' = m_is_initialized ?r1"
      by blast
    with f show ?case
      by (intro exI [of _ r']) (simp add: tables_def)
  qed
  then obtain r' where r': "frames cfg n r = Returns r'"
    and t: "trace r' = trace r @ concat (replicate n (empty_handoff (m_is_initialized r)))"
    and rest: "idle r'" "m_contexts r' = m_contexts r" "tables r' = tables r"
      "m_is_initialized r' = m_is_initialized r"
    by blast
  from t have "swaps r' = swaps r + n" "posted r' = posted r + n"
    "completed r' = completed r + n" "returned r' = returned r + n"
    by (simp_all add: swaps_def posted_def completed_def returned_def
        count_list_concat_replicate)
  with r' t rest frames_is_an_execution [OF r'] show ?thesis
    by (intro exI [of _ r']) simp
qed

theorem frames_without_submissions_witness:
  "idle ((Renderer_init small_config)\<lparr>m_should_run := True, m_is_initialized := True\<rparr>)
   \<and> (\<exists>r'.
        frames small_config 2
          ((Renderer_init small_config)\<lparr>m_should_run := True, m_is_initialized := True\<rparr>)
          = Returns r'
        \<and> trace r' =
            [Post Render_wait, Wait Render_wait, Swap, Impl render_impl, Post Main_wait,
             Wait Main_wait,
             Post Render_wait, Wait Render_wait, Swap, Impl render_impl, Post Main_wait,
             Wait Main_wait]
        \<and> swaps r' = 2 \<and> idle r')"
proof -
  let ?rest = "(Renderer_init small_config)\<lparr>m_should_run := True, m_is_initialized := True\<rparr>"
  have i: "idle ?rest"
    by (simp add: idle_def Renderer_init_def deref_def RenderContext_init_def)
  have t: "trace ?rest = []" "m_is_initialized ?rest"
    by (simp_all add: Renderer_init_def)
  from frames_without_submissions [OF i, of small_config 2] obtain r' where
    f: "frames small_config 2 ?rest = Returns r'"
    and tr: "trace r' = trace ?rest @ concat (replicate 2 (empty_handoff (m_is_initialized ?rest)))"
    and sw: "swaps r' = swaps ?rest + 2" and i': "idle r'"
    by blast
  from tr have tr': "trace r' =
            [Post Render_wait, Wait Render_wait, Swap, Impl render_impl, Post Main_wait,
             Wait Main_wait,
             Post Render_wait, Wait Render_wait, Swap, Impl render_impl, Post Main_wait,
             Wait Main_wait]"
    by (simp only: t) (simp add: empty_handoff_def numeral_2_eq_2)
  from sw have sw': "swaps r' = 2"
    by (simp add: swaps_def t)
  from f tr' sw' i' have "\<exists>r'.
        frames small_config 2 ?rest = Returns r'
        \<and> trace r' =
            [Post Render_wait, Wait Render_wait, Swap, Impl render_impl, Post Main_wait,
             Wait Main_wait,
             Post Render_wait, Wait Render_wait, Swap, Impl render_impl, Post Main_wait,
             Wait Main_wait]
        \<and> swaps r' = 2 \<and> idle r'"
    by (intro exI [of _ r'] conjI)
  with i show ?thesis
    by (intro conjI)
qed

section \<open>The two threads alternate\<close>

lemma deref_submit_write [simp]:
  "deref (submit_write x r) q =
     (if q = m_submit r
      then (deref r q)\<lparr>m_commands := CommandBuffer_write x (m_commands (deref r q))\<rparr>
      else deref r q)"
  by (simp add: submit_write_apply)

lemma deref_submit_writes_other:
  "q \<noteq> m_submit r \<Longrightarrow> deref (submit_writes xs r) q = deref r q"
  unfolding submit_writes_def by (induction xs arbitrary: r) simp_all

text \<open>
  A producer call, whether it returns or faults, leaves the role pointers, the
  semaphores, the trace and every context but the submit context as they are.
\<close>

lemma submit_keeps:
  assumes "submit cfg c r = (res, r')"
  shows "m_submit r' = m_submit r \<and> m_draw r' = m_draw r
    \<and> m_render_wait r' = m_render_wait r \<and> m_main_wait r' = m_main_wait r
    \<and> trace r' = trace r
    \<and> (q \<noteq> m_submit r \<longrightarrow> deref r' q = deref r q)"
  using assms
  by (cases c)
    (auto simp: producer_defs Let_def returning_def deref_submit_writes_other
      split: if_splits option.splits)

lemma submit_fault_keeps:
  assumes "submit cfg c r = (Inl e, r')"
  shows "deref r' q = deref r q"
  using assms
  by (cases c)
    (auto simp: producer_defs Let_def returning_def split: if_splits option.splits)

lemma count_list_map_Impl [simp]:
  "count_list (map Impl calls) (Post s) = 0"
  "count_list (map Impl calls) (Wait s) = 0"
  "count_list (map Impl calls) Swap = 0"
  by (induction calls; simp)+

lemma counts_post [simp]:
  "posted (post s r) = (if s = Render_wait then Suc (posted r) else posted r)"
  "completed (post s r) = (if s = Main_wait then Suc (completed r) else completed r)"
  "returned (post s r) = returned r"
  by (simp_all add: posted_def completed_def returned_def)

lemma counts_wait:
  assumes "wait s r = Some r'"
  shows "posted r' = posted r" "completed r' = completed r"
    "returned r' = (if s = Main_wait then Suc (returned r) else returned r)"
  using wait_Some(7) [OF assms]
  by (simp_all add: posted_def completed_def returned_def)

lemma counts_swap_contexts [simp]:
  "posted (swap_contexts r) = posted r" "completed (swap_contexts r) = completed r"
  "returned (swap_contexts r) = returned r"
  by (simp_all add: posted_def completed_def returned_def)

lemma counts_render [simp]:
  "posted (render r) = posted r" "completed (render r) = completed r"
  "returned (render r) = returned r"
  by (simp_all add: posted_def completed_def returned_def)

lemma counts_should_run [simp]:
  "posted (r\<lparr>m_should_run := b\<rparr>) = posted r" "completed (r\<lparr>m_should_run := b\<rparr>) = completed r"
  "returned (r\<lparr>m_should_run := b\<rparr>) = returned r"
  by (simp_all add: posted_def completed_def returned_def)

lemma counts_trace:
  "trace r' = trace r \<Longrightarrow> posted r' = posted r \<and> completed r' = completed r \<and> returned r' = returned r"
  by (simp add: posted_def completed_def returned_def)

lemma counts_trace_Impl:
  "trace r' = trace r @ map Impl calls \<Longrightarrow>
     posted r' = posted r \<and> completed r' = completed r \<and> returned r' = returned r"
  by (simp add: posted_def completed_def returned_def)

lemma execute_draw_commands_keeps:
  assumes "execute_draw_commands cfg r = Inr r'"
  shows "m_submit r' = m_submit r" "m_draw r' = m_draw r"
    "m_render_wait r' = m_render_wait r" "m_main_wait r' = m_main_wait r"
    "posted r' = posted r" "completed r' = completed r" "returned r' = returned r"
    "deref r' q = (if q = m_draw r then (deref r q)\<lparr>m_commands := CommandBuffer_init\<rparr> else deref r q)"
proof -
  from execute_draw_commands_effect [OF assms] obtain calls where
    r': "r' = assign (m_draw r) ((deref r (m_draw r))\<lparr>m_commands := CommandBuffer_init\<rparr>)
              (fold effect calls r)"
    by blast
  then have "trace r' = trace r @ map Impl calls"
    by (simp add: trace_fold_effect)
  from counts_trace_Impl [OF this]
  show "posted r' = posted r" "completed r' = completed r" "returned r' = returned r"
    by simp_all
  from r' show "m_submit r' = m_submit r" "m_draw r' = m_draw r"
    "m_render_wait r' = m_render_wait r" "m_main_wait r' = m_main_wait r"
    "deref r' q = (if q = m_draw r then (deref r q)\<lparr>m_commands := CommandBuffer_init\<rparr> else deref r q)"
    by simp_all
qed

lemma update_draw_uniforms_keeps:
  assumes "update_draw_uniforms r = Inr r'"
  shows "m_submit r' = m_submit r" "m_draw r' = m_draw r"
    "m_render_wait r' = m_render_wait r" "m_main_wait r' = m_main_wait r"
    "posted r' = posted r" "completed r' = completed r" "returned r' = returned r"
    "m_commands (deref r' q) = m_commands (deref r q)"
proof -
  from update_draw_uniforms_effect [OF assms] obtain calls where
    r': "r' = assign (m_draw r) ((deref r (m_draw r))\<lparr>m_constants := ConstantBuffer_init\<rparr>)
              (fold effect calls r)"
    by blast
  then have "trace r' = trace r @ map Impl calls"
    by (simp add: trace_fold_effect)
  from counts_trace_Impl [OF this]
  show "posted r' = posted r" "completed r' = completed r" "returned r' = returned r"
    by simp_all
  from r' show "m_submit r' = m_submit r" "m_draw r' = m_draw r"
    "m_render_wait r' = m_render_wait r" "m_main_wait r' = m_main_wait r"
    "m_commands (deref r' q) = m_commands (deref r q)"
    by simp_all
qed

lemma step_scheduling_invariant:
  assumes "step cfg s s'" and "scheduling_invariant s"
  shows "scheduling_invariant s'"
  using assms
proof (induction rule: step.induct)
  case (thread_start r)
  then show ?case by (simp add: scheduling_invariant_def holds_frame_def)
next
  case (producer_call c r v r' cp)
  from submit_keeps [OF producer_call(1)] counts_trace [of r' r] producer_call(2)
  show ?case by (simp add: scheduling_invariant_def)
next
  case (producer_fault c r e r' cp)
  from submit_keeps [OF producer_fault(1)] counts_trace [of r' r] producer_fault(2)
  show ?case by (simp add: scheduling_invariant_def)
next
  case (frame_post cp r)
  then show ?case by (simp add: scheduling_invariant_def)
next
  case (frame_wait r r' cp)
  from wait_Some(8,9) [OF frame_wait(1)] counts_wait [OF frame_wait(1)] frame_wait(2)
  show ?case by (simp add: scheduling_invariant_def)
next
  case (loop_run r pp)
  then show ?case by (simp add: scheduling_invariant_def holds_frame_def)
next
  case (loop_exit r pp)
  then show ?case by (simp add: scheduling_invariant_def holds_frame_def)
next
  case (render_all_wait r r' pp)
  from wait_Some(8,9) [OF render_all_wait(1)] counts_wait [OF render_all_wait(1)]
    render_all_wait(2)
  show ?case by (simp add: scheduling_invariant_def holds_frame_def)
next
  case (render_all_swap pp r)
  then show ?case by (simp add: scheduling_invariant_def holds_frame_def)
next
  case (render_all_execute r r' pp)
  from execute_draw_commands_keeps(3-7) [OF render_all_execute(1)] render_all_execute(2)
  show ?case by (simp add: scheduling_invariant_def holds_frame_def)
next
  case (render_all_execute_fault r e pp)
  then show ?case by (simp add: scheduling_invariant_def holds_frame_def)
next
  case (render_all_uniforms r r' pp)
  from update_draw_uniforms_keeps(3-7) [OF render_all_uniforms(1)] render_all_uniforms(2)
  show ?case by (simp add: scheduling_invariant_def holds_frame_def)
next
  case (render_all_uniforms_fault r e pp)
  then show ?case by (simp add: scheduling_invariant_def holds_frame_def)
next
  case (render_all_render pp r)
  then show ?case by (simp add: scheduling_invariant_def holds_frame_def)
next
  case (render_all_post pp r)
  then show ?case by (simp add: scheduling_invariant_def holds_frame_def)
qed

lemma reachable_scheduling_invariant:
  "reachable cfg s \<Longrightarrow> scheduling_invariant s"
proof (induction rule: reachable.induct)
  case reachable_start
  show ?case
    by (simp add: scheduling_invariant_def holds_frame_def posted_def completed_def
        returned_def Renderer_init_def)
next
  case (reachable_step s s')
  then show ?case by (simp add: step_scheduling_invariant)
qed

text \<open>
  Claim C1. In every state the two threads can reach, by any interleaving of their
  steps: the producer and the consumer are never both active, and the contexts the
  producer may touch at its next step are disjoint from those the consumer may touch.
  No call of \<open>frame()\<close> has returned before the consumer completed the frame it handed
  over; the producer is at most one frame ahead of the consumer; and while the producer
  is active, that is once \<open>frame()\<close> has returned, every frame it handed over has been
  completed.
\<close>

theorem producer_and_consumer_alternate:
  assumes "reachable cfg (pp, cp, r)"
  shows "\<not> (producer_active pp \<and> consumer_active cp)
    \<and> producer_touches pp r \<inter> consumer_touches cp r = {}
    \<and> returned r \<le> completed r
    \<and> posted r \<le> Suc (completed r)
    \<and> (producer_active pp \<longrightarrow> posted r = completed r \<and> returned r = completed r)"
proof -
  from reachable_scheduling_invariant [OF assms]
  have 1: "completed r = returned r + m_main_wait r"
    and 2: "posted r = completed r + m_render_wait r + holds_frame cp"
    and 3: "posted r = returned r + (if pp = P_in_frame then 1 else 0)"
    by (simp_all add: scheduling_invariant_def)
  have a: "\<not> (producer_active pp \<and> consumer_active cp)"
  proof
    assume "producer_active pp \<and> consumer_active cp"
    then have "pp = P_running" "holds_frame cp = 1"
      by (auto simp: producer_active_def consumer_active_def holds_frame_def)
    with 1 2 3 show False by simp
  qed
  then have b: "producer_touches pp r \<inter> consumer_touches cp r = {}"
    by (auto simp: producer_touches_def consumer_touches_def producer_active_def
        consumer_active_def split: if_splits)
  from 1 have c: "returned r \<le> completed r" by simp
  from 1 2 3 have d: "posted r \<le> Suc (completed r)"
    by (simp split: if_splits)
  from 1 2 3 have e: "producer_active pp \<longrightarrow> posted r = completed r \<and> returned r = completed r"
    by (auto simp: producer_active_def split: if_splits)
  from a b c d e show ?thesis by blast
qed

text \<open>The state in which the consumer has taken the frame of \<open>init()\<close> is reachable.\<close>

lemma reachable_first_frame_taken:
  "reachable small_config (P_in_frame, C_swap, first_frame_taken)"
proof -
  let ?started = "(Renderer_init small_config)\<lparr>m_should_run := True\<rparr>"
  let ?written = "snd (init_submit ?started)"
  let ?posted = "post Render_wait ?written"
  have 0: "reachable small_config (P_running, C_not_started, Renderer_init small_config)"
    by (rule reachable_start)
  have 1: "reachable small_config (P_running, C_loop, ?started)"
    by (rule reachable_step [OF 0 thread_start])
  have "submit small_config Init ?started = (Inr None, ?written)"
    by (simp add: init_submit_def)
  from reachable_step [OF 1 producer_call [OF this]]
  have 2: "reachable small_config (P_running, C_loop, ?written)" .
  have 3: "reachable small_config (P_in_frame, C_loop, ?posted)"
    by (rule reachable_step [OF 2 frame_post])
  have "m_should_run ?posted"
    by (simp add: init_submit_def)
  from reachable_step [OF 3 loop_run [OF this]]
  have 4: "reachable small_config (P_in_frame, C_wait, ?posted)" .
  have "wait Render_wait ?posted = Some first_frame_taken"
    by (simp add: wait_def first_frame_taken_def Let_def)
  from reachable_step [OF 4 render_all_wait [OF this]] show ?thesis .
qed

theorem producer_and_consumer_alternate_witness:
  "reachable small_config (P_in_frame, C_swap, first_frame_taken)
   \<and> consumer_active C_swap \<and> \<not> producer_active P_in_frame
   \<and> producer_touches P_in_frame first_frame_taken \<inter> consumer_touches C_swap first_frame_taken = {}
   \<and> consumer_touches C_swap first_frame_taken = {Context0, Context1}
   \<and> returned first_frame_taken \<le> completed first_frame_taken
   \<and> posted first_frame_taken \<le> Suc (completed first_frame_taken)
   \<and> posted first_frame_taken = 1 \<and> completed first_frame_taken = 0"
proof -
  note T = producer_and_consumer_alternate [OF reachable_first_frame_taken]
  have a: "consumer_active C_swap"
    by (simp add: consumer_active_def)
  with T have b: "\<not> producer_active P_in_frame"
    by blast
  have c: "consumer_touches C_swap first_frame_taken = {Context0, Context1}"
    by (simp add: consumer_touches_def first_frame_taken_def Let_def init_submit_def
        Renderer_init_def)
  have d: "posted first_frame_taken = 1" "completed first_frame_taken = 0"
    by (simp_all add: posted_def completed_def first_frame_taken_def Let_def init_submit_def
        Renderer_init_def)
  from T a b c d reachable_first_frame_taken show ?thesis
    by blast
qed

section \<open>The streams handed to the consumer\<close>

lemma supported_wire_no_END: "Command END \<notin> set (wire call)"
  by (cases call) simp_all

lemma step_stream_invariant:
  assumes "step cfg s s'" and "stream_invariant cfg s"
  shows "stream_invariant cfg s'"
  using assms
proof (induction rule: step.induct)
  case (thread_start r)
  then show ?case by (simp add: stream_invariant_def)
next
  case (producer_call c r v r' cp)
  note k = submit_keeps [OF producer_call(1), of "m_draw r"]
  note w = submit_writes_records [OF producer_call(1)]
  from producer_call(2) obtain recs where ne: "m_submit r \<noteq> m_draw r"
    and rd: "m_read (m_commands (deref r (m_submit r))) = 0"
    and ok: "\<forall>call \<in> set recs. supported cfg call"
    and b: "m_buffer (m_commands (deref r (m_submit r))) = concat (map wire recs)"
    by (auto simp: stream_invariant_def)
  from w ok b have "(\<forall>call \<in> set (recs @ written c r v). supported cfg call)
      \<and> m_buffer (m_commands (deref r' (m_submit r'))) = concat (map wire (recs @ written c r v))"
    by auto
  then have "\<exists>recs. (\<forall>call \<in> set recs. supported cfg call)
      \<and> m_buffer (m_commands (deref r' (m_submit r'))) = concat (map wire recs)"
    by blast
  with producer_call(2) k w ne rd show ?case
    by (simp add: stream_invariant_def)
next
  case (producer_fault c r e r' cp)
  from submit_keeps [OF producer_fault(1), of "m_draw r"]
    submit_fault_keeps [OF producer_fault(1)] producer_fault(2)
  show ?case by (simp add: stream_invariant_def)
next
  case (frame_post cp r)
  then show ?case by (simp add: stream_invariant_def)
next
  case (frame_wait r r' cp)
  with wait_Some(2,3,10) [OF frame_wait(1)] show ?case
    by (simp add: stream_invariant_def)
next
  case (loop_run r pp)
  then show ?case by (simp add: stream_invariant_def)
next
  case (loop_exit r pp)
  then show ?case by (simp add: stream_invariant_def)
next
  case (render_all_wait r r' pp)
  with wait_Some(2,3,10) [OF render_all_wait(1)] show ?case
    by (simp add: stream_invariant_def)
next
  case (render_all_swap pp r)
  then obtain recs where ne: "m_submit r \<noteq> m_draw r"
    and rd: "m_read (m_commands (deref r (m_submit r))) = 0"
    and ok: "\<forall>call \<in> set recs. supported cfg call"
    and b: "m_buffer (m_commands (deref r (m_submit r))) = concat (map wire recs)"
    and d: "m_commands (deref r (m_draw r)) = CommandBuffer_init"
    by (auto simp: stream_invariant_def)
  have "(\<forall>call \<in> set []. supported cfg call)
      \<and> m_buffer (m_commands (deref r (m_draw r))) = concat (map wire [])"
    by (simp add: d CommandBuffer_init_def)
  then have s: "\<exists>recs. (\<forall>call \<in> set recs. supported cfg call)
      \<and> m_buffer (m_commands (deref r (m_draw r))) = concat (map wire recs)"
    by blast
  from ok b have x: "\<exists>recs. (\<forall>call \<in> set recs. supported cfg call)
      \<and> m_buffer (CommandBuffer_write (Command END) (m_commands (deref r (m_submit r))))
          = concat (map wire recs) @ [Command END]"
    by (intro exI [of _ recs]) (simp add: CommandBuffer_write_def)
  from ne rd d s x show ?case
    by (simp add: stream_invariant_def CommandBuffer_write_def CommandBuffer_init_def)
next
  case (render_all_execute r r' pp)
  note k = execute_draw_commands_keeps [OF render_all_execute(1)]
  from render_all_execute(2) k(1,2) k(8) [of "m_submit r"] k(8) [of "m_draw r"]
  show ?case by (simp add: stream_invariant_def)
next
  case (render_all_execute_fault r e pp)
  then show ?case by (simp add: stream_invariant_def)
next
  case (render_all_uniforms r r' pp)
  note k = update_draw_uniforms_keeps [OF render_all_uniforms(1)]
  from render_all_uniforms(2) k(1,2) k(8) [of "m_submit r"] k(8) [of "m_draw r"]
  show ?case by (simp add: stream_invariant_def)
next
  case (render_all_uniforms_fault r e pp)
  then show ?case by (simp add: stream_invariant_def)
next
  case (render_all_render pp r)
  then show ?case by (simp add: stream_invariant_def)
next
  case (render_all_post pp r)
  then show ?case by (simp add: stream_invariant_def)
qed

lemma reachable_stream_invariant:
  "reachable cfg s \<Longrightarrow> stream_invariant cfg s"
proof (induction rule: reachable.induct)
  case reachable_start
  have "(\<forall>call \<in> set []. supported cfg call)
      \<and> m_buffer (m_commands (deref (Renderer_init cfg) (m_submit (Renderer_init cfg))))
          = concat (map wire [])"
    by (simp add: Renderer_init_def deref_def RenderContext_init_def CommandBuffer_init_def)
  then have "\<exists>recs. (\<forall>call \<in> set recs. supported cfg call)
      \<and> m_buffer (m_commands (deref (Renderer_init cfg) (m_submit (Renderer_init cfg))))
          = concat (map wire recs)"
    by blast
  then show ?case
    by (simp add: stream_invariant_def)
      (simp add: Renderer_init_def deref_def RenderContext_init_def CommandBuffer_init_def)
next
  case (reachable_step s s')
  then show ?case by (simp add: step_stream_invariant)
qed

text \<open>
  Claim C3. \<open>swap_contexts\<close> exchanges the two role pointers, and the context that is the
  draw context afterwards is the former submit context closed by \<open>push\<close>: its Command
  Stream is the former submit stream with one END record appended. The END record went
  into the submit context before the exchange: with the two roles on two contexts, the
  context that is the submit context afterwards is the former draw context, untouched.
  Whenever the consumer is about to swap, in any state the two threads can reach, the
  stream it is handed is unread and holds the layouts of supported Command Records
  followed by END, which is the only END record in it.
\<close>

theorem swap_contexts_closes_then_exchanges:
  "m_draw (swap_contexts r) = m_submit r
   \<and> m_submit (swap_contexts r) = m_draw r
   \<and> deref (swap_contexts r) (m_draw (swap_contexts r)) = push (deref r (m_submit r))
   \<and> m_buffer (m_commands (deref (swap_contexts r) (m_draw (swap_contexts r))))
       = m_buffer (m_commands (deref r (m_submit r))) @ [Command END]
   \<and> (m_submit r \<noteq> m_draw r \<longrightarrow>
        deref (swap_contexts r) (m_submit (swap_contexts r)) = deref r (m_draw r))
   \<and> (reachable cfg (pp, C_swap, r) \<longrightarrow>
        (\<exists>recs. (\<forall>call \<in> set recs. supported cfg call)
           \<and> m_buffer (m_commands (deref (swap_contexts r) (m_draw (swap_contexts r))))
               = concat (map wire recs) @ [Command END])
        \<and> count_list (m_buffer (m_commands (deref (swap_contexts r) (m_draw (swap_contexts r)))))
            (Command END) = 1
        \<and> last (m_buffer (m_commands (deref (swap_contexts r) (m_draw (swap_contexts r)))))
            = Command END
        \<and> m_read (m_commands (deref (swap_contexts r) (m_draw (swap_contexts r)))) = 0)"
proof -
  have a: "m_draw (swap_contexts r) = m_submit r" "m_submit (swap_contexts r) = m_draw r"
    "deref (swap_contexts r) (m_draw (swap_contexts r)) = push (deref r (m_submit r))"
    "m_buffer (m_commands (deref (swap_contexts r) (m_draw (swap_contexts r))))
       = m_buffer (m_commands (deref r (m_submit r))) @ [Command END]"
    by (simp_all add: CommandBuffer_write_def)
  have b: "m_submit r \<noteq> m_draw r \<longrightarrow>
        deref (swap_contexts r) (m_submit (swap_contexts r)) = deref r (m_draw r)"
    by auto
  have c: "reachable cfg (pp, C_swap, r) \<longrightarrow>
        (\<exists>recs. (\<forall>call \<in> set recs. supported cfg call)
           \<and> m_buffer (m_commands (deref (swap_contexts r) (m_draw (swap_contexts r))))
               = concat (map wire recs) @ [Command END])
        \<and> count_list (m_buffer (m_commands (deref (swap_contexts r) (m_draw (swap_contexts r)))))
            (Command END) = 1
        \<and> last (m_buffer (m_commands (deref (swap_contexts r) (m_draw (swap_contexts r)))))
            = Command END
        \<and> m_read (m_commands (deref (swap_contexts r) (m_draw (swap_contexts r)))) = 0"
  proof
    assume "reachable cfg (pp, C_swap, r)"
    from reachable_stream_invariant [OF this] obtain recs where
      rd: "m_read (m_commands (deref r (m_submit r))) = 0"
      and ok: "\<forall>call \<in> set recs. supported cfg call"
      and buf: "m_buffer (m_commands (deref r (m_submit r))) = concat (map wire recs)"
      by (auto simp: stream_invariant_def)
    have m: "m_buffer (m_commands (deref (swap_contexts r) (m_draw (swap_contexts r))))
        = concat (map wire recs) @ [Command END]"
      by (simp add: buf CommandBuffer_write_def)
    have "\<exists>recs. (\<forall>call \<in> set recs. supported cfg call)
           \<and> m_buffer (m_commands (deref (swap_contexts r) (m_draw (swap_contexts r))))
               = concat (map wire recs) @ [Command END]"
      using ok m by blast
    moreover have "count_list (m_buffer (m_commands (deref (swap_contexts r) (m_draw (swap_contexts r)))))
            (Command END) = 1"
      by (simp only: m) (simp add: count_list_END_records)
    moreover have "last (m_buffer (m_commands (deref (swap_contexts r) (m_draw (swap_contexts r)))))
            = Command END"
      by (simp only: m) simp
    moreover have "m_read (m_commands (deref (swap_contexts r) (m_draw (swap_contexts r)))) = 0"
      by (simp add: rd CommandBuffer_write_def)
    ultimately show "(\<exists>recs. (\<forall>call \<in> set recs. supported cfg call)
           \<and> m_buffer (m_commands (deref (swap_contexts r) (m_draw (swap_contexts r))))
               = concat (map wire recs) @ [Command END])
        \<and> count_list (m_buffer (m_commands (deref (swap_contexts r) (m_draw (swap_contexts r)))))
            (Command END) = 1
        \<and> last (m_buffer (m_commands (deref (swap_contexts r) (m_draw (swap_contexts r)))))
            = Command END
        \<and> m_read (m_commands (deref (swap_contexts r) (m_draw (swap_contexts r)))) = 0"
      by blast
  qed
  from a b c show ?thesis
    by (intro conjI)
qed

theorem swap_contexts_closes_then_exchanges_witness:
  "reachable small_config (P_in_frame, C_swap, first_frame_taken)
   \<and> m_submit first_frame_taken = Context0 \<and> m_draw first_frame_taken = Context1
   \<and> m_draw (swap_contexts first_frame_taken) = Context0
   \<and> m_submit (swap_contexts first_frame_taken) = Context1
   \<and> m_buffer (m_commands (deref (swap_contexts first_frame_taken)
        (m_draw (swap_contexts first_frame_taken))))
       = [Command INIT_RENDERER, Command END]
   \<and> m_buffer (m_commands (deref (swap_contexts first_frame_taken)
        (m_submit (swap_contexts first_frame_taken)))) = []
   \<and> count_list (m_buffer (m_commands (deref (swap_contexts first_frame_taken)
        (m_draw (swap_contexts first_frame_taken))))) (Command END) = 1"
proof -
  note T = swap_contexts_closes_then_exchanges [of first_frame_taken small_config P_in_frame]
  have p: "m_submit first_frame_taken = Context0" "m_draw first_frame_taken = Context1"
    by (simp_all add: first_frame_taken_def Let_def init_submit_def Renderer_init_def)
  have s: "m_buffer (m_commands (deref first_frame_taken Context0)) = [Command INIT_RENDERER]"
    "m_buffer (m_commands (deref first_frame_taken Context1)) = []"
    by (simp_all add: first_frame_taken_def Let_def init_submit_def Renderer_init_def
        deref_def submit_write_def assign_def RenderContext_init_def CommandBuffer_init_def
        CommandBuffer_write_def post_def)
  from T have 1: "m_draw (swap_contexts first_frame_taken) = m_submit first_frame_taken"
    by - (elim conjE, assumption)
  from T have 2: "m_submit (swap_contexts first_frame_taken) = m_draw first_frame_taken"
    by - (elim conjE, assumption)
  from T have 3: "m_buffer (m_commands (deref (swap_contexts first_frame_taken)
        (m_draw (swap_contexts first_frame_taken))))
       = m_buffer (m_commands (deref first_frame_taken (m_submit first_frame_taken)))
           @ [Command END]"
    by - (elim conjE, assumption)
  from T p have 4: "deref (swap_contexts first_frame_taken)
        (m_submit (swap_contexts first_frame_taken))
      = deref first_frame_taken (m_draw first_frame_taken)"
    by - (elim conjE, simp)
  from T reachable_first_frame_taken
  have 5: "count_list (m_buffer (m_commands (deref (swap_contexts first_frame_taken)
        (m_draw (swap_contexts first_frame_taken))))) (Command END) = 1"
    by - (elim conjE, simp)
  from reachable_first_frame_taken p 1 2 3 4 5 s show ?thesis
    by simp
qed

end
